theory Spec2Isabelle
  imports Main "HOL-Library.Sublist"
begin

section \<open>Data model of the Google Sheets service (services/googleSheets.js)\<close>

text \<open>
  Timestamps are ISO strings in the source and are only ever read through
  \<^verbatim>\<open>new Date(ts).getTime()\<close>; the model keeps the millisecond count (an \<open>int\<close>).
  \<^verbatim>\<open>null\<close> is \<open>None\<close>. A JavaScript object held by reference (a raid of
  \<^verbatim>\<open>recentRaids\<close>) is identified by its position in the registry. Numbers are integers
  (no \<^verbatim>\<open>NaN\<close>); the calls of the logger are left out.
\<close>

record player =
  name :: string
  points :: int

record raid =
  timestamp :: int
  totalPoints :: "int option"
  completionTime :: "string option"
  scale :: string
  uniqueDrop :: string
  players :: "player list"
  sheetRow :: "nat option"
  addedToSheet :: bool

text \<open>The parsed notification handed to \<^verbatim>\<open>appendToSheet\<close> (one object type in the
  source; a field a notification does not carry is \<open>None\<close>, \<open>[]\<close> or \<open>''''\<close>).\<close>

record data =
  d_type :: string
  d_timestamp :: int
  d_totalPoints :: "int option"
  d_raidTime :: "string option"
  d_players :: "player list"
  d_scale :: "string option"
  d_playerName :: "string option"
  d_itemName :: string

record durationOrphan =
  do_timestamp :: int
  do_raidTime :: "string option"
  do_scale :: "string option"
  do_playerName :: "string option"

record lootOrphan =
  lo_timestamp :: int
  lo_itemName :: string
  lo_playerName :: "string option"

text \<open>A thrown JavaScript \<^verbatim>\<open>Error\<close>: its \<^verbatim>\<open>code\<close> (absent on a plain
  \<^verbatim>\<open>new Error(msg)\<close>) and its message.\<close>

record error =
  code :: "int option"
  message :: string

text \<open>Cells of a spreadsheet row. \<open>CTime ts\<close> stands for \<^verbatim>\<open>formatTimestamp(ts)\<close>,
  whose locale formatting is not modelled.\<close>

datatype cell = CStr string | CNum int | CTime int

type_synonym row = "cell list"

text \<open>What the Sheets API is asked, and what it answers. Of a successful answer the code
  reads two things: whether the spreadsheet has a sheet titled Raids
  (\<^verbatim>\<open>spreadsheets.get\<close>) and the row number matched by \<^verbatim>\<open>/!A(\d+)/\<close> in
  \<^verbatim>\<open>updates.updatedRange\<close> (\<^verbatim>\<open>values.append\<close>; \<open>None\<close> when the answer has no
  updates or the range does not match).\<close>

datatype api_call =
    GetClient
  | SpreadsheetsGet
  | BatchUpdate
  | AppendHeaders
  | ValuesAppend row
  | ValuesUpdate nat row

record response =
  hasRaidsSheet :: bool
  updatedRow :: "nat option"

datatype api_result = Success response | Failure error

text \<open>
  The module's mutable globals, the wall clock, and the outside world: \<open>world k\<close> is the
  answer of the API to the \<open>k\<close>-th call of the run, \<open>calls\<close> is the trace of the calls
  issued so far with the time of each, and \<open>scheduled\<close> holds the
  \<^verbatim>\<open>setTimeout\<close> callbacks registered by the score path (due time and registry position;
  they run outside \<^verbatim>\<open>appendToSheet\<close> and are not executed here). \<^verbatim>\<open>Date.now()\<close> reads
  \<open>clock\<close>, which stands still while a handler runs synchronously; a \<^verbatim>\<open>setTimeout\<close> that
  is awaited advances it by its delay, and API calls take no time.
\<close>

record state =
  recentRaids :: "raid list"
  durations :: "durationOrphan list"
  loots :: "lootOrphan list"
  sheetsClient :: bool
  lastRateLimitError :: int
  clock :: int
  world :: "nat \<Rightarrow> api_result"
  calls :: "(int \<times> api_call) list"
  scheduled :: "(int \<times> nat) list"

definition RATE_LIMIT_COOLDOWN :: int where "RATE_LIMIT_COOLDOWN = 60000"
definition MAX_RAID_HISTORY :: nat where "MAX_RAID_HISTORY = 10"
definition RAID_TIMEOUT :: int where "RAID_TIMEOUT = 300000"
definition ORPHAN_TIMEOUT :: int where "ORPHAN_TIMEOUT = 10000"
definition MAX_PLAYERS :: nat where "MAX_PLAYERS = 5"
definition MIN_TEAM_SIZE :: nat where "MIN_TEAM_SIZE = 10"
definition MIN_POINTS_THRESHOLD :: int where "MIN_POINTS_THRESHOLD = 2000"
definition MAX_RETRIES :: nat where "MAX_RETRIES = 3"
definition RETRY_DELAY :: int where "RETRY_DELAY = 2000"

text \<open>The module as loaded: empty registry and buffers, no client yet,
  \<^verbatim>\<open>lastRateLimitError = 0\<close>.\<close>

definition init_state :: "int \<Rightarrow> (nat \<Rightarrow> api_result) \<Rightarrow> state" where
  "init_state t w =
     \<lparr>recentRaids = [], durations = [], loots = [], sheetsClient = False,
      lastRateLimitError = 0, clock = t, world = w, calls = [], scheduled = []\<rparr>"

subsection \<open>JavaScript string helpers\<close>

text \<open>Truthiness of a string that may be \<^verbatim>\<open>null\<close>: neither \<^verbatim>\<open>null\<close> nor empty.\<close>

fun truthy :: "string option \<Rightarrow> bool" where
  "truthy None = False"
| "truthy (Some s) = (s \<noteq> [])"

text \<open>\<^verbatim>\<open>hay.includes(needle)\<close>.\<close>

fun includes_str :: "string \<Rightarrow> string \<Rightarrow> bool" where
  "includes_str needle [] = (needle = [])"
| "includes_str needle (c # cs) =
     (take (length needle) (c # cs) = needle \<or> includes_str needle cs)"

definition is_digit :: "char \<Rightarrow> bool" where
  "is_digit c = (c \<in> set ''0123456789'')"

text \<open>\<^verbatim>\<open>parseInt(ds, 10)\<close> on a string of decimal digits.\<close>

definition parseInt :: "string \<Rightarrow> nat" where
  "parseInt ds = foldl (\<lambda>a c. 10 * a + (of_char c - 48)) 0 ds"

subsection \<open>Team-size gate\<close>

text \<open>\<^verbatim>\<open>scale.match(/^(\d+)/)\<close> is the longest prefix of digits, and fails when it is empty.\<close>

definition isScaleLargeEnough :: "string \<Rightarrow> bool" where
  "isScaleLargeEnough sc =
     (if sc = [] then True
      else (let m = takeWhile is_digit sc in
            if m = [] then True
            else MIN_TEAM_SIZE \<le> parseInt m))"

section \<open>Persistence gateway\<close>

text \<open>One call of the API: the world answers, the trace grows.\<close>

definition api :: "api_call \<Rightarrow> state \<Rightarrow> api_result \<times> state" where
  "api c s = (world s (length (calls s)), s\<lparr>calls := calls s @ [(clock s, c)]\<rparr>)"

text \<open>\<^verbatim>\<open>await new Promise(resolve => setTimeout(resolve, ms))\<close>.\<close>

definition sleep :: "int \<Rightarrow> state \<Rightarrow> state" where
  "sleep ms s = s\<lparr>clock := clock s + ms\<rparr>"

definition initializeSheetsClient :: "state \<Rightarrow> (error + unit) \<times> state" where
  "initializeSheetsClient s =
     (case api GetClient s of
        (Failure e, s') \<Rightarrow> (Inl e, s')
      | (Success _, s') \<Rightarrow> (Inr (), s'\<lparr>sheetsClient := True\<rparr>))"

text \<open>\<^verbatim>\<open>addHeaders\<close> catches and logs its own failures: the first failing call ends it.\<close>

definition addHeaders :: "state \<Rightarrow> state" where
  "addHeaders s =
     (case api AppendHeaders s of
        (Failure _, s1) \<Rightarrow> s1
      | (Success _, s1) \<Rightarrow>
          (case api SpreadsheetsGet s1 of
             (Failure _, s2) \<Rightarrow> s2
           | (Success _, s2) \<Rightarrow> snd (api BatchUpdate s2)))"

definition ensureSheetsExist :: "state \<Rightarrow> (error + unit) \<times> state" where
  "ensureSheetsExist s =
     (case (if \<not> sheetsClient s then initializeSheetsClient s else (Inr (), s)) of
        (Inl e, s1) \<Rightarrow> (Inl e, s1)
      | (Inr _, s1) \<Rightarrow>
          (case api SpreadsheetsGet s1 of
             (Failure e, s2) \<Rightarrow> (Inl e, s2)
           | (Success r, s2) \<Rightarrow>
               if \<not> hasRaidsSheet r then
                 (case api BatchUpdate s2 of
                    (Failure e, s3) \<Rightarrow> (Inl e, s3)
                  | (Success _, s3) \<Rightarrow> (Inr (), addHeaders s3))
               else (Inr (), s2)))"

text \<open>The part of \<^verbatim>\<open>appendRow\<close> and \<^verbatim>\<open>updateRow\<close> before the API call: wait out the
  cooldown, then create the client when there is none.\<close>

definition awaitCooldown :: "state \<Rightarrow> state" where
  "awaitCooldown s =
     (if clock s - lastRateLimitError s < RATE_LIMIT_COOLDOWN
      then sleep (RATE_LIMIT_COOLDOWN - (clock s - lastRateLimitError s)) s
      else s)"

definition ensureClient :: "state \<Rightarrow> (error + unit) \<times> state" where
  "ensureClient s =
     (if \<not> sheetsClient s then
        (case initializeSheetsClient s of
           (Inl e, s1) \<Rightarrow> (Inl e, s1)
         | (Inr _, s1) \<Rightarrow> ensureSheetsExist s1)
      else (Inr (), s))"

text \<open>The \<^verbatim>\<open>try\<close> block of \<^verbatim>\<open>appendRow\<close>.\<close>

definition appendRow_try :: "row \<Rightarrow> state \<Rightarrow> (error + response) \<times> state" where
  "appendRow_try r s =
     (case ensureClient (awaitCooldown s) of
        (Inl e, s1) \<Rightarrow> (Inl e, s1)
      | (Inr _, s1) \<Rightarrow>
          (case api (ValuesAppend r) s1 of
             (Failure e, s2) \<Rightarrow> (Inl e, s2)
           | (Success resp, s2) \<Rightarrow> (Inr resp, s2)))"

definition isRateLimit :: "error \<Rightarrow> bool" where
  "isRateLimit e = (code e = Some 429 \<or> includes_str ''rate limit'' (message e))"

definition isAuthError :: "error \<Rightarrow> bool" where
  "isAuthError e = (code e = Some 401 \<or> code e = Some 403)"

definition retriesExhausted :: error where
  "retriesExhausted =
     \<lparr>code = None, message = ''Failed to append row after 3 retries due to rate limiting''\<rparr>"

function appendRow :: "row \<Rightarrow> nat \<Rightarrow> state \<Rightarrow> (error + response) \<times> state" where
  "appendRow r retryCount s =
     (case appendRow_try r s of
        (Inr resp, s1) \<Rightarrow> (Inr resp, s1)
      | (Inl e, s1) \<Rightarrow>
          if isRateLimit e then
            (let s2 = s1\<lparr>lastRateLimitError := clock s1\<rparr> in
             if retryCount < MAX_RETRIES
             then appendRow r (Suc retryCount) (sleep (RETRY_DELAY * 2 ^ retryCount) s2)
             else (Inl retriesExhausted, s2))
          else if isAuthError e then
            (let s2 = s1\<lparr>sheetsClient := False\<rparr> in
             if retryCount < MAX_RETRIES
             then appendRow r (Suc retryCount) (sleep RETRY_DELAY s2)
             else (Inl e, s2))
          else (Inl e, s1))"
  by pat_completeness auto
termination
  by (relation "measure (\<lambda>(r, retryCount, s). MAX_RETRIES - retryCount)") auto

declare appendRow.simps [simp del]

text \<open>The \<^verbatim>\<open>try\<close> block of \<^verbatim>\<open>updateRow\<close>.\<close>

definition updateRow_try :: "nat \<Rightarrow> row \<Rightarrow> state \<Rightarrow> (error + unit) \<times> state" where
  "updateRow_try rowNumber r s =
     (case ensureClient (awaitCooldown s) of
        (Inl e, s1) \<Rightarrow> (Inl e, s1)
      | (Inr _, s1) \<Rightarrow>
          (case api (ValuesUpdate rowNumber r) s1 of
             (Failure e, s2) \<Rightarrow> (Inl e, s2)
           | (Success _, s2) \<Rightarrow> (Inr (), s2)))"

function updateRow :: "nat \<Rightarrow> row \<Rightarrow> nat \<Rightarrow> state \<Rightarrow> (error + unit) \<times> state" where
  "updateRow rowNumber r retryCount s =
     (case updateRow_try rowNumber r s of
        (Inr u, s1) \<Rightarrow> (Inr u, s1)
      | (Inl e, s1) \<Rightarrow>
          if isRateLimit e then
            (let s2 = s1\<lparr>lastRateLimitError := clock s1\<rparr> in
             if retryCount < MAX_RETRIES
             then updateRow rowNumber r (Suc retryCount)
                    (sleep (RETRY_DELAY * 2 ^ retryCount) s2)
             else (Inl e, s2))
          else (Inl e, s1))"
  by pat_completeness auto
termination
  by (relation "measure (\<lambda>(rowNumber, r, retryCount, s). MAX_RETRIES - retryCount)") auto

declare updateRow.simps [simp del]

section \<open>Orphan buffer\<close>

definition cleanOrphans :: "state \<Rightarrow> state" where
  "cleanOrphans s =
     (let cutoff = clock s - ORPHAN_TIMEOUT in
      s\<lparr>durations := filter (\<lambda>orphan. cutoff \<le> do_timestamp orphan) (durations s),
        loots := filter (\<lambda>orphan. cutoff \<le> lo_timestamp orphan) (loots s)\<rparr>)"

definition MERGE_WINDOW :: int where "MERGE_WINDOW = 3000"

text \<open>\<^verbatim>\<open>xs.splice(i, 1)\<close>: the array without its element at \<open>i\<close>.\<close>

definition splice1 :: "nat \<Rightarrow> 'a list \<Rightarrow> 'a list" where
  "splice1 i xs = take i xs @ drop (Suc i) xs"

text \<open>The loop over the duration orphans, from index \<open>i\<close> on. The accumulator is
  \<^verbatim>\<open>(closestIndex, closestTimeDiff)\<close>, \<open>None\<close> for the initial \<^verbatim>\<open>(-1, Infinity)\<close>.\<close>

fun closestDuration ::
  "int \<Rightarrow> durationOrphan list \<Rightarrow> nat \<Rightarrow> (nat \<times> int) option \<Rightarrow> (nat \<times> int) option" where
  "closestDuration raidTime [] i best = best"
| "closestDuration raidTime (orphan # rest) i best =
     (let timeDiff = raidTime - do_timestamp orphan in
      if 0 \<le> timeDiff \<and> timeDiff \<le> MERGE_WINDOW
         \<and> (case best of None \<Rightarrow> True | Some (_, closestTimeDiff) \<Rightarrow> timeDiff < closestTimeDiff)
      then closestDuration raidTime rest (Suc i) (Some (i, timeDiff))
      else closestDuration raidTime rest (Suc i) best)"

text \<open>The loop over the loot orphans, \<^verbatim>\<open>for (i = n - 1; i >= 0; i--)\<close>, collecting
  \<^verbatim>\<open>{index, orphan, timeDiff}\<close> in the order pushed.\<close>

fun matchingLoots :: "int \<Rightarrow> lootOrphan list \<Rightarrow> nat \<Rightarrow> (nat \<times> lootOrphan \<times> int) list" where
  "matchingLoots raidTime ls 0 = []"
| "matchingLoots raidTime ls (Suc i) =
     (let orphan = ls ! i; timeDiff = raidTime - lo_timestamp orphan in
      (if 0 \<le> timeDiff \<and> timeDiff \<le> MERGE_WINDOW then [(i, orphan, timeDiff)] else [])
      @ matchingLoots raidTime ls i)"

text \<open>\<^verbatim>\<open>playerName ? `(${playerName}) - ${itemName}` : itemName\<close>.\<close>

definition lootMessage :: "string option \<Rightarrow> string \<Rightarrow> string" where
  "lootMessage playerName itemName =
     (case playerName of
        None \<Rightarrow> itemName
      | Some p \<Rightarrow> if p = [] then itemName else ''('' @ p @ '') - '' @ itemName)"

text \<open>Append to the existing loot or set it.\<close>

definition addLoot :: "string \<Rightarrow> raid \<Rightarrow> raid" where
  "addLoot msg r =
     (if uniqueDrop r \<noteq> [] then r\<lparr>uniqueDrop := uniqueDrop r @ '', '' @ msg\<rparr>
      else r\<lparr>uniqueDrop := msg\<rparr>)"

text \<open>\<^verbatim>\<open>if (x.scale) raid.scale = x.scale\<close>.\<close>

definition setScale :: "string option \<Rightarrow> raid \<Rightarrow> raid" where
  "setScale sc r =
     (case sc of None \<Rightarrow> r | Some x \<Rightarrow> if x = [] then r else r\<lparr>scale := x\<rparr>)"

text \<open>\<^verbatim>\<open>mergeOrphansWithRaid\<close> mutates the raid it is given and the two buffers; it returns
  \<^verbatim>\<open>merged\<close>. \<^verbatim>\<open>Array.prototype.sort\<close> is stable, as \<open>sort_key\<close> is.\<close>

definition mergeOrphansWithRaid :: "raid \<Rightarrow> state \<Rightarrow> bool \<times> raid \<times> state" where
  "mergeOrphansWithRaid r s =
     (let raidTime = timestamp r;
          (merged1, r1, s1) =
            (if \<not> truthy (completionTime r) \<and> durations s \<noteq> [] then
               (case closestDuration raidTime (durations s) 0 None of
                  None \<Rightarrow> (False, r, s)
                | Some (closestIndex, _) \<Rightarrow>
                    (let durationOrphan = durations s ! closestIndex;
                         ra = r\<lparr>completionTime := do_raidTime durationOrphan\<rparr>;
                         rb = setScale (do_scale durationOrphan) ra
                     in (True, rb, s\<lparr>durations := splice1 closestIndex (durations s)\<rparr>)))
             else (False, r, s))
      in
        if loots s1 \<noteq> [] then
          (let matchingOrphans =
                 sort_key (\<lambda>(i, orphan, timeDiff). timeDiff)
                   (matchingLoots raidTime (loots s1) (length (loots s1)))
           in if matchingOrphans \<noteq> [] then
                (let r2 = foldl (\<lambda>ra (i, lootOrphan, timeDiff).
                                   addLoot (lootMessage (lo_playerName lootOrphan)
                                              (lo_itemName lootOrphan)) ra)
                                r1 matchingOrphans;
                     indicesToRemove = rev (sort (map fst matchingOrphans))
                 in (True, r2,
                     s1\<lparr>loots := foldl (\<lambda>ls idx. splice1 idx ls) (loots s1) indicesToRemove\<rparr>))
              else (merged1, r1, s1))
        else (merged1, r1, s1))"

section \<open>Occurrence registry\<close>

text \<open>The clean-up loop of \<^verbatim>\<open>createRaidEntry\<close>: shift while the oldest raid is older than
  the cutoff.\<close>

fun evictOld :: "int \<Rightarrow> raid list \<Rightarrow> raid list" where
  "evictOld cutoff [] = []"
| "evictOld cutoff (oldestRaid # rest) =
     (if timestamp oldestRaid < cutoff then evictOld cutoff rest else oldestRaid # rest)"

definition createRaidEntry :: "data \<Rightarrow> state \<Rightarrow> raid \<times> state" where
  "createRaidEntry dat s =
     (let filteredPlayers =
            take MAX_PLAYERS (filter (\<lambda>p. MIN_POINTS_THRESHOLD \<le> points p) (d_players dat));
          r = \<lparr>timestamp = d_timestamp dat,
               totalPoints = d_totalPoints dat,
               completionTime = (if truthy (d_raidTime dat) then d_raidTime dat else Some []),
               scale = [],
               uniqueDrop = [],
               players = filteredPlayers,
               sheetRow = None,
               addedToSheet = False\<rparr>;
          pushed = recentRaids s @ [r];
          capped = (if MAX_RAID_HISTORY < length pushed then tl pushed else pushed);
          cutoff = clock s - RAID_TIMEOUT
      in (r, s\<lparr>recentRaids := evictOld cutoff capped\<rparr>))"

text \<open>The backward scans of the registry, \<^verbatim>\<open>for (i = n - 1; i >= 0; i--)\<close>, returning at
  the first raid that qualifies; the result is the position of that raid.\<close>

fun scanBack :: "(raid \<Rightarrow> bool) \<Rightarrow> raid list \<Rightarrow> nat \<Rightarrow> nat option" where
  "scanBack P rs 0 = None"
| "scanBack P rs (Suc i) = (if P (rs ! i) then Some i else scanBack P rs i)"

definition TIME_WINDOW :: int where "TIME_WINDOW = 120000"
definition POINTS_TOLERANCE :: int where "POINTS_TOLERANCE = 500"
definition LOOT_TIME_WINDOW :: int where "LOOT_TIME_WINDOW = 60000"
definition TIME_THRESHOLD :: int where "TIME_THRESHOLD = 60000"

text \<open>In \<^verbatim>\<open>raid.totalPoints - totalPoints\<close> a \<^verbatim>\<open>null\<close> counts as 0.\<close>

definition toNumber :: "int option \<Rightarrow> int" where
  "toNumber v = (case v of None \<Rightarrow> 0 | Some n \<Rightarrow> n)"

definition pointsMatch :: "int \<Rightarrow> int option \<Rightarrow> raid \<Rightarrow> bool" where
  "pointsMatch now tp r =
     (let timeDiff = now - timestamp r in
      case tp of
        Some p \<Rightarrow> \<bar>toNumber (totalPoints r) - p\<bar> \<le> POINTS_TOLERANCE \<and> timeDiff \<le> TIME_WINDOW
      | None \<Rightarrow> totalPoints r = None \<and> timeDiff \<le> TIME_WINDOW)"

definition findRaidByTotalPoints :: "int option \<Rightarrow> state \<Rightarrow> nat option" where
  "findRaidByTotalPoints tp s =
     scanBack (pointsMatch (clock s) tp) (recentRaids s) (length (recentRaids s))"

definition findRaidForLoot :: "data \<Rightarrow> state \<Rightarrow> nat option" where
  "findRaidForLoot lootData s =
     (case scanBack (\<lambda>r. clock s - timestamp r \<le> LOOT_TIME_WINDOW
                          \<and> d_playerName lootData \<in> set (map (\<lambda>p. Some (name p)) (players r)))
             (recentRaids s) (length (recentRaids s)) of
        Some i \<Rightarrow> Some i
      | None \<Rightarrow>
          scanBack (\<lambda>r. clock s - timestamp r \<le> LOOT_TIME_WINDOW)
            (recentRaids s) (length (recentRaids s)))"

section \<open>Row projection\<close>

text \<open>\<^verbatim>\<open>x || ''\<close> on a number: \<^verbatim>\<open>null\<close> and 0 give the empty string.\<close>

definition numCell :: "int option \<Rightarrow> cell" where
  "numCell v = (case v of None \<Rightarrow> CStr [] | Some n \<Rightarrow> if n = 0 then CStr [] else CNum n)"

fun playerCells :: "player list \<Rightarrow> nat \<Rightarrow> cell list" where
  "playerCells ps 0 = []"
| "playerCells ps (Suc k) =
     (case ps of
        [] \<Rightarrow> [CStr [], CStr []]
      | p # rest \<Rightarrow> [CStr (name p), numCell (Some (points p))]) @ playerCells (tl ps) k"

definition raidToRow :: "raid \<Rightarrow> row" where
  "raidToRow r =
     [CTime (timestamp r),
      numCell (totalPoints r),
      CStr (case completionTime r of None \<Rightarrow> [] | Some t \<Rightarrow> t),
      CStr (uniqueDrop r)]
     @ playerCells (players r) MAX_PLAYERS
     @ [CStr (scale r)]"

section \<open>Correlator\<close>

text \<open>Writing through a reference: the raid at position \<open>i\<close> of the registry.\<close>

definition putRaid :: "nat \<Rightarrow> raid \<Rightarrow> state \<Rightarrow> state" where
  "putRaid i r s = s\<lparr>recentRaids := (recentRaids s)[i := r]\<rparr>"

text \<open>\<^verbatim>\<open>raid.addedToSheet && raid.sheetRow\<close>: the row to update, when there is one.\<close>

definition persistedRow :: "raid \<Rightarrow> nat option" where
  "persistedRow r =
     (if addedToSheet r then
        (case sheetRow r of None \<Rightarrow> None | Some n \<Rightarrow> if n = 0 then None else Some n)
      else None)"

text \<open>\<^verbatim>\<open>raid.players.some(p => p.name === newPlayer.name)\<close>.\<close>

definition playerExists :: "player \<Rightarrow> raid \<Rightarrow> bool" where
  "playerExists newPlayer r = (name newPlayer \<in> set (map name (players r)))"

text \<open>\<^verbatim>\<open>handleRaidCompletion\<close>, the branch \<^verbatim>\<open>if (raid)\<close>: a raid with matching total
  points exists at position \<open>i\<close>.\<close>

definition addToExistingRaid :: "data \<Rightarrow> nat \<Rightarrow> state \<Rightarrow> (error + raid option) \<times> state" where
  "addToExistingRaid dat i s =
     (let r0 = recentRaids s ! i;
          r = (if totalPoints r0 = None then r0\<lparr>totalPoints := d_totalPoints dat\<rparr> else r0);
          s1 = putRaid i r s
      in case d_players dat of
           [] \<Rightarrow> (Inr (Some r), s1)
         | newPlayer # _ \<Rightarrow>
             if points newPlayer < MIN_POINTS_THRESHOLD then (Inr (Some r), s1)
             else if length (players r) < MAX_PLAYERS then
               (if playerExists newPlayer r then (Inr (Some r), s1)
                else
                  (let r' = r\<lparr>players := players r @ [newPlayer]\<rparr>;
                       s2 = putRaid i r' s1
                   in case persistedRow r' of
                        Some n \<Rightarrow>
                          (case updateRow n (raidToRow r') 0 s2 of
                             (Inl e, s3) \<Rightarrow> (Inl e, s3)
                           | (Inr _, s3) \<Rightarrow> (Inr (Some r'), s3))
                      | None \<Rightarrow>
                          (Inr (Some r'),
                           s2\<lparr>scheduled := scheduled s2 @ [(clock s2 + 2000, i)]\<rparr>)))
             else (Inr (Some r), s1))"

text \<open>The branch that merges the score into a placeholder raid at position \<open>j\<close>.\<close>

definition promotePlaceholder :: "data \<Rightarrow> nat \<Rightarrow> state \<Rightarrow> raid \<times> state" where
  "promotePlaceholder dat j s =
     (let r = (recentRaids s ! j)\<lparr>totalPoints := d_totalPoints dat\<rparr>;
          r' = (case d_players dat of
                  [] \<Rightarrow> r
                | newPlayer # _ \<Rightarrow>
                    if MIN_POINTS_THRESHOLD \<le> points newPlayer \<and> length (players r) < MAX_PLAYERS
                    then (if playerExists newPlayer r then r
                          else r\<lparr>players := players r @ [newPlayer]\<rparr>)
                    else r)
      in (r', putRaid j r' s))"

text \<open>The branch that creates a raid and merges the orphans into it. The new raid is the
  last of the registry, unless the clean-up of \<^verbatim>\<open>createRaidEntry\<close> has just shifted it out
  (then the registry is empty and the object lives on unregistered: no position).\<close>

definition createAndMerge :: "data \<Rightarrow> state \<Rightarrow> nat option \<times> raid \<times> state" where
  "createAndMerge dat s =
     (let (r, s1) = createRaidEntry dat s;
          (merged, r', s2) = mergeOrphansWithRaid r s1
      in if recentRaids s2 = [] then (None, r', s2)
         else (let i = length (recentRaids s2) - 1 in (Some i, r', putRaid i r' s2)))"

definition writeRaid :: "nat option \<Rightarrow> raid \<Rightarrow> state \<Rightarrow> state" where
  "writeRaid ref r s = (case ref of None \<Rightarrow> s | Some i \<Rightarrow> putRaid i r s)"

text \<open>The end of the \<^verbatim>\<open>else\<close> branch: the team-size gate, then the first append or the
  update of the row.\<close>

definition persistRaid :: "nat option \<Rightarrow> raid \<Rightarrow> state \<Rightarrow> (error + raid option) \<times> state" where
  "persistRaid ref r s =
     (if \<not> isScaleLargeEnough (scale r) then (Inr (Some r), s)
      else if totalPoints r \<noteq> None \<and> \<not> addedToSheet r then
        (case appendRow (raidToRow r) 0 s of
           (Inl e, s1) \<Rightarrow> (Inl e, s1)
         | (Inr resp, s1) \<Rightarrow>
             (case updatedRow resp of
                None \<Rightarrow> (Inr (Some r), s1)
              | Some n \<Rightarrow>
                  (let r' = r\<lparr>sheetRow := Some n, addedToSheet := True\<rparr>
                   in (Inr (Some r'), writeRaid ref r' s1))))
      else
        (case persistedRow r of
           Some n \<Rightarrow>
             (case updateRow n (raidToRow r) 0 s of
                (Inl e, s1) \<Rightarrow> (Inl e, s1)
              | (Inr _, s1) \<Rightarrow> (Inr (Some r), s1))
         | None \<Rightarrow> (Inr (Some r), s)))"

definition MAX_DATA_AGE :: int where "MAX_DATA_AGE = 300000"

definition handleRaidCompletion :: "data \<Rightarrow> state \<Rightarrow> (error + raid option) \<times> state" where
  "handleRaidCompletion dat s =
     (if clock s - d_timestamp dat > MAX_DATA_AGE then (Inr None, s)
      else
        (let s1 = cleanOrphans s in
         case findRaidByTotalPoints (d_totalPoints dat) s1 of
           Some i \<Rightarrow> addToExistingRaid dat i s1
         | None \<Rightarrow>
             (case findRaidByTotalPoints None s1 of
                Some j \<Rightarrow>
                  (let (r, s2) = promotePlaceholder dat j s1 in persistRaid (Some j) r s2)
              | None \<Rightarrow>
                  (let (ref, r, s2) = createAndMerge dat s1 in persistRaid ref r s2))))"

definition handleDurationUpdate :: "data \<Rightarrow> state \<Rightarrow> (error + unit) \<times> state" where
  "handleDurationUpdate dat s =
     (let s1 = cleanOrphans s in
      case scanBack (\<lambda>r. clock s1 - timestamp r \<le> TIME_THRESHOLD \<and> \<not> truthy (completionTime r))
             (recentRaids s1) (length (recentRaids s1)) of
        Some i \<Rightarrow>
          (let targetRaid =
                 setScale (d_scale dat) ((recentRaids s1 ! i)\<lparr>completionTime := d_raidTime dat\<rparr>);
               s2 = putRaid i targetRaid s1
           in case persistedRow targetRaid of
                Some n \<Rightarrow> updateRow n (raidToRow targetRaid) 0 s2
              | None \<Rightarrow> (Inr (), s2))
      | None \<Rightarrow>
          (Inr (),
           s1\<lparr>durations := durations s1 @
                 [\<lparr>do_timestamp = d_timestamp dat,
                   do_raidTime = d_raidTime dat,
                   do_scale = (if truthy (d_scale dat) then d_scale dat else None),
                   do_playerName = (if truthy (d_playerName dat) then d_playerName dat else None)\<rparr>]\<rparr>))"

text \<open>Each player can only receive one purple per raid:
  \<^verbatim>\<open>raid.uniqueDrop && data.playerName && raid.uniqueDrop.includes(`(${data.playerName})`)\<close>.\<close>

definition alreadyHasDrop :: "string option \<Rightarrow> raid \<Rightarrow> bool" where
  "alreadyHasDrop playerName r =
     (uniqueDrop r \<noteq> [] \<and>
      (case playerName of
         None \<Rightarrow> False
       | Some p \<Rightarrow> p \<noteq> [] \<and> includes_str (''('' @ p @ '')'') (uniqueDrop r)))"

definition handleLootDrop :: "data \<Rightarrow> state \<Rightarrow> (error + unit) \<times> state" where
  "handleLootDrop dat s =
     (let s1 = cleanOrphans s in
      case findRaidForLoot dat s1 of
        None \<Rightarrow>
          (Inr (),
           s1\<lparr>loots := loots s1 @
                 [\<lparr>lo_timestamp = d_timestamp dat,
                   lo_itemName = d_itemName dat,
                   lo_playerName = (if truthy (d_playerName dat) then d_playerName dat else None)\<rparr>]\<rparr>)
      | Some i \<Rightarrow>
          (let r = recentRaids s1 ! i in
           if alreadyHasDrop (d_playerName dat) r then (Inr (), s1)
           else
             (let r' = addLoot (lootMessage (d_playerName dat) (d_itemName dat)) r;
                  s2 = putRaid i r' s1
              in case persistedRow r' of
                   Some n \<Rightarrow> updateRow n (raidToRow r') 0 s2
                 | None \<Rightarrow> (Inr (), s2))))"

text \<open>The entry point. Its \<^verbatim>\<open>catch\<close> logs the error and throws it again.\<close>

definition unknownDataType :: "string \<Rightarrow> error" where
  "unknownDataType ty = \<lparr>code = None, message = ''Unknown data type: '' @ ty\<rparr>"

definition appendToSheet :: "data \<Rightarrow> state \<Rightarrow> (error + unit) \<times> state" where
  "appendToSheet dat s =
     (if d_type dat = ''points'' then
        (case handleRaidCompletion dat s of
           (Inl e, s') \<Rightarrow> (Inl e, s')
         | (Inr _, s') \<Rightarrow> (Inr (), s'))
      else if d_type dat = ''duration'' then handleDurationUpdate dat s
      else if d_type dat = ''loot'' then handleLootDrop dat s
      else (Inl (unknownDataType (d_type dat)), s))"

text \<open>Notifications are processed one at a time, each at the time the clock shows when its
  turn comes; an error of one does not stop the next (the message handler logs it).\<close>

definition process :: "state \<Rightarrow> int \<times> data \<Rightarrow> state" where
  "process s ev = snd (appendToSheet (snd ev) (s\<lparr>clock := fst ev\<rparr>))"

definition run :: "(int \<times> data) list \<Rightarrow> state \<Rightarrow> state" where
  "run evs s = foldl process s evs"

section \<open>Definitions used by the statements\<close>

text \<open>What the persistence gateway leaves alone: the registry, the orphan buffers, the
  world and the registered callbacks; the trace of calls only grows.\<close>

definition frame :: "state \<Rightarrow> state \<Rightarrow> bool" where
  "frame s s' =
     (recentRaids s' = recentRaids s \<and> durations s' = durations s \<and> loots s' = loots s
      \<and> world s' = world s \<and> scheduled s' = scheduled s
      \<and> prefix (calls s) (calls s'))"

text \<open>A registry of two raids, 100 s and 50 s old, the older one nearer in points to
  291200 than the newer one.\<close>

definition twoRaids :: state where
  "twoRaids =
     (init_state 1700000100000 (\<lambda>k. Failure \<lparr>code = Some 500, message = []\<rparr>))
       \<lparr>recentRaids :=
          [\<lparr>timestamp = 1700000000000, totalPoints = Some 291200, completionTime = Some [],
            scale = [], uniqueDrop = [], players = [], sheetRow = None, addedToSheet = False\<rparr>,
           \<lparr>timestamp = 1700000050000, totalPoints = Some 291600, completionTime = Some [],
            scale = [], uniqueDrop = [], players = [], sheetRow = None, addedToSheet = False\<rparr>]\<rparr>"

text \<open>What identifies a raid and what the score path may change of it: its timestamp, total
  points and players. The duration, the scale, the loot and the row are left out.\<close>

definition ident :: "raid \<Rightarrow> int \<times> int option \<times> player list" where
  "ident r = (timestamp r, totalPoints r, players r)"

text \<open>What a further score does to the players of a raid: its first participant is added
  at the end unless below the threshold, the raid is full, or the name is there.\<close>

definition joinPlayer :: "data \<Rightarrow> player list \<Rightarrow> player list" where
  "joinPlayer dat ps =
     (case d_players dat of
        [] \<Rightarrow> ps
      | p # _ \<Rightarrow>
          if points p < MIN_POINTS_THRESHOLD \<or> \<not> length ps < MAX_PLAYERS
             \<or> name p \<in> set (map name ps)
          then ps else ps @ [p])"

text \<open>The raid \<^verbatim>\<open>createRaidEntry\<close> builds from a score.\<close>

definition newRaid :: "data \<Rightarrow> raid" where
  "newRaid dat =
     \<lparr>timestamp = d_timestamp dat, totalPoints = d_totalPoints dat,
      completionTime = (if truthy (d_raidTime dat) then d_raidTime dat else Some []),
      scale = [], uniqueDrop = [],
      players = take MAX_PLAYERS (filter (\<lambda>p. MIN_POINTS_THRESHOLD \<le> points p) (d_players dat)),
      sheetRow = None, addedToSheet = False\<rparr>"

text \<open>The de-duplicated union of the specification, in arrival order: of several
  participants of one name the first is kept.\<close>

fun dedupByName :: "player list \<Rightarrow> player list" where
  "dedupByName [] = []"
| "dedupByName (p # ps) = p # dedupByName (filter (\<lambda>q. name q \<noteq> name p) ps)"

text \<open>Notifications as the parser builds them.\<close>

definition score :: "int \<Rightarrow> int \<Rightarrow> string \<Rightarrow> int \<Rightarrow> data" where
  "score ts tot nm pts =
     \<lparr>d_type = ''points'', d_timestamp = ts, d_totalPoints = Some tot, d_raidTime = None,
      d_players = [\<lparr>name = nm, points = pts\<rparr>], d_scale = None, d_playerName = None,
      d_itemName = []\<rparr>"

definition duration :: "int \<Rightarrow> string \<Rightarrow> string option \<Rightarrow> data" where
  "duration ts raidTime sc =
     \<lparr>d_type = ''duration'', d_timestamp = ts, d_totalPoints = None, d_raidTime = Some raidTime,
      d_players = [], d_scale = sc, d_playerName = None, d_itemName = []\<rparr>"

definition loot :: "int \<Rightarrow> string \<Rightarrow> string \<Rightarrow> data" where
  "loot ts player item =
     \<lparr>d_type = ''loot'', d_timestamp = ts, d_totalPoints = None, d_raidTime = None,
      d_players = [], d_scale = None, d_playerName = Some player, d_itemName = item\<rparr>"

text \<open>A store that answers every call with a server error, and one that always succeeds
  (the sheet exists, the appended row is row 2).\<close>

definition storeDown :: "nat \<Rightarrow> api_result" where
  "storeDown k = Failure \<lparr>code = Some 500, message = ''Internal error''\<rparr>"

definition storeUp :: "nat \<Rightarrow> api_result" where
  "storeUp k = Success \<lparr>hasRaidsSheet = True, updatedRow = Some 2\<rparr>"

text \<open>The score path takes its last branch and calls \<^verbatim>\<open>createRaidEntry\<close>: a score that is
  not stale, with no raid matching its total points and no placeholder raid.\<close>

definition createsRaid :: "data \<Rightarrow> state \<Rightarrow> bool" where
  "createsRaid dat s =
     (d_type dat = ''points'' \<and> \<not> clock s - d_timestamp dat > MAX_DATA_AGE
      \<and> findRaidByTotalPoints (d_totalPoints dat) s = None
      \<and> findRaidByTotalPoints None s = None)"

text \<open>The number of raids the registry loses from its front while one notification is
  handled, and while a run of notifications is.\<close>

definition evictedBy :: "data \<Rightarrow> state \<Rightarrow> nat" where
  "evictedBy dat s =
     length (recentRaids s) + (if createsRaid dat s then 1 else 0)
       - length (recentRaids (snd (appendToSheet dat s)))"

fun evicted :: "(int \<times> data) list \<Rightarrow> state \<Rightarrow> nat" where
  "evicted [] s = 0"
| "evicted (ev # evs) s =
     evictedBy (snd ev) (s\<lparr>clock := fst ev\<rparr>) + evicted evs (process s ev)"

text \<open>A registry of ten raids within the last 100 s, the oldest of them written to the
  sheet.\<close>

definition storedRaid :: "int \<Rightarrow> bool \<Rightarrow> raid" where
  "storedRaid ts added =
     \<lparr>timestamp = ts, totalPoints = Some 250000, completionTime = Some [], scale = [],
      uniqueDrop = [], players = [], sheetRow = (if added then Some 2 else None),
      addedToSheet = added\<rparr>"

definition fullRegistry :: state where
  "fullRegistry =
     (init_state 1700000100000 storeUp)
       \<lparr>recentRaids := storedRaid 1700000000000 True # replicate 9 (storedRaid 1700000050000 False)\<rparr>"

text \<open>A store that rejects every call as unauthenticated, and a module whose client has
  been created (as the start-up code does).\<close>

definition authDown :: "nat \<Rightarrow> api_result" where
  "authDown k = Failure \<lparr>code = Some 401, message = ''Invalid credentials''\<rparr>"

definition connected :: "(nat \<Rightarrow> api_result) \<Rightarrow> state" where
  "connected w = (init_state 1700000000000 w)\<lparr>sheetsClient := True\<rparr>"

text \<open>A module with its client, a store that answers every call with a server error, and
  one raid in the registry, written to row 2 of the sheet, with no duration yet.\<close>

definition storedOnly :: state where
  "storedOnly = (connected storeDown)\<lparr>recentRaids := [storedRaid 1700000000000 True]\<rparr>"

text \<open>The buffer without the duration orphans stamped \<open>t\<close> or earlier.\<close>

definition forgetDurations :: "int \<Rightarrow> state \<Rightarrow> state" where
  "forgetDurations t s = s\<lparr>durations := filter (\<lambda>orphan. t < do_timestamp orphan) (durations s)\<rparr>"

text \<open>A state whose buffer holds one duration orphan stamped 10001 ms ago.\<close>

definition staleOrphan :: state where
  "staleOrphan =
     (init_state 1700000010001 storeUp)
       \<lparr>durations := [\<lparr>do_timestamp = 1700000000000, do_raidTime = Some ''46:43.80'',
                       do_scale = Some ''11-15'', do_playerName = None\<rparr>]\<rparr>"

text \<open>The store answers no call with an error.\<close>

definition storeNeverFails :: "state \<Rightarrow> bool" where
  "storeNeverFails s = (\<forall>k e. world s k \<noteq> Failure e)"

text \<open>A state whose buffer holds the duration of a raid of team size 8-10, received one
  second ago.\<close>

definition smallTeam :: state where
  "smallTeam =
     (init_state 1700000001000 storeUp)
       \<lparr>durations := [\<lparr>do_timestamp = 1700000000000, do_raidTime = Some ''31:02.40'',
                       do_scale = Some ''8-10'', do_playerName = None\<rparr>]\<rparr>"

section \<open>The gateway leaves the registry and the buffers alone\<close>

lemma frame_refl: "frame s s"
  by (simp add: frame_def)

lemma frame_trans: "frame s s1 \<Longrightarrow> frame s1 s2 \<Longrightarrow> frame s s2"
  unfolding frame_def using prefix_order.trans by auto

lemma frame_api: "frame s (snd (api c s))"
  by (simp add: frame_def api_def)

lemma frame_sleep: "frame s (sleep ms s)"
  by (simp add: frame_def sleep_def)

lemma frame_awaitCooldown: "frame s (awaitCooldown s)"
  by (simp add: awaitCooldown_def frame_sleep frame_refl)

lemma frame_initializeSheetsClient: "frame s (snd (initializeSheetsClient s))"
  by (simp add: initializeSheetsClient_def api_def frame_def split: api_result.splits)

lemma frame_addHeaders: "frame s (addHeaders s)"
  by (simp add: addHeaders_def api_def frame_def split: api_result.splits)

lemma frame_ensureSheetsExist: "frame s (snd (ensureSheetsExist s))"
  by (simp add: ensureSheetsExist_def initializeSheetsClient_def addHeaders_def api_def frame_def
      split: api_result.splits)

lemma frame_ensureClient: "frame s (snd (ensureClient s))"
proof (cases "sheetsClient s")
  case True
  then show ?thesis by (simp add: ensureClient_def frame_refl)
next
  case False
  obtain x s1 where i: "initializeSheetsClient s = (x, s1)" by (cases "initializeSheetsClient s")
  have f1: "frame s s1" using frame_initializeSheetsClient [of s] i by simp
  show ?thesis
  proof (cases x)
    case (Inl e)
    then show ?thesis using False i f1 by (simp add: ensureClient_def)
  next
    case (Inr u)
    have "frame s1 (snd (ensureSheetsExist s1))" by (rule frame_ensureSheetsExist)
    then show ?thesis using False i f1 Inr by (simp add: ensureClient_def frame_trans)
  qed
qed

lemma frame_appendRow_try: "frame s (snd (appendRow_try r s))"
proof -
  obtain x s1 where e: "ensureClient (awaitCooldown s) = (x, s1)"
    by (cases "ensureClient (awaitCooldown s)")
  have f1: "frame s s1"
    using frame_trans [OF frame_awaitCooldown frame_ensureClient, of s] e by simp
  show ?thesis
  proof (cases x)
    case (Inl err)
    then show ?thesis using e f1 by (simp add: appendRow_try_def)
  next
    case (Inr u)
    have "frame s1 (snd (api (ValuesAppend r) s1))" by (rule frame_api)
    then have "frame s (snd (api (ValuesAppend r) s1))" using f1 frame_trans by blast
    then show ?thesis using e Inr
      by (auto simp: appendRow_try_def split: prod.splits api_result.splits)
  qed
qed

lemma frame_updateRow_try: "frame s (snd (updateRow_try n r s))"
proof -
  obtain x s1 where e: "ensureClient (awaitCooldown s) = (x, s1)"
    by (cases "ensureClient (awaitCooldown s)")
  have f1: "frame s s1"
    using frame_trans [OF frame_awaitCooldown frame_ensureClient, of s] e by simp
  show ?thesis
  proof (cases x)
    case (Inl err)
    then show ?thesis using e f1 by (simp add: updateRow_try_def)
  next
    case (Inr u)
    have "frame s1 (snd (api (ValuesUpdate n r) s1))" by (rule frame_api)
    then have "frame s (snd (api (ValuesUpdate n r) s1))" using f1 frame_trans by blast
    then show ?thesis using e Inr
      by (auto simp: updateRow_try_def split: prod.splits api_result.splits)
  qed
qed

lemma frame_appendRow: "frame s (snd (appendRow r n s))"
proof (induction r n s rule: appendRow.induct)
  case (1 r retryCount s)
  obtain x s1 where t: "appendRow_try r s = (x, s1)" by (cases "appendRow_try r s")
  have f1: "frame s s1" using frame_appendRow_try [of s r] t by simp
  show ?case
  proof (cases x)
    case (Inr resp)
    then show ?thesis using t f1 by (simp add: appendRow.simps)
  next
    case (Inl e)
    let ?s2 = "s1\<lparr>lastRateLimitError := clock s1\<rparr>"
    let ?s3 = "s1\<lparr>sheetsClient := False\<rparr>"
    have f2: "frame s (sleep (RETRY_DELAY * 2 ^ retryCount) ?s2)"
      using f1 by (simp add: frame_def sleep_def)
    have f3: "frame s (sleep RETRY_DELAY ?s3)"
      using f1 by (simp add: frame_def sleep_def)
    have f2': "frame s ?s2" and f3': "frame s ?s3" using f1 by (simp_all add: frame_def)
    show ?thesis
    proof (cases "isRateLimit e")
      case True
      show ?thesis
      proof (cases "retryCount < MAX_RETRIES")
        case lt: True
        have "frame (sleep (RETRY_DELAY * 2 ^ retryCount) ?s2)
               (snd (appendRow r (Suc retryCount) (sleep (RETRY_DELAY * 2 ^ retryCount) ?s2)))"
          using "1.IH"(1) [OF t [symmetric] Inl True refl lt] .
        then show ?thesis using t Inl True lt f2
          by (subst appendRow.simps) (simp add: Let_def frame_trans [OF f2])
      next
        case False
        then show ?thesis using t Inl True f2'
          by (subst appendRow.simps) (simp add: Let_def)
      qed
    next
      case nr: False
      show ?thesis
      proof (cases "isAuthError e")
        case True
        show ?thesis
        proof (cases "retryCount < MAX_RETRIES")
          case lt: True
          have "frame (sleep RETRY_DELAY ?s3) (snd (appendRow r (Suc retryCount) (sleep RETRY_DELAY ?s3)))"
            using "1.IH"(2) [OF t [symmetric] Inl nr True refl lt] .
          then show ?thesis using t Inl nr True lt
            by (subst appendRow.simps) (simp add: Let_def frame_trans [OF f3])
        next
          case False
          then show ?thesis using t Inl nr True f3'
            by (subst appendRow.simps) (simp add: Let_def)
        qed
      next
        case False
        then show ?thesis using t Inl nr f1
          by (subst appendRow.simps) (simp add: Let_def)
      qed
    qed
  qed
qed

section \<open>Lookup by total points\<close>

lemma scanBack_None: "scanBack P rs n = None \<longleftrightarrow> (\<forall>j<n. \<not> P (rs ! j))"
  by (induction n) (auto simp: less_Suc_eq)

lemma scanBack_Some:
  "scanBack P rs n = Some i \<longleftrightarrow>
     i < n \<and> P (rs ! i) \<and> (\<forall>j. i < j \<and> j < n \<longrightarrow> \<not> P (rs ! j))"
proof (induction n)
  case 0
  then show ?case by simp
next
  case (Suc n)
  show ?case
  proof (cases "P (rs ! n)")
    case True
    have "i = n \<longleftrightarrow> i < Suc n \<and> P (rs ! i) \<and> (\<forall>j. i < j \<and> j < Suc n \<longrightarrow> \<not> P (rs ! j))"
      using True by (metis less_Suc_eq less_irrefl_nat not_less_eq)
    then show ?thesis using True by auto
  next
    case False
    have "(i < n \<and> P (rs ! i) \<and> (\<forall>j. i < j \<and> j < n \<longrightarrow> \<not> P (rs ! j)))
          \<longleftrightarrow> (i < Suc n \<and> P (rs ! i) \<and> (\<forall>j. i < j \<and> j < Suc n \<longrightarrow> \<not> P (rs ! j)))"
      using False by (metis less_Suc_eq)
    then show ?thesis using False Suc by simp
  qed
qed

text \<open>
  C4. \<^verbatim>\<open>findRaidByTotalPoints(points)\<close> scans most recent first and returns the first raid
  that qualifies, not the nearest in points: for a non-null \<open>points\<close> the result is the
  raid of highest position with \<open>|raid.totalPoints - points| \<le> 500\<close> and
  \<open>now - raid.timestamp \<le> 120 s\<close>, and no raid when none qualifies; for \<^verbatim>\<open>null\<close> it is
  the raid of highest position with \<open>totalPoints = null\<close> inside the same window. The
  subtraction reads a raid's total points as a number (the last conjunct: a non-null
  value is read as itself).
\<close>

theorem findRaidByTotalPoints_most_recent_match:
  "(findRaidByTotalPoints (Some p) s = Some i \<longleftrightarrow>
      i < length (recentRaids s)
      \<and> \<bar>toNumber (totalPoints (recentRaids s ! i)) - p\<bar> \<le> 500
      \<and> clock s - timestamp (recentRaids s ! i) \<le> 120000
      \<and> (\<forall>j. i < j \<and> j < length (recentRaids s) \<longrightarrow>
             \<not> (\<bar>toNumber (totalPoints (recentRaids s ! j)) - p\<bar> \<le> 500
                \<and> clock s - timestamp (recentRaids s ! j) \<le> 120000)))
   \<and> (findRaidByTotalPoints (Some p) s = None \<longleftrightarrow>
      (\<forall>j < length (recentRaids s).
             \<not> (\<bar>toNumber (totalPoints (recentRaids s ! j)) - p\<bar> \<le> 500
                \<and> clock s - timestamp (recentRaids s ! j) \<le> 120000)))
   \<and> (findRaidByTotalPoints None s = Some i \<longleftrightarrow>
      i < length (recentRaids s)
      \<and> totalPoints (recentRaids s ! i) = None
      \<and> clock s - timestamp (recentRaids s ! i) \<le> 120000
      \<and> (\<forall>j. i < j \<and> j < length (recentRaids s) \<longrightarrow>
             \<not> (totalPoints (recentRaids s ! j) = None
                \<and> clock s - timestamp (recentRaids s ! j) \<le> 120000)))
   \<and> (findRaidByTotalPoints None s = None \<longleftrightarrow>
      (\<forall>j < length (recentRaids s).
             \<not> (totalPoints (recentRaids s ! j) = None
                \<and> clock s - timestamp (recentRaids s ! j) \<le> 120000)))
   \<and> (\<forall>v. totalPoints (recentRaids s ! i) = Some v \<longrightarrow>
          toNumber (totalPoints (recentRaids s ! i)) = v)"
  unfolding findRaidByTotalPoints_def scanBack_Some scanBack_None
  by (simp add: pointsMatch_def TIME_WINDOW_def POINTS_TOLERANCE_def toNumber_def)

theorem findRaidByTotalPoints_most_recent_match_witness:
  "findRaidByTotalPoints (Some 291200) twoRaids = Some 1"
proof -
  have "1 < length (recentRaids twoRaids)
      \<and> \<bar>toNumber (totalPoints (recentRaids twoRaids ! 1)) - 291200\<bar> \<le> 500
      \<and> clock twoRaids - timestamp (recentRaids twoRaids ! 1) \<le> 120000
      \<and> (\<forall>j. 1 < j \<and> j < length (recentRaids twoRaids) \<longrightarrow>
             \<not> (\<bar>toNumber (totalPoints (recentRaids twoRaids ! j)) - 291200\<bar> \<le> 500
                \<and> clock twoRaids - timestamp (recentRaids twoRaids ! j) \<le> 120000))"
    by (simp add: twoRaids_def init_state_def toNumber_def)
  then show ?thesis
    using findRaidByTotalPoints_most_recent_match [of 291200 twoRaids 1] by blast
qed

section \<open>What the handlers do to the registry\<close>

lemma ident_simps [simp]:
  "ident (r\<lparr>sheetRow := x\<rparr>) = ident r"
  "ident (r\<lparr>addedToSheet := y\<rparr>) = ident r"
  "ident (r\<lparr>completionTime := c\<rparr>) = ident r"
  "ident (r\<lparr>scale := sc\<rparr>) = ident r"
  "ident (r\<lparr>uniqueDrop := u\<rparr>) = ident r"
  by (simp_all add: ident_def)

lemma ident_setScale [simp]: "ident (setScale sc r) = ident r"
  by (simp add: setScale_def split: option.splits)

lemma ident_addLoot [simp]: "ident (addLoot m r) = ident r"
  by (simp add: addLoot_def)

lemma ident_foldl_addLoot:
  "ident (foldl (\<lambda>ra (i, lootOrphan, timeDiff).
            addLoot (lootMessage (lo_playerName lootOrphan) (lo_itemName lootOrphan)) ra) r ms)
   = ident r"
  by (induction ms arbitrary: r) (auto split: prod.splits)

lemma map_ident_update:
  "i < length rs \<Longrightarrow> ident r = ident (rs ! i) \<Longrightarrow> map ident (rs[i := r]) = map ident rs"
  by (simp add: map_update list_update_same_conv)

lemma frame_updateRow: "frame s (snd (updateRow n r k s))"
proof (induction n r k s rule: updateRow.induct)
  case (1 rowNumber r retryCount s)
  obtain x s1 where t: "updateRow_try rowNumber r s = (x, s1)"
    by (cases "updateRow_try rowNumber r s")
  have f1: "frame s s1" using frame_updateRow_try [of s rowNumber r] t by simp
  show ?case
  proof (cases x)
    case (Inr u)
    then show ?thesis using t f1 by (simp add: updateRow.simps)
  next
    case (Inl e)
    let ?s2 = "s1\<lparr>lastRateLimitError := clock s1\<rparr>"
    have f2: "frame s (sleep (RETRY_DELAY * 2 ^ retryCount) ?s2)"
      using f1 by (simp add: frame_def sleep_def)
    have f2': "frame s ?s2" using f1 by (simp add: frame_def)
    show ?thesis
    proof (cases "isRateLimit e")
      case True
      show ?thesis
      proof (cases "retryCount < MAX_RETRIES")
        case lt: True
        have "frame (sleep (RETRY_DELAY * 2 ^ retryCount) ?s2)
               (snd (updateRow rowNumber r (Suc retryCount)
                       (sleep (RETRY_DELAY * 2 ^ retryCount) ?s2)))"
          using "1.IH" [OF t [symmetric] Inl True refl lt] .
        then show ?thesis using t Inl True lt
          by (subst updateRow.simps) (simp add: Let_def frame_trans [OF f2])
      next
        case False
        then show ?thesis using t Inl True f2'
          by (subst updateRow.simps) (simp add: Let_def)
      qed
    next
      case False
      then show ?thesis using t Inl f1
        by (subst updateRow.simps) (simp add: Let_def)
    qed
  qed
qed

lemma recentRaids_updateRow [simp]: "recentRaids (snd (updateRow n r k s)) = recentRaids s"
  using frame_updateRow [of s n r k] by (simp add: frame_def)

lemma recentRaids_appendRow [simp]: "recentRaids (snd (appendRow r k s)) = recentRaids s"
  using frame_appendRow [of s r k] by (simp add: frame_def)

lemma recentRaids_cleanOrphans [simp]: "recentRaids (cleanOrphans s) = recentRaids s"
  by (simp add: cleanOrphans_def Let_def)

lemma persistRaid_registry:
  "recentRaids (snd (persistRaid ref r s)) = recentRaids s
   \<or> (\<exists>i n. ref = Some i
          \<and> recentRaids (snd (persistRaid ref r s))
              = (recentRaids s)[i := r\<lparr>sheetRow := Some n, addedToSheet := True\<rparr>])"
proof (cases "isScaleLargeEnough (scale r)")
  case False
  then show ?thesis by (simp add: persistRaid_def)
next
  case gate: True
  show ?thesis
  proof (cases "totalPoints r \<noteq> None \<and> \<not> addedToSheet r")
    case True
    obtain x s1 where a: "appendRow (raidToRow r) 0 s = (x, s1)"
      by (cases "appendRow (raidToRow r) 0 s")
    have a': "recentRaids s1 = recentRaids s"
      using recentRaids_appendRow [of "raidToRow r" 0 s] a by simp
    show ?thesis
    proof (cases x)
      case (Inl e)
      then show ?thesis using gate True a a' by (simp add: persistRaid_def)
    next
      case (Inr resp)
      show ?thesis
      proof (cases "updatedRow resp")
        case None
        then show ?thesis using gate True a a' Inr by (simp add: persistRaid_def)
      next
        case (Some n)
        then show ?thesis using gate True a a' Inr
          by (cases ref) (auto simp: persistRaid_def writeRaid_def putRaid_def Let_def)
      qed
    qed
  next
    case False
    show ?thesis
    proof (cases "persistedRow r")
      case None
      then show ?thesis using gate False by (auto simp: persistRaid_def)
    next
      case (Some n)
      obtain y s2 where u: "updateRow n (raidToRow r) 0 s = (y, s2)"
        by (cases "updateRow n (raidToRow r) 0 s")
      have u': "recentRaids s2 = recentRaids s"
        using recentRaids_updateRow [of n "raidToRow r" 0 s] u by simp
      show ?thesis using gate False Some u u'
        by (cases y) (auto simp: persistRaid_def)
    qed
  qed
qed

lemma persistRaid_ident:
  assumes "\<And>i. ref = Some i \<Longrightarrow> i < length (recentRaids s) \<and> ident (recentRaids s ! i) = ident r"
  shows "map ident (recentRaids (snd (persistRaid ref r s))) = map ident (recentRaids s)"
  using persistRaid_registry [of ref r s] assms
  by (auto simp: map_ident_update)

lemma handleDurationUpdate_ident:
  "map ident (recentRaids (snd (handleDurationUpdate dat s))) = map ident (recentRaids s)"
  unfolding handleDurationUpdate_def
  by (auto simp: Let_def putRaid_def scanBack_Some map_ident_update split: option.splits)

lemma handleLootDrop_ident:
  "map ident (recentRaids (snd (handleLootDrop dat s))) = map ident (recentRaids s)"
proof -
  have "\<And>i. findRaidForLoot dat (cleanOrphans s) = Some i \<Longrightarrow> i < length (recentRaids s)"
    by (auto simp: findRaidForLoot_def scanBack_Some split: option.splits)
  then show ?thesis
    unfolding handleLootDrop_def
    by (auto simp: Let_def putRaid_def map_ident_update split: option.splits)
qed

lemma mergeOrphansWithRaid_effect:
  assumes "mergeOrphansWithRaid r s = (m, r', s')"
  shows "ident r' = ident r \<and> sheetRow r' = sheetRow r \<and> addedToSheet r' = addedToSheet r
         \<and> s'\<lparr>durations := durations s, loots := loots s\<rparr> = s"
proof -
  define p1 where "p1 =
    (if \<not> truthy (completionTime r) \<and> durations s \<noteq> [] then
       (case closestDuration (timestamp r) (durations s) 0 None of
          None \<Rightarrow> (False, r, s)
        | Some (closestIndex, _) \<Rightarrow>
            (True, setScale (do_scale (durations s ! closestIndex))
                     (r\<lparr>completionTime := do_raidTime (durations s ! closestIndex)\<rparr>),
             s\<lparr>durations := splice1 closestIndex (durations s)\<rparr>))
     else (False, r, s))"
  obtain m1 r1 s1 where p1: "p1 = (m1, r1, s1)" by (cases p1) auto
  have k1: "ident r1 = ident r \<and> sheetRow r1 = sheetRow r \<and> addedToSheet r1 = addedToSheet r
            \<and> s1\<lparr>durations := durations s\<rparr> = s"
    using p1 unfolding p1_def
    by (auto simp: setScale_def split: if_splits option.splits prod.splits)
  have fold_keep: "\<And>ms ra. sheetRow (foldl (\<lambda>ra (i, lootOrphan, timeDiff).
            addLoot (lootMessage (lo_playerName lootOrphan) (lo_itemName lootOrphan)) ra) ra ms)
           = sheetRow ra
         \<and> addedToSheet (foldl (\<lambda>ra (i, lootOrphan, timeDiff).
            addLoot (lootMessage (lo_playerName lootOrphan) (lo_itemName lootOrphan)) ra) ra ms)
           = addedToSheet ra"
  proof -
    fix ms ra
    show "sheetRow (foldl (\<lambda>ra (i, lootOrphan, timeDiff).
            addLoot (lootMessage (lo_playerName lootOrphan) (lo_itemName lootOrphan)) ra) ra ms)
           = sheetRow ra
         \<and> addedToSheet (foldl (\<lambda>ra (i, lootOrphan, timeDiff).
            addLoot (lootMessage (lo_playerName lootOrphan) (lo_itemName lootOrphan)) ra) ra ms)
           = addedToSheet ra"
      by (induction ms arbitrary: ra) (auto simp: addLoot_def split: prod.splits)
  qed
  have m: "mergeOrphansWithRaid r s =
      (if loots s1 \<noteq> [] then
          (let matchingOrphans =
                 sort_key (\<lambda>(i, orphan, timeDiff). timeDiff)
                   (matchingLoots (timestamp r) (loots s1) (length (loots s1)))
           in if matchingOrphans \<noteq> [] then
                (let r2 = foldl (\<lambda>ra (i, lootOrphan, timeDiff).
                                   addLoot (lootMessage (lo_playerName lootOrphan)
                                              (lo_itemName lootOrphan)) ra)
                                r1 matchingOrphans;
                     indicesToRemove = rev (sort (map fst matchingOrphans))
                 in (True, r2,
                     s1\<lparr>loots := foldl (\<lambda>ls idx. splice1 idx ls) (loots s1) indicesToRemove\<rparr>))
              else (m1, r1, s1))
        else (m1, r1, s1))"
    unfolding mergeOrphansWithRaid_def Let_def using p1 [unfolded p1_def]
    by (simp add: Let_def)
  have k1s: "s1\<lparr>durations := durations s\<rparr> = s" using k1 by simp
  have s1: "s1\<lparr>durations := durations s, loots := loots s\<rparr> = s"
    using k1s by simp
  show ?thesis
    using assms [unfolded m] k1 fold_keep s1
    by (auto simp: Let_def ident_foldl_addLoot split: if_splits)
qed

lemma evictOld_drop:
  "\<exists>k\<le>length xs. evictOld c xs = drop k xs \<and> (\<forall>j<k. timestamp (xs ! j) < c)
      \<and> (k < length xs \<longrightarrow> c \<le> timestamp (xs ! k))"
proof (induction xs)
  case Nil
  then show ?case by simp
next
  case (Cons x xs)
  show ?case
  proof (cases "timestamp x < c")
    case True
    from Cons obtain k where k: "k \<le> length xs" "evictOld c xs = drop k xs"
      "\<forall>j<k. timestamp (xs ! j) < c" "k < length xs \<longrightarrow> c \<le> timestamp (xs ! k)" by blast
    have "\<forall>j<Suc k. timestamp ((x # xs) ! j) < c"
      using True k(3) by (auto simp: nth_Cons split: nat.splits)
    then show ?thesis using True k by (intro exI [of _ "Suc k"]) simp
  next
    case False
    then show ?thesis by (intro exI [of _ 0]) simp
  qed
qed

lemma findRaidByTotalPoints_cleanOrphans [simp]:
  "findRaidByTotalPoints tp (cleanOrphans s) = findRaidByTotalPoints tp s"
  by (simp add: findRaidByTotalPoints_def cleanOrphans_def Let_def)

lemma findRaidByTotalPoints_less:
  "findRaidByTotalPoints tp s = Some i \<Longrightarrow> i < length (recentRaids s)"
  by (simp add: findRaidByTotalPoints_def scanBack_Some)

lemma createRaidEntry_shape:
  assumes "createRaidEntry dat s = (r, s')"
  shows "r = newRaid dat \<and> s'\<lparr>recentRaids := recentRaids s\<rparr> = s
     \<and> (\<exists>k \<le> Suc (length (recentRaids s)).
           recentRaids s' = drop k (recentRaids s @ [r])
         \<and> (MAX_RAID_HISTORY \<le> length (recentRaids s) \<longrightarrow> 0 < k)
         \<and> (\<forall>j. (if MAX_RAID_HISTORY \<le> length (recentRaids s) then 1 else 0) \<le> j \<and> j < k
                 \<longrightarrow> timestamp ((recentRaids s @ [r]) ! j) < clock s - RAID_TIMEOUT)
         \<and> (k < Suc (length (recentRaids s))
                 \<longrightarrow> clock s - RAID_TIMEOUT \<le> timestamp ((recentRaids s @ [r]) ! k)))"
proof -
  let ?L = "recentRaids s @ [newRaid dat]"
  let ?c = "clock s - RAID_TIMEOUT"
  have r: "r = newRaid dat" and s': "s' = s\<lparr>recentRaids :=
      evictOld ?c (if MAX_RAID_HISTORY < length ?L then tl ?L else ?L)\<rparr>"
    using assms by (auto simp: createRaidEntry_def newRaid_def Let_def)
  show ?thesis
  proof (cases "MAX_RAID_HISTORY \<le> length (recentRaids s)")
    case True
    then have cap: "MAX_RAID_HISTORY < length ?L" by simp
    obtain k where k: "k \<le> length (tl ?L)" "evictOld ?c (tl ?L) = drop k (tl ?L)"
       "\<forall>j<k. timestamp (tl ?L ! j) < ?c" "k < length (tl ?L) \<longrightarrow> ?c \<le> timestamp (tl ?L ! k)"
      using evictOld_drop [of "tl ?L" ?c] by blast
    have nth: "\<And>j. j < length (tl ?L) \<Longrightarrow> tl ?L ! j = ?L ! Suc j"
      by (simp add: nth_tl)
    have "recentRaids s' = drop k (tl ?L)"
      using s' cap k(2) by (simp del: drop_append)
    then have a: "recentRaids s' = drop (Suc k) ?L"
      by (simp only: drop_Suc)
    have b: "\<forall>j. 1 \<le> j \<and> j < Suc k \<longrightarrow> timestamp (?L ! j) < ?c"
    proof (intro allI impI)
      fix j assume "1 \<le> j \<and> j < Suc k"
      then obtain j' where j': "j = Suc j'" "j' < k" by (cases j) auto
      then have "timestamp (tl ?L ! j') < ?c" using k(3) by blast
      then show "timestamp (?L ! j) < ?c" using nth [of j'] j' k(1) by simp
    qed
    have c: "Suc k < Suc (length (recentRaids s)) \<longrightarrow> ?c \<le> timestamp (?L ! Suc k)"
      using k(4) nth [of k] by simp
    show ?thesis using r s' True a b c k(1)
      by (intro conjI exI [of _ "Suc k"]) simp_all
  next
    case False
    then have cap: "\<not> MAX_RAID_HISTORY < length ?L" by simp
    obtain k where k: "k \<le> length ?L" "evictOld ?c ?L = drop k ?L"
       "\<forall>j<k. timestamp (?L ! j) < ?c" "k < length ?L \<longrightarrow> ?c \<le> timestamp (?L ! k)"
      using evictOld_drop [of ?L ?c] by blast
    show ?thesis using r s' False cap k
      by (intro conjI exI [of _ k]) simp_all
  qed
qed

lemma createAndMerge_shape:
  assumes "createAndMerge dat s = (ref, r', s2)"
  shows "ident r' = ident (newRaid dat) \<and> sheetRow r' = None \<and> \<not> addedToSheet r'
     \<and> s2\<lparr>recentRaids := recentRaids s, durations := durations s, loots := loots s\<rparr> = s
     \<and> (\<exists>k \<le> Suc (length (recentRaids s)).
           recentRaids s2 = drop k (recentRaids s @ [r'])
         \<and> ref = (if k \<le> length (recentRaids s) then Some (length (recentRaids s) - k) else None)
         \<and> (MAX_RAID_HISTORY \<le> length (recentRaids s) \<longrightarrow> 0 < k)
         \<and> (clock s - RAID_TIMEOUT \<le> d_timestamp dat \<longrightarrow> k \<le> length (recentRaids s)))"
proof -
  obtain r s1 where c: "createRaidEntry dat s = (r, s1)" by (cases "createRaidEntry dat s")
  obtain m rm sm where m: "mergeOrphansWithRaid r s1 = (m, rm, sm)"
    by (cases "mergeOrphansWithRaid r s1") auto
  note cs = createRaidEntry_shape [OF c]
  note ms = mergeOrphansWithRaid_effect [OF m]
  have r: "r = newRaid dat" using cs by simp
  have s1: "s1\<lparr>recentRaids := recentRaids s\<rparr> = s" using cs by simp
  have sm: "sm\<lparr>durations := durations s1, loots := loots s1\<rparr> = s1" using ms by simp
  have rsm: "recentRaids sm = recentRaids s1"
    using arg_cong [OF sm, of recentRaids] by simp
  have d1: "durations s1 = durations s" "loots s1 = loots s"
    using arg_cong [OF s1, of durations] arg_cong [OF s1, of loots] by simp_all
  have whole: "sm\<lparr>recentRaids := recentRaids s, durations := durations s, loots := loots s\<rparr> = s"
  proof -
    have "sm\<lparr>recentRaids := recentRaids s, durations := durations s, loots := loots s\<rparr>
        = (sm\<lparr>durations := durations s1, loots := loots s1\<rparr>)\<lparr>recentRaids := recentRaids s\<rparr>"
      by (simp add: d1)
    then show ?thesis using sm s1 by simp
  qed
  obtain k where k: "k \<le> Suc (length (recentRaids s))"
      "recentRaids s1 = drop k (recentRaids s @ [r])"
      "MAX_RAID_HISTORY \<le> length (recentRaids s) \<longrightarrow> 0 < k"
      "\<forall>j. (if MAX_RAID_HISTORY \<le> length (recentRaids s) then 1 else 0) \<le> j \<and> j < k
                 \<longrightarrow> timestamp ((recentRaids s @ [r]) ! j) < clock s - RAID_TIMEOUT"
    using cs by blast
  have fresh: "clock s - RAID_TIMEOUT \<le> d_timestamp dat \<longrightarrow> k \<le> length (recentRaids s)"
  proof (rule impI, rule ccontr)
    assume f: "clock s - RAID_TIMEOUT \<le> d_timestamp dat" and "\<not> k \<le> length (recentRaids s)"
    then have "length (recentRaids s) < k" by simp
    moreover have "(if MAX_RAID_HISTORY \<le> length (recentRaids s) then 1 else 0)
                     \<le> length (recentRaids s)"
      by (simp add: MAX_RAID_HISTORY_def)
    ultimately have "timestamp ((recentRaids s @ [r]) ! length (recentRaids s))
                       < clock s - RAID_TIMEOUT"
      using k(4) by blast
    then show False using f r by (simp add: newRaid_def)
  qed
  have rm: "ident rm = ident (newRaid dat)" "sheetRow rm = None" "\<not> addedToSheet rm"
    using ms r by (simp_all add: newRaid_def)
  have res: "(ref, r', s2) =
      (if recentRaids sm = [] then (None, rm, sm)
       else (Some (length (recentRaids sm) - 1), rm, putRaid (length (recentRaids sm) - 1) rm sm))"
    using assms c m by (auto simp: createAndMerge_def Let_def split: if_splits)
  show ?thesis
  proof (cases "k \<le> length (recentRaids s)")
    case True
    have dk: "recentRaids sm = drop k (recentRaids s) @ [r]"
      using k(2) rsm True by simp
    have upd: "(drop k (recentRaids s) @ [r])[length (recentRaids s) - k := rm]
               = drop k (recentRaids s) @ [rm]"
      using list_update_length [of "drop k (recentRaids s)" r "[]" rm] by simp
    have "r' = rm" "ref = Some (length (recentRaids s) - k)"
        "s2 = putRaid (length (recentRaids s) - k) rm sm"
      using res dk by simp_all
    moreover have "recentRaids (putRaid (length (recentRaids s) - k) rm sm)
        = drop k (recentRaids s @ [rm])"
      using dk upd True by (simp add: putRaid_def)
    moreover have "putRaid (length (recentRaids s) - k) rm sm
         \<lparr>recentRaids := recentRaids s, durations := durations s, loots := loots s\<rparr> = s"
      using whole by (simp add: putRaid_def)
    ultimately show ?thesis using rm True k(1,3) fresh
      by (intro conjI exI [of _ k]) simp_all
  next
    case False
    then have "recentRaids sm = []" using k(1,2) rsm by simp
    then have "r' = rm" "ref = None" "s2 = sm" using res by simp_all
    then show ?thesis using rm whole False k(1,2,3) rsm fresh
      by (intro conjI exI [of _ k]) simp_all
  qed
qed

lemma addToExistingRaid_registry:
  assumes "i < length (recentRaids s)"
  shows "\<exists>r'. recentRaids (snd (addToExistingRaid dat i s)) = (recentRaids s)[i := r']
     \<and> ident r' = (timestamp (recentRaids s ! i),
                    (if totalPoints (recentRaids s ! i) = None then d_totalPoints dat
                     else totalPoints (recentRaids s ! i)),
                    joinPlayer dat (players (recentRaids s ! i)))"
proof -
  define r where "r = (if totalPoints (recentRaids s ! i) = None
                        then (recentRaids s ! i)\<lparr>totalPoints := d_totalPoints dat\<rparr>
                        else recentRaids s ! i)"
  have pr: "players r = players (recentRaids s ! i)" by (simp add: r_def)
  have ir: "\<And>ps. ident (r\<lparr>players := ps\<rparr>) = (timestamp (recentRaids s ! i),
                    (if totalPoints (recentRaids s ! i) = None then d_totalPoints dat
                     else totalPoints (recentRaids s ! i)), ps)"
    by (simp add: r_def ident_def)
  have ir0: "ident r = (timestamp (recentRaids s ! i),
                    (if totalPoints (recentRaids s ! i) = None then d_totalPoints dat
                     else totalPoints (recentRaids s ! i)), players (recentRaids s ! i))"
    by (simp add: r_def ident_def)
  have keep: "joinPlayer dat (players r) = players r
      \<Longrightarrow> recentRaids (snd (addToExistingRaid dat i s)) = (recentRaids s)[i := r]
      \<Longrightarrow> ?thesis"
    using ir0 pr by (intro exI [of _ r]) simp
  show ?thesis
  proof (cases "d_players dat")
    case Nil
    then show ?thesis
      by (intro keep) (simp_all add: addToExistingRaid_def Let_def r_def putRaid_def joinPlayer_def)
  next
    case (Cons p rest)
    show ?thesis
    proof (cases "points p < MIN_POINTS_THRESHOLD \<or> \<not> length (players r) < MAX_PLAYERS
                  \<or> playerExists p r")
      case True
      then show ?thesis using Cons
        by (intro keep)
           (auto simp: addToExistingRaid_def Let_def r_def putRaid_def joinPlayer_def
                       playerExists_def)
    next
      case False
      define r2 where "r2 = r\<lparr>players := players r @ [p]\<rparr>"
      define s2 where "s2 = putRaid i r2 (putRaid i r s)"
      have rs2: "recentRaids s2 = (recentRaids s)[i := r2]"
        by (simp add: s2_def putRaid_def)
      have j: "joinPlayer dat (players (recentRaids s ! i)) = players r @ [p]"
        using False Cons pr by (simp add: joinPlayer_def playerExists_def)
      have res: "addToExistingRaid dat i s =
          (case persistedRow r2 of
             Some n \<Rightarrow> (case updateRow n (raidToRow r2) 0 s2 of
                          (Inl e, s3) \<Rightarrow> (Inl e, s3)
                        | (Inr _, s3) \<Rightarrow> (Inr (Some r2), s3))
           | None \<Rightarrow> (Inr (Some r2), s2\<lparr>scheduled := scheduled s2 @ [(clock s2 + 2000, i)]\<rparr>))"
        unfolding r2_def s2_def using False Cons
        by (simp add: addToExistingRaid_def Let_def r_def [symmetric])
      have "recentRaids (snd (addToExistingRaid dat i s)) = (recentRaids s)[i := r2]"
      proof (cases "persistedRow r2")
        case None
        then show ?thesis using res rs2 by simp
      next
        case (Some n)
        obtain x s3 where u: "updateRow n (raidToRow r2) 0 s2 = (x, s3)"
          by (cases "updateRow n (raidToRow r2) 0 s2")
        have "recentRaids s3 = recentRaids s2"
          using recentRaids_updateRow [of n "raidToRow r2" 0 s2] u by simp
        then show ?thesis using res Some u rs2 by (cases x) simp_all
      qed
      then show ?thesis using ir [of "players r @ [p]"] j
        by (intro exI [of _ r2]) (simp add: r2_def)
    qed
  qed
qed

lemma promotePlaceholder_registry:
  assumes "promotePlaceholder dat j s = (r', s2)"
  shows "recentRaids s2 = (recentRaids s)[j := r'] \<and> s2\<lparr>recentRaids := recentRaids s\<rparr> = s
     \<and> ident r' = (timestamp (recentRaids s ! j), d_totalPoints dat,
                    joinPlayer dat (players (recentRaids s ! j)))"
  using assms
  by (auto simp: promotePlaceholder_def Let_def putRaid_def joinPlayer_def playerExists_def
        ident_def split: list.splits if_splits)

lemma hrc_stale:
  "clock s - d_timestamp dat > MAX_DATA_AGE \<Longrightarrow> handleRaidCompletion dat s = (Inr None, s)"
  by (simp add: handleRaidCompletion_def)

lemma hrc_found:
  assumes "\<not> clock s - d_timestamp dat > MAX_DATA_AGE"
    and "findRaidByTotalPoints (d_totalPoints dat) s = Some i"
  shows "handleRaidCompletion dat s = addToExistingRaid dat i (cleanOrphans s)"
  using assms by (simp add: handleRaidCompletion_def Let_def)

lemma hrc_promote:
  assumes "\<not> clock s - d_timestamp dat > MAX_DATA_AGE"
    and "findRaidByTotalPoints (d_totalPoints dat) s = None"
    and "findRaidByTotalPoints None s = Some j"
    and "promotePlaceholder dat j (cleanOrphans s) = (r, s2)"
  shows "handleRaidCompletion dat s = persistRaid (Some j) r s2"
  using assms by (simp add: handleRaidCompletion_def Let_def)

lemma hrc_create:
  assumes "\<not> clock s - d_timestamp dat > MAX_DATA_AGE"
    and "findRaidByTotalPoints (d_totalPoints dat) s = None"
    and "findRaidByTotalPoints None s = None"
    and "createAndMerge dat (cleanOrphans s) = (ref, r, s2)"
  shows "handleRaidCompletion dat s = persistRaid ref r s2"
  using assms by (simp add: handleRaidCompletion_def Let_def)

lemma hrc_found_ident:
  assumes "\<not> clock s - d_timestamp dat > MAX_DATA_AGE"
    and "findRaidByTotalPoints (d_totalPoints dat) s = Some i"
  shows "map ident (recentRaids (snd (handleRaidCompletion dat s)))
     = (map ident (recentRaids s))
         [i := (timestamp (recentRaids s ! i),
                (if totalPoints (recentRaids s ! i) = None then d_totalPoints dat
                 else totalPoints (recentRaids s ! i)),
                joinPlayer dat (players (recentRaids s ! i)))]"
proof -
  have i: "i < length (recentRaids (cleanOrphans s))"
    using findRaidByTotalPoints_less [OF assms(2)] by simp
  show ?thesis
    using addToExistingRaid_registry [OF i, of dat] hrc_found [OF assms]
    by (auto simp: map_update)
qed

lemma hrc_promote_ident:
  assumes "\<not> clock s - d_timestamp dat > MAX_DATA_AGE"
    and "findRaidByTotalPoints (d_totalPoints dat) s = None"
    and "findRaidByTotalPoints None s = Some j"
  shows "map ident (recentRaids (snd (handleRaidCompletion dat s)))
     = (map ident (recentRaids s))
         [j := (timestamp (recentRaids s ! j), d_totalPoints dat,
                joinPlayer dat (players (recentRaids s ! j)))]"
proof -
  obtain r s2 where p: "promotePlaceholder dat j (cleanOrphans s) = (r, s2)"
    by (cases "promotePlaceholder dat j (cleanOrphans s)")
  note pr = promotePlaceholder_registry [OF p]
  have j: "j < length (recentRaids s)" using findRaidByTotalPoints_less [OF assms(3)] .
  have rs2: "recentRaids s2 = (recentRaids s)[j := r]" using pr by simp
  have "map ident (recentRaids (snd (persistRaid (Some j) r s2))) = map ident (recentRaids s2)"
    by (rule persistRaid_ident) (simp add: rs2 j)
  then show ?thesis using hrc_promote [OF assms p] rs2 pr by (simp add: map_update)
qed

lemma hrc_create_ident:
  assumes "\<not> clock s - d_timestamp dat > MAX_DATA_AGE"
    and "findRaidByTotalPoints (d_totalPoints dat) s = None"
    and "findRaidByTotalPoints None s = None"
  shows "\<exists>k\<le>length (recentRaids s).
      map ident (recentRaids (snd (handleRaidCompletion dat s)))
        = drop k (map ident (recentRaids s) @ [ident (newRaid dat)])
      \<and> (MAX_RAID_HISTORY \<le> length (recentRaids s) \<longrightarrow> 0 < k)"
proof -
  obtain ref r s2 where c: "createAndMerge dat (cleanOrphans s) = (ref, r, s2)"
    by (cases "createAndMerge dat (cleanOrphans s)") auto
  note cs = createAndMerge_shape [OF c]
  have fresh: "clock (cleanOrphans s) - RAID_TIMEOUT \<le> d_timestamp dat"
    using assms(1) by (simp add: cleanOrphans_def Let_def MAX_DATA_AGE_def RAID_TIMEOUT_def)
  obtain k where k: "k \<le> length (recentRaids s)"
      "recentRaids s2 = drop k (recentRaids s @ [r])"
      "ref = Some (length (recentRaids s) - k)"
      "MAX_RAID_HISTORY \<le> length (recentRaids s) \<longrightarrow> 0 < k"
    using cs fresh by (auto split: if_splits)
  have "map ident (recentRaids (snd (persistRaid ref r s2))) = map ident (recentRaids s2)"
    by (rule persistRaid_ident) (use k in \<open>auto simp: nth_append\<close>)
  then have "map ident (recentRaids (snd (handleRaidCompletion dat s)))
        = drop k (map ident (recentRaids s) @ [ident (newRaid dat)])"
    using hrc_create [OF assms c] k cs by (simp add: drop_map)
  then show ?thesis using k by blast
qed

lemma appendToSheet_registry:
  fixes dat s
  defines "rs \<equiv> recentRaids s" and "rs' \<equiv> recentRaids (snd (appendToSheet dat s))"
  shows "map ident rs' = map ident rs
     \<or> (\<exists>i v. i < length rs \<and> d_type dat = ''points''
            \<and> map ident rs' = (map ident rs)[i := v]
            \<and> (fst (snd v) = totalPoints (rs ! i)
                \<or> totalPoints (rs ! i) = None \<and> fst (snd v) = d_totalPoints dat))
     \<or> (\<exists>k\<le>length rs. d_type dat = ''points''
            \<and> map ident rs' = drop k (map ident rs @ [ident (newRaid dat)])
            \<and> (MAX_RAID_HISTORY \<le> length rs \<longrightarrow> 0 < k))"
proof (cases "d_type dat = ''points''")
  case False
  then show ?thesis
    using handleDurationUpdate_ident [of dat s] handleLootDrop_ident [of dat s]
    by (simp add: appendToSheet_def rs_def rs'_def)
next
  case True
  have eq: "rs' = recentRaids (snd (handleRaidCompletion dat s))"
    using True by (simp add: appendToSheet_def rs'_def split: prod.splits sum.splits)
  show ?thesis
  proof (cases "clock s - d_timestamp dat > MAX_DATA_AGE")
    case stale: True
    then show ?thesis using eq hrc_stale [OF stale] by (simp add: rs_def)
  next
    case fresh: False
    show ?thesis
    proof (cases "findRaidByTotalPoints (d_totalPoints dat) s")
      case (Some i)
      have "i < length rs" using findRaidByTotalPoints_less [OF Some] by (simp add: rs_def)
      then show ?thesis
        using hrc_found_ident [OF fresh Some] eq True unfolding rs_def [symmetric]
        by (intro disjI2 disjI1 exI [of _ i]) auto
    next
      case None
      show ?thesis
      proof (cases "findRaidByTotalPoints None s")
        case (Some j)
        have j: "j < length rs" using findRaidByTotalPoints_less [OF Some] by (simp add: rs_def)
        have n: "totalPoints (rs ! j) = None"
          using Some by (simp add: findRaidByTotalPoints_def scanBack_Some pointsMatch_def rs_def)
        show ?thesis
          using hrc_promote_ident [OF fresh None Some] eq True j n unfolding rs_def [symmetric]
          by (intro disjI2 disjI1 exI [of _ j]) auto
      next
        case n2: None
        show ?thesis
          using hrc_create_ident [OF fresh None n2] eq True unfolding rs_def [symmetric]
          by (intro disjI2) auto
      qed
    qed
  qed
qed

lemma appendToSheet_registry_cases:
  obtains (same) "map ident (recentRaids (snd (appendToSheet dat s))) = map ident (recentRaids s)"
  | (update) i v where "i < length (recentRaids s)" "d_type dat = ''points''"
      "map ident (recentRaids (snd (appendToSheet dat s))) = (map ident (recentRaids s))[i := v]"
      "fst (snd v) = totalPoints (recentRaids s ! i)
         \<or> totalPoints (recentRaids s ! i) = None \<and> fst (snd v) = d_totalPoints dat"
  | (create) k where "k \<le> length (recentRaids s)" "d_type dat = ''points''"
      "map ident (recentRaids (snd (appendToSheet dat s)))
         = drop k (map ident (recentRaids s) @ [ident (newRaid dat)])"
      "MAX_RAID_HISTORY \<le> length (recentRaids s) \<longrightarrow> 0 < k"
  using appendToSheet_registry [of dat s] by blast

lemma length_of_map_ident: "map ident rs' = xs \<Longrightarrow> length rs' = length xs"
  by (metis length_map)

lemma appendToSheet_length:
  assumes "length (recentRaids s) \<le> MAX_RAID_HISTORY"
  shows "length (recentRaids (snd (appendToSheet dat s))) \<le> MAX_RAID_HISTORY"
proof (cases rule: appendToSheet_registry_cases [of dat s])
  case same
  from length_of_map_ident [OF this] show ?thesis using assms by simp
next
  case (update i v)
  from length_of_map_ident [OF update(3)] show ?thesis using assms by simp
next
  case (create k)
  from length_of_map_ident [OF create(3)]
  have "length (recentRaids (snd (appendToSheet dat s))) = Suc (length (recentRaids s)) - k"
    by simp
  then show ?thesis using assms create(1,4)
    by (cases "MAX_RAID_HISTORY \<le> length (recentRaids s)") auto
qed

lemma appendToSheet_noPlaceholder:
  assumes "list_all (\<lambda>r. totalPoints r \<noteq> None) (recentRaids s)"
    and "d_type dat = ''points'' \<longrightarrow> d_totalPoints dat \<noteq> None"
  shows "list_all (\<lambda>r. totalPoints r \<noteq> None) (recentRaids (snd (appendToSheet dat s)))"
proof -
  let ?rs = "recentRaids s" and ?rs' = "recentRaids (snd (appendToSheet dat s))"
  have a: "\<forall>x\<in>set (map ident ?rs). fst (snd x) \<noteq> None"
    using assms(1) by (auto simp: list_all_iff ident_def)
  have "\<forall>x\<in>set (map ident ?rs'). fst (snd x) \<noteq> None"
  proof (cases rule: appendToSheet_registry_cases [of dat s])
    case same
    then show ?thesis using a by simp
  next
    case (update i v)
    have "totalPoints (?rs ! i) \<noteq> None" using assms(1) update(1) by (simp add: list_all_length)
    then have "fst (snd v) \<noteq> None" using update(4) by auto
    moreover have "set ((map ident ?rs)[i := v]) \<subseteq> insert v (set (map ident ?rs))"
      by (rule set_update_subset_insert)
    ultimately show ?thesis using a update(3) by auto
  next
    case (create k)
    have "fst (snd (ident (newRaid dat))) \<noteq> None"
      using assms(2) create(2) by (simp add: ident_def newRaid_def)
    then have "\<forall>x\<in>set (map ident ?rs @ [ident (newRaid dat)]). fst (snd x) \<noteq> None"
      using a by auto
    then show ?thesis unfolding create(3) by (meson in_set_dropD)
  qed
  then show ?thesis by (auto simp: list_all_iff ident_def)
qed

section \<open>Participants of one occurrence\<close>

lemma recentRaids_clock [simp]: "recentRaids (s\<lparr>clock := t\<rparr>) = recentRaids s"
  by simp

lemma names_dedupByName: "set (map name (dedupByName ps)) = set (map name ps)"
proof (induction ps rule: dedupByName.induct)
  case 1
  then show ?case by simp
next
  case (2 p ps)
  then show ?case by auto
qed

lemma dedupByName_snoc:
  "dedupByName (ps @ [p]) =
     (if name p \<in> set (map name ps) then dedupByName ps else dedupByName ps @ [p])"
proof (induction ps rule: dedupByName.induct)
  case 1
  then show ?case by simp
next
  case (2 q qs)
  then show ?case by auto
qed

lemma joinPlayer_step:
  assumes "length (d_players dat) \<le> 1"
  shows "joinPlayer dat (take MAX_PLAYERS (dedupByName (filter (\<lambda>p. MIN_POINTS_THRESHOLD \<le> points p) A)))
       = take MAX_PLAYERS (dedupByName (filter (\<lambda>p. MIN_POINTS_THRESHOLD \<le> points p) (A @ d_players dat)))"
proof (cases "d_players dat")
  case Nil
  then show ?thesis by (simp add: joinPlayer_def)
next
  case (Cons p rest)
  then have dp: "d_players dat = [p]" using assms by simp
  let ?F = "filter (\<lambda>p. MIN_POINTS_THRESHOLD \<le> points p) A"
  let ?D = "dedupByName ?F"
  show ?thesis
  proof (cases "points p < MIN_POINTS_THRESHOLD")
    case True
    then show ?thesis using dp by (simp add: joinPlayer_def)
  next
    case ok: False
    show ?thesis
    proof (cases "length ?D < MAX_PLAYERS")
      case True
      then have t: "take MAX_PLAYERS ?D = ?D" by simp
      have n: "name p \<in> set (map name ?D) \<longleftrightarrow> name p \<in> set (map name ?F)"
        using names_dedupByName [of ?F] by simp
      show ?thesis using ok True dp n
        by (simp add: joinPlayer_def t dedupByName_snoc del: set_map)
    next
      case False
      then show ?thesis using ok dp
        by (simp add: joinPlayer_def dedupByName_snoc)
    qed
  qed
qed

lemma joinPlayer_foldl:
  assumes "\<forall>ev\<in>set es. length (d_players (snd ev)) \<le> 1"
  shows "foldl (\<lambda>ps ev. joinPlayer (snd ev) ps)
           (take MAX_PLAYERS (dedupByName (filter (\<lambda>p. MIN_POINTS_THRESHOLD \<le> points p) A))) es
       = take MAX_PLAYERS (dedupByName (filter (\<lambda>p. MIN_POINTS_THRESHOLD \<le> points p)
                                          (A @ concat (map (\<lambda>ev. d_players (snd ev)) es))))"
  using assms
proof (induction es arbitrary: A)
  case Nil
  then show ?case by simp
next
  case (Cons e es)
  have "length (d_players (snd e)) \<le> 1" using Cons.prems by simp
  from joinPlayer_step [OF this, of A] show ?case
    using Cons.IH [of "A @ d_players (snd e)"] Cons.prems by simp
qed

lemma process_points:
  "d_type (snd ev) = ''points'' \<Longrightarrow>
   recentRaids (process s ev)
     = recentRaids (snd (handleRaidCompletion (snd ev) (s\<lparr>clock := fst ev\<rparr>)))"
  by (simp add: process_def appendToSheet_def split: prod.splits sum.splits)

lemma findRaidByTotalPoints_last:
  assumes "recentRaids s \<noteq> []"
    and "pointsMatch (clock s) tp (last (recentRaids s))"
  shows "findRaidByTotalPoints tp s = Some (length (recentRaids s) - 1)"
proof -
  obtain n where n: "length (recentRaids s) = Suc n" using assms(1) by (cases "recentRaids s") auto
  have "last (recentRaids s) = recentRaids s ! n" using n assms(1) by (simp add: last_conv_nth)
  then show ?thesis using assms(2) n by (simp add: findRaidByTotalPoints_def)
qed

lemma join_step:
  assumes ne: "recentRaids s \<noteq> []"
    and last: "ident (last (recentRaids s)) = (ts1, Some tp1, ps)"
    and ty: "d_type (snd ev) = ''points''"
    and fresh: "fst ev - d_timestamp (snd ev) \<le> MAX_DATA_AGE"
    and tp: "d_totalPoints (snd ev) = Some tp" "\<bar>tp1 - tp\<bar> \<le> POINTS_TOLERANCE"
    and win: "fst ev - ts1 \<le> TIME_WINDOW"
  shows "map ident (recentRaids (process s ev))
       = butlast (map ident (recentRaids s)) @ [(ts1, Some tp1, joinPlayer (snd ev) ps)]"
proof -
  let ?s = "s\<lparr>clock := fst ev\<rparr>"
  let ?n = "length (recentRaids s) - 1"
  have l: "last (recentRaids s) = recentRaids s ! ?n" using ne by (simp add: last_conv_nth)
  have f: "timestamp (last (recentRaids s)) = ts1" "totalPoints (last (recentRaids s)) = Some tp1"
      "players (last (recentRaids s)) = ps"
    using last by (simp_all add: ident_def)
  have "pointsMatch (clock ?s) (Some tp) (last (recentRaids ?s))"
    using f tp(2) win by (simp add: pointsMatch_def toNumber_def)
  then have found: "findRaidByTotalPoints (d_totalPoints (snd ev)) ?s = Some ?n"
    using findRaidByTotalPoints_last [of ?s "Some tp"] ne tp(1) by simp
  have nf: "\<not> clock ?s - d_timestamp (snd ev) > MAX_DATA_AGE" using fresh by simp
  have "map ident (recentRaids (process s ev))
      = (map ident (recentRaids s))[?n := (ts1, Some tp1, joinPlayer (snd ev) ps)]"
    using hrc_found_ident [OF nf found] process_points [OF ty, of s] f l by simp
  moreover have "(map ident (recentRaids s))[?n := (ts1, Some tp1, joinPlayer (snd ev) ps)]
      = butlast (map ident (recentRaids s)) @ [(ts1, Some tp1, joinPlayer (snd ev) ps)]"
  proof -
    have "map ident (recentRaids s) \<noteq> []" using ne by simp
    then obtain xs x where xs: "map ident (recentRaids s) = xs @ [x]"
      by (metis append_butlast_last_id)
    then have "length xs = ?n" by (metis butlast_snoc length_butlast length_map)
    then show ?thesis using xs by (metis butlast_snoc list_update_length)
  qed
  ultimately show ?thesis by simp
qed

lemma join_run:
  assumes "recentRaids s \<noteq> []"
    and "ident (last (recentRaids s)) = (ts1, Some tp1, ps)"
    and "\<forall>ev\<in>set es. d_type (snd ev) = ''points''
           \<and> fst ev - d_timestamp (snd ev) \<le> MAX_DATA_AGE
           \<and> (\<exists>tp. d_totalPoints (snd ev) = Some tp \<and> \<bar>tp1 - tp\<bar> \<le> POINTS_TOLERANCE)
           \<and> fst ev - ts1 \<le> TIME_WINDOW"
  shows "map ident (recentRaids (run es s))
       = butlast (map ident (recentRaids s))
         @ [(ts1, Some tp1, foldl (\<lambda>ps ev. joinPlayer (snd ev) ps) ps es)]"
  using assms
proof (induction es arbitrary: s ps)
  case Nil
  have "map ident (recentRaids s) \<noteq> []" using Nil(1) by simp
  then have "map ident (recentRaids s) = butlast (map ident (recentRaids s)) @ [ident (last (recentRaids s))]"
    by (metis append_butlast_last_id last_map Nil(1))
  then show ?case using Nil(2) by (simp add: run_def)
next
  case (Cons e es)
  obtain tp where tp: "d_totalPoints (snd e) = Some tp" "\<bar>tp1 - tp\<bar> \<le> POINTS_TOLERANCE"
    using Cons.prems(3) by auto
  have st: "map ident (recentRaids (process s e))
      = butlast (map ident (recentRaids s)) @ [(ts1, Some tp1, joinPlayer (snd e) ps)]"
    using join_step [OF Cons.prems(1,2) _ _ tp] Cons.prems(3) by simp
  then have ne': "recentRaids (process s e) \<noteq> []" by auto
  have "last (map ident (recentRaids (process s e))) = (ts1, Some tp1, joinPlayer (snd e) ps)"
    using st by simp
  then have last': "ident (last (recentRaids (process s e))) = (ts1, Some tp1, joinPlayer (snd e) ps)"
    using ne' by (simp add: last_map)
  have bl: "butlast (map ident (recentRaids (process s e))) = butlast (map ident (recentRaids s))"
    using st by simp
  have "map ident (recentRaids (run es (process s e)))
      = butlast (map ident (recentRaids (process s e)))
        @ [(ts1, Some tp1, foldl (\<lambda>ps ev. joinPlayer (snd ev) ps) (joinPlayer (snd e) ps) es)]"
    using Cons.IH [OF ne' last'] Cons.prems(3) by simp
  then show ?case using bl by (simp add: run_def)
qed

lemma create_step:
  assumes ty: "d_type (snd ev) = ''points''"
    and fresh: "fst ev - d_timestamp (snd ev) \<le> MAX_DATA_AGE"
    and nomatch: "findRaidByTotalPoints (d_totalPoints (snd ev)) (s\<lparr>clock := fst ev\<rparr>) = None"
    and noplace: "findRaidByTotalPoints None (s\<lparr>clock := fst ev\<rparr>) = None"
  shows "\<exists>k\<le>length (recentRaids s).
          map ident (recentRaids (process s ev))
            = drop k (map ident (recentRaids s)) @ [ident (newRaid (snd ev))]"
proof -
  have nf: "\<not> clock (s\<lparr>clock := fst ev\<rparr>) - d_timestamp (snd ev) > MAX_DATA_AGE"
    using fresh by simp
  show ?thesis
    using hrc_create_ident [OF nf nomatch noplace] process_points [OF ty, of s] by auto
qed

lemma set_dedupByName: "set (dedupByName ps) \<subseteq> set ps"
proof (induction ps rule: dedupByName.induct)
  case 1
  then show ?case by simp
next
  case (2 p ps)
  then show ?case by auto
qed

lemma distinct_dedupByName: "distinct (map name (dedupByName ps))"
proof (induction ps rule: dedupByName.induct)
  case 1
  then show ?case by simp
next
  case (2 p ps)
  have "name p \<notin> set (map name (filter (\<lambda>q. name q \<noteq> name p) ps))" by auto
  then have "name p \<notin> set (map name (dedupByName (filter (\<lambda>q. name q \<noteq> name p) ps)))"
    using names_dedupByName [of "filter (\<lambda>q. name q \<noteq> name p) ps"] by simp
  then show ?case using 2 by simp
qed

lemma dedupByName_short: "length ps \<le> 1 \<Longrightarrow> dedupByName ps = ps"
  by (cases ps) auto

text \<open>
  C5. A score that creates a raid, followed by scores that correlate to it (total points
  within 500 of the raid's, processed within 120 s of its timestamp, none stale), each
  carrying at most one participant as the parser produces them: the participants of the
  raid are the participants of the scores in arrival order, without those below 2000
  points, de-duplicated by name (the first of a name is kept), cut at five.
\<close>

theorem same_occurrence_participants:
  assumes "d_type e1 = ''points''" and "length (d_players e1) \<le> 1"
    and "t1 - d_timestamp e1 \<le> 300000"
    and "d_totalPoints e1 = Some tp1"
    and "findRaidByTotalPoints (Some tp1) (s\<lparr>clock := t1\<rparr>) = None"
    and "findRaidByTotalPoints None (s\<lparr>clock := t1\<rparr>) = None"
    and "\<forall>ev\<in>set es. d_type (snd ev) = ''points'' \<and> length (d_players (snd ev)) \<le> 1
           \<and> fst ev - d_timestamp (snd ev) \<le> 300000
           \<and> (\<exists>tp. d_totalPoints (snd ev) = Some tp \<and> \<bar>tp1 - tp\<bar> \<le> 500)
           \<and> fst ev - d_timestamp e1 \<le> 120000"
  shows "recentRaids (run ((t1, e1) # es) s) \<noteq> []
     \<and> timestamp (last (recentRaids (run ((t1, e1) # es) s))) = d_timestamp e1
     \<and> totalPoints (last (recentRaids (run ((t1, e1) # es) s))) = Some tp1
     \<and> players (last (recentRaids (run ((t1, e1) # es) s)))
         = take 5 (dedupByName (filter (\<lambda>p. 2000 \<le> points p)
                                  (concat (map (\<lambda>ev. d_players (snd ev)) ((t1, e1) # es)))))
     \<and> length (players (last (recentRaids (run ((t1, e1) # es) s)))) \<le> 5
     \<and> distinct (map name (players (last (recentRaids (run ((t1, e1) # es) s)))))
     \<and> list_all (\<lambda>p. 2000 \<le> points p) (players (last (recentRaids (run ((t1, e1) # es) s))))"
proof -
  let ?ok = "\<lambda>p. MIN_POINTS_THRESHOLD \<le> points p"
  let ?s1 = "process s (t1, e1)"
  let ?ps1 = "take MAX_PLAYERS (dedupByName (filter ?ok ([] @ d_players e1)))"
  let ?all = "concat (map (\<lambda>ev. d_players (snd ev)) ((t1, e1) # es))"
  let ?final = "run ((t1, e1) # es) s"
  have short: "length (filter ?ok (d_players e1)) \<le> 1"
    using assms(2) by (meson le_trans length_filter_le)
  have new: "ident (newRaid e1) = (d_timestamp e1, Some tp1, ?ps1)"
    using assms(4) dedupByName_short [OF short] by (simp add: ident_def newRaid_def)
  obtain k where k: "map ident (recentRaids ?s1)
       = drop k (map ident (recentRaids s)) @ [ident (newRaid e1)]"
    using create_step [of "(t1, e1)" s] assms(1,3,4,5,6) by (auto simp: MAX_DATA_AGE_def)
  then have ne: "recentRaids ?s1 \<noteq> []" by auto
  have "last (map ident (recentRaids ?s1)) = ident (newRaid e1)" using k by simp
  then have last1: "ident (last (recentRaids ?s1)) = (d_timestamp e1, Some tp1, ?ps1)"
    using ne new by (simp add: last_map)
  have evs: "\<forall>ev\<in>set es. d_type (snd ev) = ''points''
           \<and> fst ev - d_timestamp (snd ev) \<le> MAX_DATA_AGE
           \<and> (\<exists>tp. d_totalPoints (snd ev) = Some tp \<and> \<bar>tp1 - tp\<bar> \<le> POINTS_TOLERANCE)
           \<and> fst ev - d_timestamp e1 \<le> TIME_WINDOW"
    using assms(7) by (simp add: MAX_DATA_AGE_def POINTS_TOLERANCE_def TIME_WINDOW_def)
  have one: "\<forall>ev\<in>set es. length (d_players (snd ev)) \<le> 1" using assms(7) by simp
  have r: "run ((t1, e1) # es) s = run es ?s1" by (simp add: run_def)
  have m: "map ident (recentRaids ?final)
       = butlast (map ident (recentRaids ?s1))
         @ [(d_timestamp e1, Some tp1, foldl (\<lambda>ps ev. joinPlayer (snd ev) ps) ?ps1 es)]"
    using join_run [OF ne last1 evs] r by simp
  then have ne2: "recentRaids ?final \<noteq> []" by auto
  have "last (map ident (recentRaids ?final))
       = (d_timestamp e1, Some tp1, foldl (\<lambda>ps ev. joinPlayer (snd ev) ps) ?ps1 es)"
    using m by simp
  then have idl: "ident (last (recentRaids ?final))
       = (d_timestamp e1, Some tp1, foldl (\<lambda>ps ev. joinPlayer (snd ev) ps) ?ps1 es)"
    using ne2 by (simp add: last_map)
  have pl: "players (last (recentRaids ?final))
       = take MAX_PLAYERS (dedupByName (filter ?ok ?all))"
    using idl joinPlayer_foldl [OF one, of "[] @ d_players e1"] by (simp add: ident_def)
  have d: "distinct (map name (take MAX_PLAYERS (dedupByName (filter ?ok ?all))))"
    using distinct_dedupByName [of "filter ?ok ?all"] by (simp add: take_map [symmetric])
  have "set (take MAX_PLAYERS (dedupByName (filter ?ok ?all))) \<subseteq> set (filter ?ok ?all)"
    using set_dedupByName [of "filter ?ok ?all"] by (meson in_set_takeD subsetD subsetI)
  then have a: "list_all ?ok (take MAX_PLAYERS (dedupByName (filter ?ok ?all)))"
    by (auto simp: list_all_iff)
  have ts: "timestamp (last (recentRaids ?final)) = d_timestamp e1"
    and tp: "totalPoints (last (recentRaids ?final)) = Some tp1"
    using idl by (simp_all add: ident_def)
  have p5: "players (last (recentRaids ?final))
       = take 5 (dedupByName (filter (\<lambda>p. 2000 \<le> points p) ?all))"
    using pl by (simp only: MAX_PLAYERS_def MIN_POINTS_THRESHOLD_def)
  have len: "length (players (last (recentRaids ?final))) \<le> 5"
    unfolding p5 by simp
  have dis: "distinct (map name (players (last (recentRaids ?final))))"
    unfolding pl using d .
  have al: "list_all (\<lambda>p. 2000 \<le> points p) (players (last (recentRaids ?final)))"
    unfolding pl using a by (simp only: MIN_POINTS_THRESHOLD_def)
  show ?thesis
    using ne2 ts tp p5 len dis al by (intro conjI)
qed

theorem same_occurrence_participants_witness:
  "players (last (recentRaids
      (run [(1700000000000, score 1700000000000 291233 ''Hyperr'' 94987),
            (1700000001000, score 1700000001000 291200 ''rg44'' 94394),
            (1700000002000, score 1700000002000 291233 ''alt'' 1500),
            (1700000003000, score 1700000003000 291233 ''Hyperr'' 94987)]
         (init_state 1700000000000 storeDown))))
   = [\<lparr>name = ''Hyperr'', points = 94987\<rparr>, \<lparr>name = ''rg44'', points = 94394\<rparr>]"
  using same_occurrence_participants
    [of "score 1700000000000 291233 ''Hyperr'' 94987" 1700000000000 291233
        "init_state 1700000000000 storeDown"
        "[(1700000001000, score 1700000001000 291200 ''rg44'' 94394),
          (1700000002000, score 1700000002000 291233 ''alt'' 1500),
          (1700000003000, score 1700000003000 291233 ''Hyperr'' 94987)]"]
  by (simp add: score_def init_state_def findRaidByTotalPoints_def)

section \<open>Total points, once set\<close>

lemma nth_totalPoints_ident:
  "i < length rs \<Longrightarrow> totalPoints (rs ! i) = fst (snd (map ident rs ! i))"
  by (simp add: ident_def)

lemma step_keeps_totals:
  fixes dat s
  defines "rs \<equiv> recentRaids s" and "rs' \<equiv> recentRaids (snd (appendToSheet dat s))"
  assumes "\<not> createsRaid dat s"
  shows "length rs' = length rs
     \<and> (\<forall>i<length rs. totalPoints (rs' ! i) = totalPoints (rs ! i)
            \<or> (totalPoints (rs ! i) = None \<and> totalPoints (rs' ! i) = d_totalPoints dat))"
proof -
  let ?G = ?thesis
  have upd: "\<And>j v. j < length rs \<Longrightarrow> map ident rs' = (map ident rs)[j := v]
      \<Longrightarrow> fst (snd v) = totalPoints (rs ! j)
            \<or> (totalPoints (rs ! j) = None \<and> fst (snd v) = d_totalPoints dat)
      \<Longrightarrow> ?G"
  proof -
    fix j v
    assume j: "j < length rs" and m: "map ident rs' = (map ident rs)[j := v]"
      and v: "fst (snd v) = totalPoints (rs ! j)
            \<or> (totalPoints (rs ! j) = None \<and> fst (snd v) = d_totalPoints dat)"
    have len: "length rs' = length rs" using length_of_map_ident [OF m] by simp
    have "\<forall>i<length rs. totalPoints (rs' ! i) = totalPoints (rs ! i)
            \<or> (totalPoints (rs ! i) = None \<and> totalPoints (rs' ! i) = d_totalPoints dat)"
    proof (intro allI impI)
      fix i assume i: "i < length rs"
      have a: "totalPoints (rs' ! i) = fst (snd ((map ident rs)[j := v] ! i))"
        using nth_totalPoints_ident [of i rs'] i len m by simp
      show "totalPoints (rs' ! i) = totalPoints (rs ! i)
            \<or> (totalPoints (rs ! i) = None \<and> totalPoints (rs' ! i) = d_totalPoints dat)"
      proof (cases "i = j")
        case True
        then show ?thesis using a v j by simp
      next
        case False
        then show ?thesis using a i by (simp add: ident_def)
      qed
    qed
    then show ?G using len by simp
  qed
  have same: "map ident rs' = map ident rs \<Longrightarrow> ?G"
  proof -
    assume m: "map ident rs' = map ident rs"
    have len: "length rs' = length rs" using length_of_map_ident [OF m] by simp
    have "\<forall>i<length rs. totalPoints (rs' ! i) = totalPoints (rs ! i)"
      using nth_totalPoints_ident [of _ rs'] nth_totalPoints_ident [of _ rs] len m by simp
    then show ?G using len by simp
  qed
  show ?thesis
  proof (cases "d_type dat = ''points''")
    case False
    then show ?thesis
      using handleDurationUpdate_ident [of dat s] handleLootDrop_ident [of dat s]
      by (intro same) (simp add: appendToSheet_def rs_def rs'_def)
  next
    case True
    have eq: "rs' = recentRaids (snd (handleRaidCompletion dat s))"
      using True by (simp add: appendToSheet_def rs'_def split: prod.splits sum.splits)
    show ?thesis
    proof (cases "clock s - d_timestamp dat > MAX_DATA_AGE")
      case stale: True
      then show ?thesis using eq hrc_stale [OF stale] by (intro same) (simp add: rs_def)
    next
      case fresh: False
      show ?thesis
      proof (cases "findRaidByTotalPoints (d_totalPoints dat) s")
        case (Some i)
        have i: "i < length rs" using findRaidByTotalPoints_less [OF Some] by (simp add: rs_def)
        show ?thesis
          using hrc_found_ident [OF fresh Some] eq unfolding rs_def [symmetric]
          by (intro upd [OF i]) (auto split: if_splits)
      next
        case None
        then obtain j where Some: "findRaidByTotalPoints None s = Some j"
          using assms(3) True fresh by (auto simp: createsRaid_def)
        have j: "j < length rs" using findRaidByTotalPoints_less [OF Some] by (simp add: rs_def)
        have n: "totalPoints (rs ! j) = None"
          using Some by (simp add: findRaidByTotalPoints_def scanBack_Some pointsMatch_def rs_def)
        show ?thesis
          using hrc_promote_ident [OF fresh None Some] eq n unfolding rs_def [symmetric]
          by (intro upd [OF j]) auto
      qed
    qed
  qed
qed

lemma step_creates_totals:
  fixes dat s
  defines "rs \<equiv> recentRaids s" and "rs' \<equiv> recentRaids (snd (appendToSheet dat s))"
  assumes "createsRaid dat s"
  shows "rs' \<noteq> [] \<and> length rs' \<le> Suc (length rs)
     \<and> totalPoints (last rs') = d_totalPoints dat
     \<and> (\<forall>i. Suc i < length rs' \<longrightarrow>
            totalPoints (rs' ! i) = totalPoints (rs ! (Suc (length rs) - length rs' + i)))"
proof -
  have ty: "d_type dat = ''points''" and fresh: "\<not> clock s - d_timestamp dat > MAX_DATA_AGE"
    and n1: "findRaidByTotalPoints (d_totalPoints dat) s = None"
    and n2: "findRaidByTotalPoints None s = None"
    using assms(3) by (simp_all add: createsRaid_def)
  have eq: "rs' = recentRaids (snd (handleRaidCompletion dat s))"
    using ty by (simp add: appendToSheet_def rs'_def split: prod.splits sum.splits)
  obtain k where k: "k \<le> length rs"
      "map ident rs' = drop k (map ident rs) @ [ident (newRaid dat)]"
    using hrc_create_ident [OF fresh n1 n2] eq unfolding rs_def [symmetric] by auto
  have len: "length rs' = Suc (length rs - k)" using length_of_map_ident [OF k(2)] by simp
  then have ne: "rs' \<noteq> []" by auto
  have off: "Suc (length rs) - length rs' = k" using len k(1) by simp
  have "last (map ident rs') = ident (newRaid dat)" using k(2) by simp
  then have "ident (last rs') = ident (newRaid dat)" using ne by (simp add: last_map)
  then have lst: "totalPoints (last rs') = d_totalPoints dat"
    by (simp add: ident_def newRaid_def)
  have "\<forall>i. Suc i < length rs' \<longrightarrow> totalPoints (rs' ! i) = totalPoints (rs ! (k + i))"
  proof (intro allI impI)
    fix i assume i: "Suc i < length rs'"
    then have i': "i < length rs - k" using len by simp
    have "map ident rs' ! i = map ident rs ! (k + i)"
      using k i' by (simp add: nth_append)
    then show "totalPoints (rs' ! i) = totalPoints (rs ! (k + i))"
      using nth_totalPoints_ident [of i rs'] nth_totalPoints_ident [of "k + i" rs] i i' by simp
  qed
  then show ?thesis using ne len lst off by simp
qed

lemma step_evicted:
  fixes dat s
  defines "rs \<equiv> recentRaids s" and "rs' \<equiv> recentRaids (snd (appendToSheet dat s))"
  assumes "evictedBy dat s + i < length rs"
  shows "i < length rs'
     \<and> (totalPoints (rs ! (evictedBy dat s + i)) = None
        \<or> totalPoints (rs' ! i) = totalPoints (rs ! (evictedBy dat s + i)))"
proof (cases "createsRaid dat s")
  case False
  note k = step_keeps_totals [OF False, folded rs_def rs'_def]
  have e: "evictedBy dat s = 0" using False k by (simp add: evictedBy_def rs_def rs'_def)
  then have "i < length rs" using assms(3) by simp
  then show ?thesis using k e by auto
next
  case True
  note c = step_creates_totals [OF True, folded rs_def rs'_def]
  have e: "evictedBy dat s = Suc (length rs) - length rs'"
    using True by (simp add: evictedBy_def rs_def rs'_def)
  have "Suc i < length rs'" using assms(3) e c by simp
  then show ?thesis using c e by simp
qed

lemma run_evicted:
  "evicted evs s + i < length (recentRaids s) \<Longrightarrow>
   i < length (recentRaids (run evs s))
   \<and> (totalPoints (recentRaids s ! (evicted evs s + i)) = None
      \<or> totalPoints (recentRaids (run evs s) ! i)
          = totalPoints (recentRaids s ! (evicted evs s + i)))"
proof (induction evs arbitrary: s i)
  case Nil
  then show ?case by (simp add: run_def)
next
  case (Cons ev evs)
  let ?s0 = "s\<lparr>clock := fst ev\<rparr>"
  let ?d1 = "evictedBy (snd ev) ?s0" and ?d2 = "evicted evs (process s ev)"
  have p: "recentRaids (process s ev) = recentRaids (snd (appendToSheet (snd ev) ?s0))"
    by (simp add: process_def)
  have "?d1 + (?d2 + i) < length (recentRaids ?s0)" using Cons.prems by (simp add: add.assoc)
  from step_evicted [OF this]
  have 1: "?d2 + i < length (recentRaids (process s ev))"
    and 2: "totalPoints (recentRaids s ! (?d1 + (?d2 + i))) = None
        \<or> totalPoints (recentRaids (process s ev) ! (?d2 + i))
            = totalPoints (recentRaids s ! (?d1 + (?d2 + i)))"
    using p by simp_all
  from Cons.IH [OF 1]
  have 3: "i < length (recentRaids (run evs (process s ev)))"
    and 4: "totalPoints (recentRaids (process s ev) ! (?d2 + i)) = None
        \<or> totalPoints (recentRaids (run evs (process s ev)) ! i)
            = totalPoints (recentRaids (process s ev) ! (?d2 + i))"
    by simp_all
  have r: "run (ev # evs) s = run evs (process s ev)" by (simp add: run_def)
  show ?case using 2 3 4 unfolding r by (auto simp: add.assoc)
qed


text \<open>
  C3. Once a raid's \<open>totalPoints\<close> is non-null no later notification changes it. One
  notification that does not create a raid leaves every raid at its position, with the
  total points it had or, if these were null, with those of the score. One that creates a
  raid leaves the registry as the old one less \<open>Suc (length old) - length new\<close> raids from
  the front, each raid that stays with the total points it had, and the new raid last.
  Over a run of notifications, with \<open>evicted\<close> the number of raids lost from the front,
  the raid at position \<open>evicted + i\<close> is at position \<open>i\<close> afterwards and has kept its total
  points unless these were null. In particular a score of 291233 by Hyperr followed
  within two minutes by a score of 291200 by rg44 leaves one raid, with both participants
  and total points 291233, whatever the store answers.
\<close>

theorem totalPoints_first_set_wins:
  "(\<not> createsRaid dat s \<longrightarrow>
      evictedBy dat s = 0
      \<and> length (recentRaids (snd (appendToSheet dat s))) = length (recentRaids s)
      \<and> (\<forall>i<length (recentRaids s).
            totalPoints (recentRaids (snd (appendToSheet dat s)) ! i)
              = totalPoints (recentRaids s ! i)
            \<or> (totalPoints (recentRaids s ! i) = None
                \<and> totalPoints (recentRaids (snd (appendToSheet dat s)) ! i)
                    = d_totalPoints dat)))
   \<and> (createsRaid dat s \<longrightarrow>
      recentRaids (snd (appendToSheet dat s)) \<noteq> []
      \<and> length (recentRaids (snd (appendToSheet dat s))) \<le> Suc (length (recentRaids s))
      \<and> totalPoints (last (recentRaids (snd (appendToSheet dat s)))) = d_totalPoints dat
      \<and> (\<forall>i. Suc i < length (recentRaids (snd (appendToSheet dat s))) \<longrightarrow>
            totalPoints (recentRaids (snd (appendToSheet dat s)) ! i)
              = totalPoints (recentRaids s
                  ! (Suc (length (recentRaids s))
                       - length (recentRaids (snd (appendToSheet dat s))) + i))))
   \<and> (evicted evs s + i < length (recentRaids s) \<longrightarrow>
      i < length (recentRaids (run evs s))
      \<and> (totalPoints (recentRaids s ! (evicted evs s + i)) = None
          \<or> totalPoints (recentRaids (run evs s) ! i)
              = totalPoints (recentRaids s ! (evicted evs s + i))))
   \<and> (0 \<le> d \<and> d \<le> 120000 \<longrightarrow>
        map (\<lambda>r. (totalPoints r, players r))
          (recentRaids (run [(t, score t 291233 ''Hyperr'' 94987),
                             (t + d, score (t + d) 291200 ''rg44'' 94394)]
                          (init_state t0 w)))
        = [(Some 291233, [\<lparr>name = ''Hyperr'', points = 94987\<rparr>,
                          \<lparr>name = ''rg44'', points = 94394\<rparr>])])"
proof (intro conjI impI)
  assume n: "\<not> createsRaid dat s"
  note k = step_keeps_totals [OF n]
  show "evictedBy dat s = 0" using n k by (simp add: evictedBy_def)
  show "length (recentRaids (snd (appendToSheet dat s))) = length (recentRaids s)"
    using k by simp
  show "\<forall>i<length (recentRaids s).
            totalPoints (recentRaids (snd (appendToSheet dat s)) ! i)
              = totalPoints (recentRaids s ! i)
            \<or> (totalPoints (recentRaids s ! i) = None
                \<and> totalPoints (recentRaids (snd (appendToSheet dat s)) ! i)
                    = d_totalPoints dat)"
    using k by simp
next
  assume c: "createsRaid dat s"
  note k = step_creates_totals [OF c]
  show "recentRaids (snd (appendToSheet dat s)) \<noteq> []" using k by simp
  show "length (recentRaids (snd (appendToSheet dat s))) \<le> Suc (length (recentRaids s))"
    using k by simp
  show "totalPoints (last (recentRaids (snd (appendToSheet dat s)))) = d_totalPoints dat"
    using k by simp
  show "\<forall>i. Suc i < length (recentRaids (snd (appendToSheet dat s))) \<longrightarrow>
            totalPoints (recentRaids (snd (appendToSheet dat s)) ! i)
              = totalPoints (recentRaids s
                  ! (Suc (length (recentRaids s))
                       - length (recentRaids (snd (appendToSheet dat s))) + i))"
    using k by simp
next
  assume e: "evicted evs s + i < length (recentRaids s)"
  note r = run_evicted [OF e]
  show "i < length (recentRaids (run evs s))" using r by simp
  show "totalPoints (recentRaids s ! (evicted evs s + i)) = None
          \<or> totalPoints (recentRaids (run evs s) ! i)
              = totalPoints (recentRaids s ! (evicted evs s + i))"
    using r by simp
next
  assume d: "0 \<le> d \<and> d \<le> 120000"
  let ?e1 = "score t 291233 ''Hyperr'' 94987" and ?e2 = "score (t + d) 291200 ''rg44'' 94394"
  let ?s0 = "init_state t0 w"
  let ?s1 = "process ?s0 (t, ?e1)"
  obtain k where k: "k \<le> length (recentRaids ?s0)"
      "map ident (recentRaids ?s1) = drop k (map ident (recentRaids ?s0)) @ [ident (newRaid ?e1)]"
    using create_step [of "(t, ?e1)" ?s0]
    by (auto simp: score_def init_state_def findRaidByTotalPoints_def MAX_DATA_AGE_def)
  have m1: "map ident (recentRaids ?s1) = [ident (newRaid ?e1)]"
    using k by (simp add: init_state_def)
  then have ne: "recentRaids ?s1 \<noteq> []" by auto
  have "last (map ident (recentRaids ?s1)) = ident (newRaid ?e1)" using m1 by simp
  then have l1: "ident (last (recentRaids ?s1))
       = (t, Some 291233, [\<lparr>name = ''Hyperr'', points = 94987\<rparr>])"
    using ne
    by (simp add: last_map ident_def newRaid_def score_def MAX_PLAYERS_def
                  MIN_POINTS_THRESHOLD_def)
  have "map ident (recentRaids (run [(t + d, ?e2)] ?s1))
      = butlast (map ident (recentRaids ?s1))
        @ [(t, Some 291233,
            foldl (\<lambda>ps ev. joinPlayer (snd ev) ps) [\<lparr>name = ''Hyperr'', points = 94987\<rparr>]
              [(t + d, ?e2)])]"
    using d by (intro join_run [OF ne l1])
               (simp add: score_def MAX_DATA_AGE_def POINTS_TOLERANCE_def TIME_WINDOW_def)
  then have "map ident (recentRaids (run [(t, ?e1), (t + d, ?e2)] ?s0))
      = [(t, Some 291233, [\<lparr>name = ''Hyperr'', points = 94987\<rparr>,
                           \<lparr>name = ''rg44'', points = 94394\<rparr>])]"
    using m1
    by (simp add: run_def joinPlayer_def score_def MAX_PLAYERS_def MIN_POINTS_THRESHOLD_def)
  then have "map (\<lambda>x. (fst (snd x), snd (snd x)))
               (map ident (recentRaids (run [(t, ?e1), (t + d, ?e2)] ?s0)))
      = [(Some 291233, [\<lparr>name = ''Hyperr'', points = 94987\<rparr>,
                        \<lparr>name = ''rg44'', points = 94394\<rparr>])]"
    by simp
  then show "map (\<lambda>r. (totalPoints r, players r))
               (recentRaids (run [(t, ?e1), (t + d, ?e2)] ?s0))
      = [(Some 291233, [\<lparr>name = ''Hyperr'', points = 94987\<rparr>,
                        \<lparr>name = ''rg44'', points = 94394\<rparr>])]"
    by (simp add: ident_def comp_def)
qed

theorem totalPoints_first_set_wins_witness:
  "evicted [(1700000100000, score 1700000100000 291500 ''rg44'' 94394)] twoRaids = 0
   \<and> totalPoints (recentRaids twoRaids ! 1) = Some 291600
   \<and> totalPoints
       (recentRaids (run [(1700000100000, score 1700000100000 291500 ''rg44'' 94394)] twoRaids)
          ! 1) = Some 291600
   \<and> map (\<lambda>r. (totalPoints r, players r))
     (recentRaids (run [(1700000000000, score 1700000000000 291233 ''Hyperr'' 94987),
                        (1700000000000 + 1500, score (1700000000000 + 1500) 291200 ''rg44'' 94394)]
                     (init_state 1700000000000 storeUp)))
   = [(Some 291233, [\<lparr>name = ''Hyperr'', points = 94987\<rparr>,
                     \<lparr>name = ''rg44'', points = 94394\<rparr>])]"
proof -
  let ?evs = "[(1700000100000, score 1700000100000 291500 ''rg44'' 94394)]"
  have e: "evicted ?evs twoRaids = 0" by code_simp
  have l: "length (recentRaids twoRaids) = 2" "totalPoints (recentRaids twoRaids ! 1) = Some 291600"
    by (simp_all add: twoRaids_def init_state_def)
  have h: "evicted ?evs twoRaids + 1 < length (recentRaids twoRaids)" using e l by simp
  note th = totalPoints_first_set_wins
      [of "score 1700000100000 291500 ''rg44'' 94394" twoRaids ?evs 1 1500
          1700000000000 1700000000000 storeUp]
  have "totalPoints (recentRaids (run ?evs twoRaids) ! 1) = Some 291600"
    using th h e l by simp
  moreover have "map (\<lambda>r. (totalPoints r, players r))
     (recentRaids (run [(1700000000000, score 1700000000000 291233 ''Hyperr'' 94987),
                        (1700000000000 + 1500, score (1700000000000 + 1500) 291200 ''rg44'' 94394)]
                     (init_state 1700000000000 storeUp)))
   = [(Some 291233, [\<lparr>name = ''Hyperr'', points = 94987\<rparr>,
                     \<lparr>name = ''rg44'', points = 94394\<rparr>])]"
    using th by simp
  ultimately show ?thesis using e l by simp
qed

section \<open>Invariants of the registry\<close>

lemma run_noPlaceholder:
  assumes "list_all (\<lambda>r. totalPoints r \<noteq> None) (recentRaids s)"
    and "\<forall>ev\<in>set evs. d_type (snd ev) = ''points'' \<longrightarrow> d_totalPoints (snd ev) \<noteq> None"
  shows "list_all (\<lambda>r. totalPoints r \<noteq> None) (recentRaids (run evs s))"
  using assms
proof (induction evs arbitrary: s)
  case Nil
  then show ?case by (simp add: run_def)
next
  case (Cons e es)
  have "list_all (\<lambda>r. totalPoints r \<noteq> None) (recentRaids (s\<lparr>clock := fst e\<rparr>))"
    using Cons.prems(1) by simp
  then have "list_all (\<lambda>r. totalPoints r \<noteq> None) (recentRaids (process s e))"
    unfolding process_def using Cons.prems(2)
    by (intro appendToSheet_noPlaceholder) simp_all
  then have "list_all (\<lambda>r. totalPoints r \<noteq> None) (recentRaids (run es (process s e)))"
    using Cons.prems(2) by (intro Cons.IH) simp_all
  then show ?case by (simp add: run_def)
qed

lemma run_length:
  assumes "length (recentRaids s) \<le> MAX_RAID_HISTORY"
  shows "length (recentRaids (run evs s)) \<le> MAX_RAID_HISTORY"
  using assms
proof (induction evs arbitrary: s)
  case Nil
  then show ?case by (simp add: run_def)
next
  case (Cons e es)
  have "length (recentRaids (process s e)) \<le> MAX_RAID_HISTORY"
    unfolding process_def using Cons.prems by (intro appendToSheet_length) simp
  then have "length (recentRaids (run es (process s e))) \<le> MAX_RAID_HISTORY"
    by (rule Cons.IH)
  then show ?case by (simp add: run_def)
qed

text \<open>
  C10. Provided every score carries its total points (the parser drops a score without),
  no raid of the registry ever has null total points, from the module as loaded and
  whatever the store answers: raids are created by the score path only, with the total
  points of the score, and the duration and loot paths leave the number of raids as it
  is. So the placeholder lookup \<^verbatim>\<open>findRaidByTotalPoints(null)\<close> finds nothing at any time
  and the score path never takes its placeholder branch.
\<close>

theorem registry_has_no_placeholder:
  assumes "\<forall>ev\<in>set evs. d_type (snd ev) = ''points'' \<longrightarrow> d_totalPoints (snd ev) \<noteq> None"
  shows "list_all (\<lambda>r. totalPoints r \<noteq> None) (recentRaids (run evs (init_state t w)))
     \<and> findRaidByTotalPoints None ((run evs (init_state t w))\<lparr>clock := now\<rparr>) = None
     \<and> (d_type dat \<noteq> ''points'' \<longrightarrow>
          length (recentRaids (snd (appendToSheet dat s))) = length (recentRaids s))"
proof (intro conjI impI)
  show inv: "list_all (\<lambda>r. totalPoints r \<noteq> None) (recentRaids (run evs (init_state t w)))"
    using assms by (intro run_noPlaceholder) (simp_all add: init_state_def)
  show "findRaidByTotalPoints None ((run evs (init_state t w))\<lparr>clock := now\<rparr>) = None"
    using inv
    by (simp add: findRaidByTotalPoints_def scanBack_None pointsMatch_def list_all_length)
next
  assume "d_type dat \<noteq> ''points''"
  then have "map ident (recentRaids (snd (appendToSheet dat s))) = map ident (recentRaids s)"
    using handleDurationUpdate_ident [of dat s] handleLootDrop_ident [of dat s]
    by (simp add: appendToSheet_def)
  then show "length (recentRaids (snd (appendToSheet dat s))) = length (recentRaids s)"
    by (rule map_eq_imp_length_eq)
qed

theorem registry_has_no_placeholder_witness:
  "list_all (\<lambda>r. totalPoints r \<noteq> None)
     (recentRaids (run [(1700000000000, loot 1700000000000 ''Hyperr'' ''Twisted bow''),
                        (1700000000500, duration 1700000000500 ''46:43.80'' (Some ''11-15'')),
                        (1700000001000, score 1700000001000 291233 ''Hyperr'' 94987)]
                     (init_state 1700000000000 storeUp)))
   \<and> findRaidByTotalPoints None
       ((run [(1700000000000, loot 1700000000000 ''Hyperr'' ''Twisted bow''),
              (1700000000500, duration 1700000000500 ''46:43.80'' (Some ''11-15'')),
              (1700000001000, score 1700000001000 291233 ''Hyperr'' 94987)]
           (init_state 1700000000000 storeUp))\<lparr>clock := 1700000002000\<rparr>) = None"
  using registry_has_no_placeholder
    [of "[(1700000000000, loot 1700000000000 ''Hyperr'' ''Twisted bow''),
          (1700000000500, duration 1700000000500 ''46:43.80'' (Some ''11-15'')),
          (1700000001000, score 1700000001000 291233 ''Hyperr'' 94987)]"
        1700000000000 storeUp 1700000002000]
  by (simp add: loot_def duration_def score_def)

text \<open>
  C6. \<^verbatim>\<open>createRaidEntry\<close> on a registry of at most 10 raids leaves at most 10: the result is
  the old registry with the new raid at its end, less \<open>k\<close> raids from the front. When the
  registry held 10 the oldest is among them, whatever its \<^verbatim>\<open>addedToSheet\<close>; every further
  raid dropped is older than 300 s, and the raid now at the front is not. From the module
  as loaded every registry has at most 10 raids.
\<close>

theorem createRaidEntry_bounded_fifo:
  "(length (recentRaids s) \<le> 10 \<and> createRaidEntry dat s = (r, s') \<longrightarrow>
      length (recentRaids s') \<le> 10
      \<and> (\<exists>k. recentRaids s' = drop k (recentRaids s @ [r])
            \<and> (length (recentRaids s) = 10 \<longrightarrow> 0 < k)
            \<and> (\<forall>j. (if length (recentRaids s) = 10 then 1 else 0) \<le> j \<and> j < k
                   \<longrightarrow> timestamp ((recentRaids s @ [r]) ! j) < clock s - 300000)
            \<and> (k \<le> length (recentRaids s)
                   \<longrightarrow> clock s - 300000 \<le> timestamp ((recentRaids s @ [r]) ! k))))
   \<and> length (recentRaids (run evs (init_state t w))) \<le> 10"
proof (intro conjI impI)
  assume a: "length (recentRaids s) \<le> 10 \<and> createRaidEntry dat s = (r, s')"
  then have c: "createRaidEntry dat s = (r, s')" by simp
  obtain k where k: "k \<le> Suc (length (recentRaids s))"
      "recentRaids s' = drop k (recentRaids s @ [r])"
      "MAX_RAID_HISTORY \<le> length (recentRaids s) \<longrightarrow> 0 < k"
      "\<forall>j. (if MAX_RAID_HISTORY \<le> length (recentRaids s) then 1 else 0) \<le> j \<and> j < k
                 \<longrightarrow> timestamp ((recentRaids s @ [r]) ! j) < clock s - RAID_TIMEOUT"
      "k < Suc (length (recentRaids s))
                 \<longrightarrow> clock s - RAID_TIMEOUT \<le> timestamp ((recentRaids s @ [r]) ! k)"
    using createRaidEntry_shape [OF c] by blast
  have full: "MAX_RAID_HISTORY \<le> length (recentRaids s) \<longleftrightarrow> length (recentRaids s) = 10"
    using a by (auto simp: MAX_RAID_HISTORY_def)
  have "length (recentRaids s') = Suc (length (recentRaids s)) - k" using k(2) by simp
  then show "length (recentRaids s') \<le> 10"
    using a k(3) full by (cases "length (recentRaids s) = 10") auto
  show "\<exists>k. recentRaids s' = drop k (recentRaids s @ [r])
            \<and> (length (recentRaids s) = 10 \<longrightarrow> 0 < k)
            \<and> (\<forall>j. (if length (recentRaids s) = 10 then 1 else 0) \<le> j \<and> j < k
                   \<longrightarrow> timestamp ((recentRaids s @ [r]) ! j) < clock s - 300000)
            \<and> (k \<le> length (recentRaids s)
                   \<longrightarrow> clock s - 300000 \<le> timestamp ((recentRaids s @ [r]) ! k))"
    using k(2,3,4,5) unfolding full RAID_TIMEOUT_def
    by (intro exI [of _ k]) (simp add: less_Suc_eq_le)
next
  have "length (recentRaids (run evs (init_state t w))) \<le> MAX_RAID_HISTORY"
    by (rule run_length) (simp add: init_state_def)
  then show "length (recentRaids (run evs (init_state t w))) \<le> 10"
    by (simp add: MAX_RAID_HISTORY_def)
qed

theorem createRaidEntry_bounded_fifo_witness:
  "length (recentRaids fullRegistry) = 10
   \<and> length (recentRaids (snd (createRaidEntry (score 1700000100000 300000 ''Hyperr'' 90000)
                                  fullRegistry))) \<le> 10
   \<and> (\<exists>k>0. recentRaids (snd (createRaidEntry (score 1700000100000 300000 ''Hyperr'' 90000)
                                  fullRegistry))
             = drop k (recentRaids fullRegistry
                       @ [fst (createRaidEntry (score 1700000100000 300000 ''Hyperr'' 90000)
                                 fullRegistry)]))"
proof -
  have l: "length (recentRaids fullRegistry) = 10"
    by (simp add: fullRegistry_def init_state_def)
  let ?dat = "score 1700000100000 300000 ''Hyperr'' 90000"
  let ?r = "fst (createRaidEntry ?dat fullRegistry)"
  let ?s' = "snd (createRaidEntry ?dat fullRegistry)"
  have "length (recentRaids ?s') \<le> 10
      \<and> (\<exists>k. recentRaids ?s' = drop k (recentRaids fullRegistry @ [?r])
            \<and> (length (recentRaids fullRegistry) = 10 \<longrightarrow> 0 < k)
            \<and> (\<forall>j. (if length (recentRaids fullRegistry) = 10 then 1 else 0) \<le> j \<and> j < k
                   \<longrightarrow> timestamp ((recentRaids fullRegistry @ [?r]) ! j)
                        < clock fullRegistry - 300000)
            \<and> (k \<le> length (recentRaids fullRegistry)
                   \<longrightarrow> clock fullRegistry - 300000
                        \<le> timestamp ((recentRaids fullRegistry @ [?r]) ! k)))"
    using createRaidEntry_bounded_fifo [of fullRegistry ?dat ?r ?s' "[]" 0 storeUp] l
    by simp
  then show ?thesis using l by blast
qed

section \<open>Retry contract of the gateway\<close>

text \<open>
  C8, the failing input. With a client in place and a store that answers 401,
  \<^verbatim>\<open>updateRow\<close> throws at once: one call, the client handle kept, no retry. On the same
  input \<^verbatim>\<open>appendRow\<close> drops the handle and tries to create the client again three times,
  2 s apart, before it throws.
\<close>

theorem updateRow_auth_error_not_retried:
  "updateRow 2 [CStr ''x''] 0 (connected authDown)
     = (Inl \<lparr>code = Some 401, message = ''Invalid credentials''\<rparr>,
        (connected authDown)\<lparr>calls := [(1700000000000, ValuesUpdate 2 [CStr ''x''])]\<rparr>)
   \<and> sheetsClient (snd (updateRow 2 [CStr ''x''] 0 (connected authDown)))
   \<and> fst (appendRow [CStr ''x''] 0 (connected authDown))
       = Inl \<lparr>code = Some 401, message = ''Invalid credentials''\<rparr>
   \<and> calls (snd (appendRow [CStr ''x''] 0 (connected authDown)))
       = [(1700000000000, ValuesAppend [CStr ''x'']), (1700000002000, GetClient),
          (1700000004000, GetClient), (1700000006000, GetClient)]
   \<and> \<not> sheetsClient (snd (appendRow [CStr ''x''] 0 (connected authDown)))"
  by (simp add: updateRow.simps appendRow.simps updateRow_try_def appendRow_try_def
        ensureClient_def awaitCooldown_def api_def initializeSheetsClient_def sleep_def
        connected_def init_state_def authDown_def isRateLimit_def isAuthError_def
        RATE_LIMIT_COOLDOWN_def MAX_RETRIES_def RETRY_DELAY_def Let_def)

section \<open>Orphan reconciliation\<close>

text \<open>
  C2, the failing input. Two clients report the same drop before the score arrives: both
  loot orphans are merged into the new raid, which lists the player twice. On the normal
  loot path, after the score, the second report is dropped.
\<close>

theorem mergeOrphansWithRaid_keeps_duplicate_loot:
  "map uniqueDrop
     (recentRaids (run [(1700000000000, loot 1700000000000 ''Hyperr'' ''Twisted bow''),
                        (1700000000500, loot 1700000000500 ''Hyperr'' ''Twisted bow''),
                        (1700000001000, score 1700000001000 291233 ''Hyperr'' 94987)]
                     (init_state 1700000000000 storeUp)))
     = [''(Hyperr) - Twisted bow, (Hyperr) - Twisted bow'']
   \<and> map uniqueDrop
     (recentRaids (run [(1700000001000, score 1700000001000 291233 ''Hyperr'' 94987),
                        (1700000001100, loot 1700000001100 ''Hyperr'' ''Twisted bow''),
                        (1700000001500, loot 1700000001500 ''Hyperr'' ''Twisted bow'')]
                     (init_state 1700000000000 storeUp)))
     = [''(Hyperr) - Twisted bow'']"
  by code_simp

section \<open>Errors at the entry point\<close>

text \<open>
  C1, the counterexample. A score arrives while the store answers every call with a
  server error: the append fails and \<^verbatim>\<open>appendToSheet\<close> throws that error to its caller.
\<close>

theorem appendToSheet_propagates_store_failure:
  "d_type (score 1700000000000 291233 ''Hyperr'' 94987) = ''points''
   \<and> fst (appendToSheet (score 1700000000000 291233 ''Hyperr'' 94987) (connected storeDown))
       = Inl \<lparr>code = Some 500, message = ''Internal error''\<rparr>"
  by code_simp

section \<open>Orphan time to live\<close>

lemma cleanOrphans_forgetDurations:
  assumes "t + 10001 \<le> clock s"
  shows "cleanOrphans (forgetDurations t s) = cleanOrphans s"
proof -
  have "filter (\<lambda>orphan. clock s - ORPHAN_TIMEOUT \<le> do_timestamp orphan)
          (filter (\<lambda>orphan. t < do_timestamp orphan) (durations s))
      = filter (\<lambda>orphan. clock s - ORPHAN_TIMEOUT \<le> do_timestamp orphan) (durations s)"
    using assms by (auto simp: ORPHAN_TIMEOUT_def intro!: filter_cong)
  then show ?thesis by (simp add: cleanOrphans_def forgetDurations_def Let_def)
qed

text \<open>
  C9. A duration orphan enters the buffer with the timestamp of its notification, which
  the parser sets before the notification is handled, so an orphan buffered at time \<open>t\<close>
  is stamped \<open>t\<close> or earlier. Once the clock reads \<open>t + 10001\<close> or more, the clean-up that
  every handler runs first leaves no such orphan, and every notification has the outcome
  it has from the buffer without these orphans; only a notification that is dropped
  unhandled (a stale score, an unknown type) leaves the state, and the buffer, as it is.
\<close>

theorem expired_duration_orphan_unreachable:
  assumes "t + 10001 \<le> clock s"
  shows "list_all (\<lambda>orphan. t < do_timestamp orphan) (durations (cleanOrphans s))
     \<and> (if d_type dat = ''points'' \<and> clock s - d_timestamp dat > 300000
           \<or> d_type dat \<notin> {''points'', ''duration'', ''loot''}
         then snd (appendToSheet dat s) = s
         else appendToSheet dat s = appendToSheet dat (forgetDurations t s))
     \<and> (\<forall>orphan \<in> set (durations (snd (handleDurationUpdate dat s))).
           orphan \<in> set (durations s) \<or> do_timestamp orphan = d_timestamp dat)"
proof (intro conjI)
  show "list_all (\<lambda>orphan. t < do_timestamp orphan) (durations (cleanOrphans s))"
    using assms by (auto simp: cleanOrphans_def Let_def list_all_iff ORPHAN_TIMEOUT_def)
next
  note c = cleanOrphans_forgetDurations [OF assms]
  have clk: "clock (forgetDurations t s) = clock s" by (simp add: forgetDurations_def)
  have d: "handleDurationUpdate dat (forgetDurations t s) = handleDurationUpdate dat s"
    unfolding handleDurationUpdate_def c ..
  have l: "handleLootDrop dat (forgetDurations t s) = handleLootDrop dat s"
    unfolding handleLootDrop_def c ..
  have p: "\<not> clock s - d_timestamp dat > 300000
      \<Longrightarrow> handleRaidCompletion dat (forgetDurations t s) = handleRaidCompletion dat s"
    unfolding handleRaidCompletion_def c clk by (simp add: MAX_DATA_AGE_def)
  show "if d_type dat = ''points'' \<and> clock s - d_timestamp dat > 300000
           \<or> d_type dat \<notin> {''points'', ''duration'', ''loot''}
         then snd (appendToSheet dat s) = s
         else appendToSheet dat s = appendToSheet dat (forgetDurations t s)"
    using d l p
    by (auto simp: appendToSheet_def handleRaidCompletion_def MAX_DATA_AGE_def)
next
  have u: "\<And>n r s0. durations (snd (updateRow n r 0 s0)) = durations s0"
    using frame_updateRow by (simp add: frame_def)
  show "\<forall>orphan \<in> set (durations (snd (handleDurationUpdate dat s))).
           orphan \<in> set (durations s) \<or> do_timestamp orphan = d_timestamp dat"
    unfolding handleDurationUpdate_def
    by (auto simp: Let_def u putRaid_def cleanOrphans_def split: option.splits)
qed

theorem expired_duration_orphan_unreachable_witness:
  "1700000000000 + 10001 \<le> clock staleOrphan
   \<and> durations (cleanOrphans staleOrphan) = []
   \<and> appendToSheet (score 1700000010001 291233 ''Hyperr'' 94987) staleOrphan
       = appendToSheet (score 1700000010001 291233 ''Hyperr'' 94987)
           (staleOrphan\<lparr>durations := []\<rparr>)"
proof -
  have h: "1700000000000 + 10001 \<le> clock staleOrphan"
    by (simp add: staleOrphan_def init_state_def)
  have f: "forgetDurations 1700000000000 staleOrphan = staleOrphan\<lparr>durations := []\<rparr>"
    by (simp add: forgetDurations_def staleOrphan_def)
  have e: "durations (cleanOrphans staleOrphan) = []"
    by (simp add: cleanOrphans_def staleOrphan_def init_state_def ORPHAN_TIMEOUT_def)
  let ?dat = "score 1700000010001 291233 ''Hyperr'' 94987"
  have ty: "d_type ?dat = ''points''" by (simp add: score_def)
  have ns: "\<not> clock staleOrphan - d_timestamp ?dat > 300000"
    by (simp add: score_def staleOrphan_def init_state_def)
  have "appendToSheet ?dat staleOrphan
      = appendToSheet ?dat (forgetDurations 1700000000000 staleOrphan)"
    using expired_duration_orphan_unreachable [OF h, of ?dat] ty ns by simp
  then show ?thesis using h e f by simp
qed

section \<open>A store that never fails\<close>

lemma storeNeverFails_frame: "frame s s' \<Longrightarrow> storeNeverFails s \<Longrightarrow> storeNeverFails s'"
  by (simp add: frame_def storeNeverFails_def)

lemma api_ok:
  assumes "storeNeverFails s"
  shows "\<exists>r. api c s = (Success r, s\<lparr>calls := calls s @ [(clock s, c)]\<rparr>)"
proof (cases "world s (length (calls s))")
  case (Success r)
  then show ?thesis by (simp add: api_def)
next
  case (Failure e)
  then show ?thesis using assms by (simp add: storeNeverFails_def)
qed

lemma initializeSheetsClient_ok:
  assumes "storeNeverFails s"
  shows "fst (initializeSheetsClient s) = Inr ()"
proof -
  obtain r where "api GetClient s = (Success r, s\<lparr>calls := calls s @ [(clock s, GetClient)]\<rparr>)"
    using api_ok [OF assms] by blast
  then show ?thesis by (simp add: initializeSheetsClient_def)
qed

lemma ensureSheetsExist_ok:
  assumes "storeNeverFails s"
  shows "fst (ensureSheetsExist s) = Inr ()"
proof -
  obtain x s1 where i: "(if \<not> sheetsClient s then initializeSheetsClient s else (Inr (), s)) = (x, s1)"
    by (cases "if \<not> sheetsClient s then initializeSheetsClient s else (Inr (), s)")
  have x: "x = Inr ()"
    using i initializeSheetsClient_ok [OF assms] by (auto split: if_splits)
  have "frame s s1"
    using i frame_initializeSheetsClient [of s] frame_refl [of s] by (auto split: if_splits)
  then have ok1: "storeNeverFails s1" using assms storeNeverFails_frame by blast
  obtain r where g: "api SpreadsheetsGet s1
      = (Success r, s1\<lparr>calls := calls s1 @ [(clock s1, SpreadsheetsGet)]\<rparr>)"
    using api_ok [OF ok1] by blast
  let ?s2 = "s1\<lparr>calls := calls s1 @ [(clock s1, SpreadsheetsGet)]\<rparr>"
  have ok2: "storeNeverFails ?s2" using ok1 by (simp add: storeNeverFails_def)
  obtain r' where b: "api BatchUpdate ?s2
      = (Success r', ?s2\<lparr>calls := calls ?s2 @ [(clock ?s2, BatchUpdate)]\<rparr>)"
    using api_ok [OF ok2] by blast
  show ?thesis
    unfolding ensureSheetsExist_def i x using g b by simp
qed

lemma ensureClient_ok:
  assumes "storeNeverFails s"
  shows "fst (ensureClient s) = Inr ()"
proof (cases "sheetsClient s")
  case True
  then show ?thesis by (simp add: ensureClient_def)
next
  case False
  obtain x s1 where i: "initializeSheetsClient s = (x, s1)" by (cases "initializeSheetsClient s")
  have x: "x = Inr ()" using i initializeSheetsClient_ok [OF assms] by simp
  have "frame s s1" using i frame_initializeSheetsClient [of s] by simp
  then have "storeNeverFails s1" using assms storeNeverFails_frame by blast
  from ensureSheetsExist_ok [OF this] show ?thesis
    using False i x by (simp add: ensureClient_def)
qed

lemma gateway_ready:
  assumes "storeNeverFails s"
  obtains s1 where "ensureClient (awaitCooldown s) = (Inr (), s1)" "storeNeverFails s1"
proof -
  have ok0: "storeNeverFails (awaitCooldown s)"
    using assms frame_awaitCooldown storeNeverFails_frame by blast
  obtain x s1 where e: "ensureClient (awaitCooldown s) = (x, s1)"
    by (cases "ensureClient (awaitCooldown s)")
  have "x = Inr ()" using e ensureClient_ok [OF ok0] by simp
  moreover have "frame (awaitCooldown s) s1"
    using e frame_ensureClient [of "awaitCooldown s"] by simp
  ultimately show ?thesis using that e ok0 storeNeverFails_frame by blast
qed

lemma appendRow_ok:
  assumes "storeNeverFails s"
  shows "\<exists>resp. fst (appendRow r n s) = Inr resp"
proof -
  obtain s1 where s1: "ensureClient (awaitCooldown s) = (Inr (), s1)" "storeNeverFails s1"
    using gateway_ready [OF assms] by blast
  obtain resp where "api (ValuesAppend r) s1
      = (Success resp, s1\<lparr>calls := calls s1 @ [(clock s1, ValuesAppend r)]\<rparr>)"
    using api_ok [OF s1(2)] by blast
  then have "fst (appendRow_try r s) = Inr resp" using s1(1) by (simp add: appendRow_try_def)
  then show ?thesis
    by (subst appendRow.simps) (auto split: prod.splits sum.splits)
qed

lemma updateRow_ok:
  assumes "storeNeverFails s"
  shows "fst (updateRow k r n s) = Inr ()"
proof -
  obtain s1 where s1: "ensureClient (awaitCooldown s) = (Inr (), s1)" "storeNeverFails s1"
    using gateway_ready [OF assms] by blast
  obtain resp where "api (ValuesUpdate k r) s1
      = (Success resp, s1\<lparr>calls := calls s1 @ [(clock s1, ValuesUpdate k r)]\<rparr>)"
    using api_ok [OF s1(2)] by blast
  then have "fst (updateRow_try k r s) = Inr ()" using s1(1) by (simp add: updateRow_try_def)
  then show ?thesis
    by (subst updateRow.simps) (auto split: prod.splits sum.splits)
qed

lemma persistRaid_ok:
  assumes "storeNeverFails s"
  shows "\<exists>x. fst (persistRaid ref r s) = Inr x"
proof -
  obtain resp where a: "fst (appendRow (raidToRow r) 0 s) = Inr resp"
    using appendRow_ok [OF assms] by blast
  have u: "\<And>n. fst (updateRow n (raidToRow r) 0 s) = Inr ()"
    using updateRow_ok [OF assms] by simp
  obtain sa where sa: "appendRow (raidToRow r) 0 s = (Inr resp, sa)"
    using a by (cases "appendRow (raidToRow r) 0 s") simp
  have u': "\<And>n. \<exists>su. updateRow n (raidToRow r) 0 s = (Inr (), su)"
    using u by (metis prod.collapse)
  show ?thesis
  proof (cases "persistedRow r")
    case None
    then show ?thesis using sa
      by (auto simp: persistRaid_def Let_def split: option.splits)
  next
    case (Some n)
    obtain su where "updateRow n (raidToRow r) 0 s = (Inr (), su)" using u' by blast
    then show ?thesis using sa Some
      by (auto simp: persistRaid_def Let_def split: option.splits)
  qed
qed

lemma addToExistingRaid_ok:
  assumes "storeNeverFails s"
  shows "\<exists>x. fst (addToExistingRaid dat i s) = Inr x"
proof -
  define r where "r = (if totalPoints (recentRaids s ! i) = None
                        then (recentRaids s ! i)\<lparr>totalPoints := d_totalPoints dat\<rparr>
                        else recentRaids s ! i)"
  show ?thesis
  proof (cases "d_players dat")
    case Nil
    then show ?thesis by (simp add: addToExistingRaid_def Let_def)
  next
    case (Cons p rest)
    show ?thesis
    proof (cases "points p < MIN_POINTS_THRESHOLD \<or> \<not> length (players r) < MAX_PLAYERS
                  \<or> playerExists p r")
      case True
      then show ?thesis using Cons
        by (auto simp: addToExistingRaid_def Let_def r_def)
    next
      case False
      define r2 where "r2 = r\<lparr>players := players r @ [p]\<rparr>"
      define s2 where "s2 = putRaid i r2 (putRaid i r s)"
      have ok2: "storeNeverFails s2"
        using assms by (simp add: s2_def storeNeverFails_def putRaid_def)
      have res: "addToExistingRaid dat i s =
          (case persistedRow r2 of
             Some n \<Rightarrow> (case updateRow n (raidToRow r2) 0 s2 of
                          (Inl e, s3) \<Rightarrow> (Inl e, s3)
                        | (Inr _, s3) \<Rightarrow> (Inr (Some r2), s3))
           | None \<Rightarrow> (Inr (Some r2), s2\<lparr>scheduled := scheduled s2 @ [(clock s2 + 2000, i)]\<rparr>))"
        unfolding r2_def s2_def using False Cons
        by (simp add: addToExistingRaid_def Let_def r_def [symmetric])
      show ?thesis
      proof (cases "persistedRow r2")
        case None
        then show ?thesis using res by simp
      next
        case (Some n)
        obtain su where "updateRow n (raidToRow r2) 0 s2 = (Inr (), su)"
          using updateRow_ok [OF ok2, of n "raidToRow r2" 0] by (metis prod.collapse)
        then show ?thesis using res Some by simp
      qed
    qed
  qed
qed

lemma world_cleanOrphans [simp]: "storeNeverFails (cleanOrphans s) = storeNeverFails s"
  by (simp add: storeNeverFails_def cleanOrphans_def Let_def)

lemma handleRaidCompletion_ok:
  assumes "storeNeverFails s"
  shows "\<exists>x. fst (handleRaidCompletion dat s) = Inr x"
proof (cases "clock s - d_timestamp dat > MAX_DATA_AGE")
  case True
  then show ?thesis by (simp add: hrc_stale)
next
  case fresh: False
  have ok1: "storeNeverFails (cleanOrphans s)" using assms by simp
  show ?thesis
  proof (cases "findRaidByTotalPoints (d_totalPoints dat) s")
    case (Some i)
    show ?thesis using hrc_found [OF fresh Some] addToExistingRaid_ok [OF ok1] by simp
  next
    case None
    show ?thesis
    proof (cases "findRaidByTotalPoints None s")
      case (Some j)
      obtain r s2 where p: "promotePlaceholder dat j (cleanOrphans s) = (r, s2)"
        by (cases "promotePlaceholder dat j (cleanOrphans s)")
      have "s2\<lparr>recentRaids := recentRaids (cleanOrphans s)\<rparr> = cleanOrphans s"
        using promotePlaceholder_registry [OF p] by simp
      from arg_cong [OF this, of world] have "storeNeverFails s2"
        using ok1 by (simp add: storeNeverFails_def)
      then show ?thesis using hrc_promote [OF fresh None Some p] persistRaid_ok by simp
    next
      case n2: None
      obtain ref r s2 where c: "createAndMerge dat (cleanOrphans s) = (ref, r, s2)"
        by (cases "createAndMerge dat (cleanOrphans s)") auto
      have "s2\<lparr>recentRaids := recentRaids (cleanOrphans s),
               durations := durations (cleanOrphans s),
               loots := loots (cleanOrphans s)\<rparr> = cleanOrphans s"
        using createAndMerge_shape [OF c] by simp
      from arg_cong [OF this, of world] have "storeNeverFails s2"
        using ok1 by (simp add: storeNeverFails_def)
      then show ?thesis using hrc_create [OF fresh None n2 c] persistRaid_ok by simp
    qed
  qed
qed

lemma handleDurationUpdate_ok:
  assumes "storeNeverFails s"
  shows "fst (handleDurationUpdate dat s) = Inr ()"
proof -
  have "\<And>i r n. fst (updateRow n (raidToRow r) 0 (putRaid i r (cleanOrphans s))) = Inr ()"
    using assms by (intro updateRow_ok) (simp add: storeNeverFails_def putRaid_def cleanOrphans_def Let_def)
  then show ?thesis
    by (simp add: handleDurationUpdate_def Let_def split: option.splits)
qed

lemma handleLootDrop_ok:
  assumes "storeNeverFails s"
  shows "fst (handleLootDrop dat s) = Inr ()"
proof -
  have "\<And>i r n. fst (updateRow n (raidToRow r) 0 (putRaid i r (cleanOrphans s))) = Inr ()"
    using assms by (intro updateRow_ok) (simp add: storeNeverFails_def putRaid_def cleanOrphans_def Let_def)
  then show ?thesis
    by (simp add: handleLootDrop_def Let_def split: option.splits)
qed

section \<open>Team-size gate on the score path\<close>

lemma calls_frame: "frame s s' \<Longrightarrow> \<exists>more. calls s' = calls s @ more"
  by (simp add: frame_def prefix_def)

lemma gateway_first_call:
  "\<exists>t rest. calls (snd (ensureClient (awaitCooldown s)))
      = calls s @ (if sheetsClient s then [] else (t, GetClient) # rest)"
proof -
  let ?s0 = "awaitCooldown s"
  have c0: "calls ?s0 = calls s" "sheetsClient ?s0 = sheetsClient s"
    by (simp_all add: awaitCooldown_def sleep_def)
  show ?thesis
  proof (cases "sheetsClient s")
    case True
    then show ?thesis using c0 by (simp add: ensureClient_def)
  next
    case False
    obtain x s1 where i: "initializeSheetsClient ?s0 = (x, s1)"
      by (cases "initializeSheetsClient ?s0")
    have c1: "calls s1 = calls s @ [(clock ?s0, GetClient)]"
      using i c0 by (auto simp: initializeSheetsClient_def api_def split: api_result.splits)
    have "frame s1 (snd (ensureClient ?s0))"
      using i False c0 frame_ensureSheetsExist [of s1] frame_refl [of s1]
      by (cases x) (simp_all add: ensureClient_def)
    then obtain more where "calls (snd (ensureClient ?s0)) = calls s1 @ more"
      using calls_frame by blast
    then show ?thesis using c1 False by simp
  qed
qed

lemma appendRow_try_first_call:
  "\<exists>t rest. calls (snd (appendRow_try r s))
      = calls s @ (t, if sheetsClient s then ValuesAppend r else GetClient) # rest"
proof -
  obtain x s1 where e: "ensureClient (awaitCooldown s) = (x, s1)"
    by (cases "ensureClient (awaitCooldown s)")
  obtain t rest where g: "calls s1 = calls s @ (if sheetsClient s then [] else (t, GetClient) # rest)"
    using gateway_first_call [of s] e by auto
  show ?thesis
  proof (cases x)
    case (Inl err)
    have "\<not> sheetsClient s"
    proof
      assume "sheetsClient s"
      then have "ensureClient (awaitCooldown s) = (Inr (), awaitCooldown s)"
        by (simp add: ensureClient_def awaitCooldown_def sleep_def)
      then show False using e Inl by simp
    qed
    then show ?thesis using e Inl g by (simp add: appendRow_try_def)
  next
    case (Inr u)
    have "calls (snd (appendRow_try r s)) = calls s1 @ [(clock s1, ValuesAppend r)]"
      using e Inr by (auto simp: appendRow_try_def api_def split: api_result.splits)
    then show ?thesis using g by (cases "sheetsClient s") simp_all
  qed
qed

lemma updateRow_try_first_call:
  "\<exists>t rest. calls (snd (updateRow_try n r s))
      = calls s @ (t, if sheetsClient s then ValuesUpdate n r else GetClient) # rest"
proof -
  obtain x s1 where e: "ensureClient (awaitCooldown s) = (x, s1)"
    by (cases "ensureClient (awaitCooldown s)")
  obtain t rest where g: "calls s1 = calls s @ (if sheetsClient s then [] else (t, GetClient) # rest)"
    using gateway_first_call [of s] e by auto
  show ?thesis
  proof (cases x)
    case (Inl err)
    have "\<not> sheetsClient s"
    proof
      assume "sheetsClient s"
      then have "ensureClient (awaitCooldown s) = (Inr (), awaitCooldown s)"
        by (simp add: ensureClient_def awaitCooldown_def sleep_def)
      then show False using e Inl by simp
    qed
    then show ?thesis using e Inl g by (simp add: updateRow_try_def)
  next
    case (Inr u)
    have "calls (snd (updateRow_try n r s)) = calls s1 @ [(clock s1, ValuesUpdate n r)]"
      using e Inr by (auto simp: updateRow_try_def api_def split: api_result.splits)
    then show ?thesis using g by (cases "sheetsClient s") simp_all
  qed
qed

lemma appendRow_after_try: "frame (snd (appendRow_try r s)) (snd (appendRow r n s))"
proof -
  obtain x s1 where t: "appendRow_try r s = (x, s1)" by (cases "appendRow_try r s")
  have a: "\<And>s'. frame s1 s' \<Longrightarrow> frame s1 (snd (appendRow r (Suc n) s'))"
    using frame_appendRow frame_trans by blast
  have f2: "frame s1 (sleep (RETRY_DELAY * 2 ^ n) (s1\<lparr>lastRateLimitError := clock s1\<rparr>))"
    and f3: "frame s1 (sleep RETRY_DELAY (s1\<lparr>sheetsClient := False\<rparr>))"
    and f4: "frame s1 (s1\<lparr>lastRateLimitError := clock s1\<rparr>)"
    and f5: "frame s1 (s1\<lparr>sheetsClient := False\<rparr>)"
    by (simp_all add: frame_def sleep_def)
  show ?thesis
    by (subst appendRow.simps)
       (use t a [OF f2] a [OF f3] f4 f5 frame_refl [of s1] in
          \<open>auto simp: Let_def split: sum.splits\<close>)
qed

lemma updateRow_after_try: "frame (snd (updateRow_try k r s)) (snd (updateRow k r n s))"
proof -
  obtain x s1 where t: "updateRow_try k r s = (x, s1)" by (cases "updateRow_try k r s")
  have a: "\<And>s'. frame s1 s' \<Longrightarrow> frame s1 (snd (updateRow k r (Suc n) s'))"
    using frame_updateRow frame_trans by blast
  have f2: "frame s1 (sleep (RETRY_DELAY * 2 ^ n) (s1\<lparr>lastRateLimitError := clock s1\<rparr>))"
    and f4: "frame s1 (s1\<lparr>lastRateLimitError := clock s1\<rparr>)"
    by (simp_all add: frame_def sleep_def)
  show ?thesis
    by (subst updateRow.simps)
       (use t a [OF f2] f4 frame_refl [of s1] in \<open>auto simp: Let_def split: sum.splits\<close>)
qed

lemma appendRow_first_call:
  "\<exists>t rest. calls (snd (appendRow r n s))
      = calls s @ (t, if sheetsClient s then ValuesAppend r else GetClient) # rest"
proof -
  obtain t rest where "calls (snd (appendRow_try r s))
      = calls s @ (t, if sheetsClient s then ValuesAppend r else GetClient) # rest"
    using appendRow_try_first_call by blast
  moreover obtain more where "calls (snd (appendRow r n s)) = calls (snd (appendRow_try r s)) @ more"
    using calls_frame [OF appendRow_after_try] by blast
  ultimately show ?thesis by simp
qed

lemma updateRow_first_call:
  "\<exists>t rest. calls (snd (updateRow k r n s))
      = calls s @ (t, if sheetsClient s then ValuesUpdate k r else GetClient) # rest"
proof -
  obtain t rest where "calls (snd (updateRow_try k r s))
      = calls s @ (t, if sheetsClient s then ValuesUpdate k r else GetClient) # rest"
    using updateRow_try_first_call by blast
  moreover obtain more where "calls (snd (updateRow k r n s)) = calls (snd (updateRow_try k r s)) @ more"
    using calls_frame [OF updateRow_after_try] by blast
  ultimately show ?thesis by simp
qed

lemma isScaleLargeEnough_iff:
  "isScaleLargeEnough sc \<longleftrightarrow>
     sc = [] \<or> takeWhile is_digit sc = [] \<or> 10 \<le> parseInt (takeWhile is_digit sc)"
  by (auto simp: isScaleLargeEnough_def Let_def MIN_TEAM_SIZE_def)

lemma made_shape:
  assumes fresh: "clock s - d_timestamp dat \<le> 300000"
    and made: "(case findRaidByTotalPoints None s of
            Some j \<Rightarrow> (case promotePlaceholder dat j (cleanOrphans s) of (r, s2) \<Rightarrow> (Some j, r, s2))
          | None \<Rightarrow> createAndMerge dat (cleanOrphans s)) = (ref, r, s2)"
  shows "calls s2 = calls s \<and> sheetsClient s2 = sheetsClient s
     \<and> (\<exists>i < length (recentRaids s2). ref = Some i \<and> recentRaids s2 ! i = r)
     \<and> (findRaidByTotalPoints None s = None \<longrightarrow>
           \<not> addedToSheet r \<and> totalPoints r = d_totalPoints dat)"
proof (cases "findRaidByTotalPoints None s")
  case (Some j)
  then have p: "promotePlaceholder dat j (cleanOrphans s) = (r, s2)" and ref: "ref = Some j"
    using made by (auto split: prod.splits)
  note pr = promotePlaceholder_registry [OF p]
  have eq: "s2\<lparr>recentRaids := recentRaids (cleanOrphans s)\<rparr> = cleanOrphans s" using pr by simp
  have j: "j < length (recentRaids s)" using findRaidByTotalPoints_less [OF Some] .
  have "calls s2 = calls s" "sheetsClient s2 = sheetsClient s"
    using arg_cong [OF eq, of calls] arg_cong [OF eq, of sheetsClient]
    by (simp_all add: cleanOrphans_def Let_def)
  moreover have "j < length (recentRaids s2)" "recentRaids s2 ! j = r"
    using pr j by simp_all
  ultimately show ?thesis using ref Some by simp
next
  case None
  then have c: "createAndMerge dat (cleanOrphans s) = (ref, r, s2)" using made by simp
  note cs = createAndMerge_shape [OF c]
  have eq: "s2\<lparr>recentRaids := recentRaids (cleanOrphans s),
               durations := durations (cleanOrphans s),
               loots := loots (cleanOrphans s)\<rparr> = cleanOrphans s"
    using cs by simp
  have cl: "calls s2 = calls s" "sheetsClient s2 = sheetsClient s"
    using arg_cong [OF eq, of calls] arg_cong [OF eq, of sheetsClient]
    by (simp_all add: cleanOrphans_def Let_def)
  have fr: "clock (cleanOrphans s) - RAID_TIMEOUT \<le> d_timestamp dat"
    using fresh by (simp add: cleanOrphans_def Let_def RAID_TIMEOUT_def)
  obtain k where k: "k \<le> length (recentRaids s)"
      "recentRaids s2 = drop k (recentRaids s @ [r])"
      "ref = Some (length (recentRaids s) - k)"
    using cs fr by (auto split: if_splits)
  have "length (recentRaids s) - k < length (recentRaids s2)"
       "recentRaids s2 ! (length (recentRaids s) - k) = r"
    using k by (simp_all add: nth_append)
  moreover have "\<not> addedToSheet r" "totalPoints r = d_totalPoints dat"
    using cs by (simp_all add: ident_def newRaid_def)
  ultimately show ?thesis using cl k(3) by simp
qed

text \<open>
  C7. On the score path, when no raid matches the total points, the raid \<open>r\<close> that is
  promoted or created (with the orphans merged into it) is checked by the team-size gate.
  If its scale starts with digits that read as a number below 10, the handler returns
  with no call to the store, and the raid is in the registry. If the scale is empty, does
  not start with a digit, or starts with a number of at least 10, the gate lets it
  through: a raid with total points that was not yet added is appended and one that was
  added is updated (the first call to the store is that append or update, or the creation
  of the client when there is none). A created raid is never added already and has the
  total points of the score.
\<close>

theorem team_size_gate:
  assumes "clock s - d_timestamp dat \<le> 300000"
    and "findRaidByTotalPoints (d_totalPoints dat) s = None"
    and "(case findRaidByTotalPoints None s of
            Some j \<Rightarrow> (case promotePlaceholder dat j (cleanOrphans s) of (r, s2) \<Rightarrow> (Some j, r, s2))
          | None \<Rightarrow> createAndMerge dat (cleanOrphans s)) = (ref, r, s2)"
  shows "(scale r \<noteq> [] \<and> takeWhile is_digit (scale r) \<noteq> []
            \<and> parseInt (takeWhile is_digit (scale r)) < 10 \<longrightarrow>
          handleRaidCompletion dat s = (Inr (Some r), s2) \<and> calls s2 = calls s
          \<and> (\<exists>i < length (recentRaids s2). recentRaids s2 ! i = r))
     \<and> ((scale r = [] \<or> takeWhile is_digit (scale r) = []
            \<or> 10 \<le> parseInt (takeWhile is_digit (scale r)))
          \<and> totalPoints r \<noteq> None \<and> \<not> addedToSheet r \<longrightarrow>
          (\<exists>t rest. calls (snd (handleRaidCompletion dat s))
             = calls s @ (t, if sheetsClient s then ValuesAppend (raidToRow r) else GetClient) # rest))
     \<and> ((scale r = [] \<or> takeWhile is_digit (scale r) = []
            \<or> 10 \<le> parseInt (takeWhile is_digit (scale r)))
          \<and> addedToSheet r \<and> persistedRow r = Some n \<longrightarrow>
          (\<exists>t rest. calls (snd (handleRaidCompletion dat s))
             = calls s @ (t, if sheetsClient s then ValuesUpdate n (raidToRow r) else GetClient) # rest))
     \<and> (findRaidByTotalPoints None s = None \<longrightarrow>
          \<not> addedToSheet r \<and> totalPoints r = d_totalPoints dat)"
proof -
  note ms = made_shape [OF assms(1,3)]
  have fresh: "\<not> clock s - d_timestamp dat > MAX_DATA_AGE"
    using assms(1) by (simp add: MAX_DATA_AGE_def)
  have h: "handleRaidCompletion dat s = persistRaid ref r s2"
  proof (cases "findRaidByTotalPoints None s")
    case (Some j)
    then have "promotePlaceholder dat j (cleanOrphans s) = (r, s2)" "ref = Some j"
      using assms(3) by (auto split: prod.splits)
    then show ?thesis using hrc_promote [OF fresh assms(2) Some] by simp
  next
    case None
    then have "createAndMerge dat (cleanOrphans s) = (ref, r, s2)" using assms(3) by simp
    then show ?thesis using hrc_create [OF fresh assms(2) None] by simp
  qed
  have closed: "scale r \<noteq> [] \<and> takeWhile is_digit (scale r) \<noteq> []
            \<and> parseInt (takeWhile is_digit (scale r)) < 10 \<longrightarrow>
          handleRaidCompletion dat s = (Inr (Some r), s2) \<and> calls s2 = calls s
          \<and> (\<exists>i < length (recentRaids s2). recentRaids s2 ! i = r)"
    using h ms by (auto simp: persistRaid_def isScaleLargeEnough_iff)
  have app: "(scale r = [] \<or> takeWhile is_digit (scale r) = []
            \<or> 10 \<le> parseInt (takeWhile is_digit (scale r)))
          \<and> totalPoints r \<noteq> None \<and> \<not> addedToSheet r \<longrightarrow>
          (\<exists>t rest. calls (snd (handleRaidCompletion dat s))
             = calls s @ (t, if sheetsClient s then ValuesAppend (raidToRow r) else GetClient) # rest)"
  proof
    assume a: "(scale r = [] \<or> takeWhile is_digit (scale r) = []
            \<or> 10 \<le> parseInt (takeWhile is_digit (scale r)))
          \<and> totalPoints r \<noteq> None \<and> \<not> addedToSheet r"
    then have g: "isScaleLargeEnough (scale r)" by (simp add: isScaleLargeEnough_iff)
    obtain x sa where ar: "appendRow (raidToRow r) 0 s2 = (x, sa)"
      by (cases "appendRow (raidToRow r) 0 s2")
    have "calls (snd (persistRaid ref r s2)) = calls sa"
      using a g ar
      by (auto simp: persistRaid_def Let_def writeRaid_def putRaid_def
               split: sum.splits option.splits)
    moreover obtain t rest where "calls sa
        = calls s2 @ (t, if sheetsClient s2 then ValuesAppend (raidToRow r) else GetClient) # rest"
      using appendRow_first_call [of "raidToRow r" 0 s2] ar by auto
    ultimately show "\<exists>t rest. calls (snd (handleRaidCompletion dat s))
             = calls s @ (t, if sheetsClient s then ValuesAppend (raidToRow r) else GetClient) # rest"
      using h ms by auto
  qed
  have upd: "(scale r = [] \<or> takeWhile is_digit (scale r) = []
            \<or> 10 \<le> parseInt (takeWhile is_digit (scale r)))
          \<and> addedToSheet r \<and> persistedRow r = Some n \<longrightarrow>
          (\<exists>t rest. calls (snd (handleRaidCompletion dat s))
             = calls s @ (t, if sheetsClient s then ValuesUpdate n (raidToRow r) else GetClient) # rest)"
  proof
    assume a: "(scale r = [] \<or> takeWhile is_digit (scale r) = []
            \<or> 10 \<le> parseInt (takeWhile is_digit (scale r)))
          \<and> addedToSheet r \<and> persistedRow r = Some n"
    then have g: "isScaleLargeEnough (scale r)" by (simp add: isScaleLargeEnough_iff)
    obtain x su where ur: "updateRow n (raidToRow r) 0 s2 = (x, su)"
      by (cases "updateRow n (raidToRow r) 0 s2")
    have "calls (snd (persistRaid ref r s2)) = calls su"
      using a g ur by (auto simp: persistRaid_def split: sum.splits)
    moreover obtain t rest where "calls su
        = calls s2 @ (t, if sheetsClient s2 then ValuesUpdate n (raidToRow r) else GetClient) # rest"
      using updateRow_first_call [of n "raidToRow r" 0 s2] ur by auto
    ultimately show "\<exists>t rest. calls (snd (handleRaidCompletion dat s))
             = calls s @ (t, if sheetsClient s then ValuesUpdate n (raidToRow r) else GetClient) # rest"
      using h ms by auto
  qed
  show ?thesis using closed app upd ms by blast
qed

theorem team_size_gate_witness:
  "calls (snd (handleRaidCompletion (score 1700000001000 291233 ''Hyperr'' 94987) smallTeam)) = []
   \<and> (\<exists>i < length (recentRaids
                    (snd (handleRaidCompletion (score 1700000001000 291233 ''Hyperr'' 94987)
                            smallTeam))).
         scale (recentRaids
                  (snd (handleRaidCompletion (score 1700000001000 291233 ''Hyperr'' 94987)
                          smallTeam)) ! i) = ''8-10'')"
proof -
  let ?dat = "score 1700000001000 291233 ''Hyperr'' 94987"
  let ?X = "createAndMerge ?dat (cleanOrphans smallTeam)"
  have fresh: "clock smallTeam - d_timestamp ?dat \<le> 300000"
    by (simp add: smallTeam_def init_state_def score_def)
  have f1: "findRaidByTotalPoints (d_totalPoints ?dat) smallTeam = None"
    and f2: "findRaidByTotalPoints None smallTeam = None"
    by (simp_all add: findRaidByTotalPoints_def smallTeam_def init_state_def)
  have m: "(case findRaidByTotalPoints None smallTeam of
            Some j \<Rightarrow> (case promotePlaceholder ?dat j (cleanOrphans smallTeam) of
                         (r, s2) \<Rightarrow> (Some j, r, s2))
          | None \<Rightarrow> ?X) = (fst ?X, fst (snd ?X), snd (snd ?X))"
    using f2 by simp
  have sc: "scale (fst (snd ?X)) = ''8-10''"
    by code_simp
  have gate: "scale (fst (snd ?X)) \<noteq> [] \<and> takeWhile is_digit (scale (fst (snd ?X))) \<noteq> []
            \<and> parseInt (takeWhile is_digit (scale (fst (snd ?X)))) < 10"
    unfolding sc by (simp add: is_digit_def parseInt_def)
  have "handleRaidCompletion ?dat smallTeam = (Inr (Some (fst (snd ?X))), snd (snd ?X))
        \<and> calls (snd (snd ?X)) = calls smallTeam
        \<and> (\<exists>i < length (recentRaids (snd (snd ?X))). recentRaids (snd (snd ?X)) ! i = fst (snd ?X))"
    using team_size_gate [OF fresh f1 m] gate by blast
  moreover have "calls smallTeam = []" by (simp add: smallTeam_def init_state_def)
  ultimately show ?thesis using sc by auto
qed

section \<open>Failures of the store at the entry point\<close>

lemma persistedRow_kept [simp]:
  "persistedRow (r\<lparr>completionTime := c\<rparr>) = persistedRow r"
  "persistedRow (r\<lparr>players := ps\<rparr>) = persistedRow r"
  "persistedRow (r\<lparr>totalPoints := tp\<rparr>) = persistedRow r"
  "persistedRow (setScale sc r) = persistedRow r"
  "persistedRow (addLoot m r) = persistedRow r"
  by (simp_all add: persistedRow_def setScale_def addLoot_def split: option.splits)

lemma clock_cleanOrphans [simp]: "clock (cleanOrphans s) = clock s"
  by (simp add: cleanOrphans_def Let_def)

lemma findRaidForLoot_cleanOrphans [simp]:
  "findRaidForLoot dat (cleanOrphans s) = findRaidForLoot dat s"
  unfolding findRaidForLoot_def clock_cleanOrphans recentRaids_cleanOrphans ..

lemma fst_rethrow:
  "(fst (case x of (Inl e, s') \<Rightarrow> (Inl e, s') | (Inr u, s') \<Rightarrow> (Inr (f u s'), g u s')) = Inl e)
     = (fst x = Inl e)"
  by (cases x) (auto split: sum.splits)

lemma duration_update_result:
  assumes "scanBack (\<lambda>r. clock s - timestamp r \<le> TIME_THRESHOLD \<and> \<not> truthy (completionTime r))
             (recentRaids s) (length (recentRaids s)) = Some i"
    and "persistedRow (recentRaids s ! i) = Some n"
  shows "handleDurationUpdate dat s
     = updateRow n
         (raidToRow (setScale (d_scale dat) ((recentRaids s ! i)\<lparr>completionTime := d_raidTime dat\<rparr>)))
         0
         (putRaid i (setScale (d_scale dat) ((recentRaids s ! i)\<lparr>completionTime := d_raidTime dat\<rparr>))
            (cleanOrphans s))"
  using assms by (simp add: handleDurationUpdate_def Let_def)

lemma loot_update_result:
  assumes "findRaidForLoot dat s = Some i"
    and "\<not> alreadyHasDrop (d_playerName dat) (recentRaids s ! i)"
    and "persistedRow (recentRaids s ! i) = Some n"
  shows "handleLootDrop dat s
     = updateRow n
         (raidToRow (addLoot (lootMessage (d_playerName dat) (d_itemName dat)) (recentRaids s ! i)))
         0
         (putRaid i (addLoot (lootMessage (d_playerName dat) (d_itemName dat)) (recentRaids s ! i))
            (cleanOrphans s))"
  using assms by (simp add: handleLootDrop_def Let_def)

lemma putRaid_twice [simp]: "putRaid i r' (putRaid i r s) = putRaid i r' s"
  by (simp add: putRaid_def)

lemma score_update_result:
  assumes fresh: "\<not> clock s - d_timestamp dat > MAX_DATA_AGE"
    and found: "findRaidByTotalPoints (d_totalPoints dat) s = Some i"
    and pl: "d_players dat = p # rest" "MIN_POINTS_THRESHOLD \<le> points p"
      "length (players (recentRaids s ! i)) < MAX_PLAYERS"
      "name p \<notin> set (map name (players (recentRaids s ! i)))"
    and row: "persistedRow (recentRaids s ! i) = Some n"
    and r': "r' = (if totalPoints (recentRaids s ! i) = None
                   then (recentRaids s ! i)\<lparr>totalPoints := d_totalPoints dat\<rparr>
                   else recentRaids s ! i)
                  \<lparr>players := players (recentRaids s ! i) @ [p]\<rparr>"
  shows "(fst (handleRaidCompletion dat s) = Inl e)
     = (fst (updateRow n (raidToRow r') 0 (putRaid i r' (cleanOrphans s))) = Inl e)"
proof -
  define r where "r = (if totalPoints (recentRaids s ! i) = None
                        then (recentRaids s ! i)\<lparr>totalPoints := d_totalPoints dat\<rparr>
                        else recentRaids s ! i)"
  have pr: "players r = players (recentRaids s ! i)" "persistedRow r = Some n"
    using row by (simp_all add: r_def)
  have r2: "r' = r\<lparr>players := players r @ [p]\<rparr>" using r' pr by (simp add: r_def)
  have "addToExistingRaid dat i (cleanOrphans s)
      = (case updateRow n (raidToRow r') 0 (putRaid i r' (cleanOrphans s)) of
           (Inl e, s3) \<Rightarrow> (Inl e, s3)
         | (Inr _, s3) \<Rightarrow> (Inr (Some r'), s3))"
  proof -
    have c: "\<not> points p < MIN_POINTS_THRESHOLD" "length (players r) < MAX_PLAYERS"
        "\<not> playerExists p r" "persistedRow (r\<lparr>players := players r @ [p]\<rparr>) = Some n"
      using pl pr by (simp_all add: playerExists_def)
    show ?thesis
      unfolding r2 using pl(1) c
      by (simp add: addToExistingRaid_def Let_def r_def [symmetric])
  qed
  then show ?thesis
    using hrc_found [OF fresh found]
    by (cases "updateRow n (raidToRow r') 0 (putRaid i r' (cleanOrphans s))")
       (auto split: sum.splits)
qed

lemma persistRaid_append_result:
  assumes "isScaleLargeEnough (scale r)" "totalPoints r \<noteq> None" "\<not> addedToSheet r"
  shows "(fst (persistRaid ref r s) = Inl e) = (fst (appendRow (raidToRow r) 0 s) = Inl e)"
  using assms
  by (cases "appendRow (raidToRow r) 0 s")
     (auto simp: persistRaid_def Let_def split: sum.splits option.splits)

lemma persistRaid_update_result:
  assumes "isScaleLargeEnough (scale r)" "\<not> (totalPoints r \<noteq> None \<and> \<not> addedToSheet r)"
    "persistedRow r = Some n"
  shows "(fst (persistRaid ref r s) = Inl e) = (fst (updateRow n (raidToRow r) 0 s) = Inl e)"
  using assms
  by (cases "updateRow n (raidToRow r) 0 s")
     (auto simp: persistRaid_def Let_def split: sum.splits option.splits)

lemma made_persist:
  assumes "\<not> clock s - d_timestamp dat > MAX_DATA_AGE"
    and "findRaidByTotalPoints (d_totalPoints dat) s = None"
    and "(case findRaidByTotalPoints None s of
            Some j \<Rightarrow> (case promotePlaceholder dat j (cleanOrphans s) of (r, s2) \<Rightarrow> (Some j, r, s2))
          | None \<Rightarrow> createAndMerge dat (cleanOrphans s)) = (ref, r, s2)"
  shows "handleRaidCompletion dat s = persistRaid ref r s2"
proof (cases "findRaidByTotalPoints None s")
  case (Some j)
  then have "promotePlaceholder dat j (cleanOrphans s) = (r, s2)" "ref = Some j"
    using assms(3) by (auto split: prod.splits)
  then show ?thesis using hrc_promote [OF assms(1,2) Some] by simp
next
  case None
  then have "createAndMerge dat (cleanOrphans s) = (ref, r, s2)" using assms(3) by simp
  then show ?thesis using hrc_create [OF assms(1,2) None] by simp
qed

lemma gateway_with_client:
  "sheetsClient s \<Longrightarrow> ensureClient (awaitCooldown s) = (Inr (), awaitCooldown s)"
  by (simp add: ensureClient_def awaitCooldown_def sleep_def)

lemma appendRow_surfaces:
  assumes "sheetsClient s" "world s (length (calls s)) = Failure e"
    "\<not> isRateLimit e" "\<not> isAuthError e"
  shows "fst (appendRow r n s) = Inl e"
proof -
  have w: "world (awaitCooldown s) (length (calls (awaitCooldown s))) = Failure e"
    using assms(2) by (simp add: awaitCooldown_def sleep_def)
  have "fst (appendRow_try r s) = Inl e"
    using gateway_with_client [OF assms(1)] w by (simp add: appendRow_try_def api_def)
  then show ?thesis using assms(3,4)
    by (subst appendRow.simps) (auto split: prod.splits sum.splits)
qed

lemma updateRow_surfaces:
  assumes "sheetsClient s" "world s (length (calls s)) = Failure e" "\<not> isRateLimit e"
  shows "fst (updateRow k r n s) = Inl e"
proof -
  have w: "world (awaitCooldown s) (length (calls (awaitCooldown s))) = Failure e"
    using assms(2) by (simp add: awaitCooldown_def sleep_def)
  have "fst (updateRow_try k r s) = Inl e"
    using gateway_with_client [OF assms(1)] w by (simp add: updateRow_try_def api_def)
  then show ?thesis using assms(3)
    by (subst updateRow.simps) (auto split: prod.splits sum.splits)
qed


text \<open>
  C1, as amended. \<^verbatim>\<open>appendToSheet\<close> catches, logs and throws again. For a notification of
  one of the three types nothing is thrown when the store answers every call without an
  error, and what the handler throws is what the caller gets; for any other type the
  unknown-type error is thrown and the state is left as it is. A failure that
  \<^verbatim>\<open>appendRow\<close> or \<^verbatim>\<open>updateRow\<close> surfaces escapes to the caller at each of the five places
  where a handler awaits them: the update after a duration or a loot for a raid that has a
  row is the whole outcome of \<^verbatim>\<open>appendToSheet\<close>, result and state; on the score path
  \<^verbatim>\<open>appendToSheet\<close> throws \<open>e\<close> exactly when the update for the added player, or the
  append or update of the promoted or created raid behind the gate, throws \<open>e\<close>. (The
  delayed update that the score path schedules runs after \<^verbatim>\<open>appendToSheet\<close> has returned
  and is no part of its outcome.) With a client in place, an error of the API call that is
  neither a rate limit nor (for \<^verbatim>\<open>appendRow\<close>) an authentication error is what
  \<^verbatim>\<open>appendRow\<close> and \<^verbatim>\<open>updateRow\<close> throw.
\<close>

theorem appendToSheet_rethrows:
  "(d_type dat \<in> {''points'', ''duration'', ''loot''} \<and> (\<forall>k. \<exists>r. world s k = Success r)
      \<longrightarrow> fst (appendToSheet dat s) = Inr ())
   \<and> (d_type dat = ''points'' \<and> fst (handleRaidCompletion dat s) = Inl e
      \<longrightarrow> fst (appendToSheet dat s) = Inl e)
   \<and> (d_type dat = ''duration'' \<longrightarrow> appendToSheet dat s = handleDurationUpdate dat s)
   \<and> (d_type dat = ''loot'' \<longrightarrow> appendToSheet dat s = handleLootDrop dat s)
   \<and> (d_type dat \<notin> {''points'', ''duration'', ''loot''}
      \<longrightarrow> appendToSheet dat s = (Inl (unknownDataType (d_type dat)), s))
   \<and> (d_type dat = ''duration''
       \<and> scanBack (\<lambda>r. clock s - timestamp r \<le> TIME_THRESHOLD \<and> \<not> truthy (completionTime r))
            (recentRaids s) (length (recentRaids s)) = Some i
       \<and> persistedRow (recentRaids s ! i) = Some n
      \<longrightarrow> appendToSheet dat s
          = updateRow n
              (raidToRow (setScale (d_scale dat)
                            ((recentRaids s ! i)\<lparr>completionTime := d_raidTime dat\<rparr>)))
              0
              (putRaid i (setScale (d_scale dat)
                            ((recentRaids s ! i)\<lparr>completionTime := d_raidTime dat\<rparr>))
                 (cleanOrphans s)))
   \<and> (d_type dat = ''loot'' \<and> findRaidForLoot dat s = Some i
       \<and> \<not> alreadyHasDrop (d_playerName dat) (recentRaids s ! i)
       \<and> persistedRow (recentRaids s ! i) = Some n
      \<longrightarrow> appendToSheet dat s
          = updateRow n
              (raidToRow (addLoot (lootMessage (d_playerName dat) (d_itemName dat))
                            (recentRaids s ! i)))
              0
              (putRaid i (addLoot (lootMessage (d_playerName dat) (d_itemName dat))
                            (recentRaids s ! i))
                 (cleanOrphans s)))
   \<and> (d_type dat = ''points'' \<and> clock s - d_timestamp dat \<le> 300000
       \<and> findRaidByTotalPoints (d_totalPoints dat) s = Some i
       \<and> d_players dat = p # rest \<and> 2000 \<le> points p
       \<and> length (players (recentRaids s ! i)) < 5
       \<and> name p \<notin> set (map name (players (recentRaids s ! i)))
       \<and> persistedRow (recentRaids s ! i) = Some n
       \<and> r' = (if totalPoints (recentRaids s ! i) = None
                then (recentRaids s ! i)\<lparr>totalPoints := d_totalPoints dat\<rparr>
                else recentRaids s ! i)
               \<lparr>players := players (recentRaids s ! i) @ [p]\<rparr>
      \<longrightarrow> (fst (appendToSheet dat s) = Inl e)
          = (fst (updateRow n (raidToRow r') 0 (putRaid i r' (cleanOrphans s))) = Inl e))
   \<and> (d_type dat = ''points'' \<and> clock s - d_timestamp dat \<le> 300000
       \<and> findRaidByTotalPoints (d_totalPoints dat) s = None
       \<and> (case findRaidByTotalPoints None s of
             Some j \<Rightarrow> (case promotePlaceholder dat j (cleanOrphans s) of
                          (r, s2) \<Rightarrow> (Some j, r, s2))
           | None \<Rightarrow> createAndMerge dat (cleanOrphans s)) = (ref, r, s2)
       \<and> isScaleLargeEnough (scale r)
      \<longrightarrow> (totalPoints r \<noteq> None \<and> \<not> addedToSheet r
            \<longrightarrow> (fst (appendToSheet dat s) = Inl e)
                = (fst (appendRow (raidToRow r) 0 s2) = Inl e))
          \<and> (\<not> (totalPoints r \<noteq> None \<and> \<not> addedToSheet r) \<and> persistedRow r = Some n
            \<longrightarrow> (fst (appendToSheet dat s) = Inl e)
                = (fst (updateRow n (raidToRow r) 0 s2) = Inl e)))
   \<and> (sheetsClient s \<and> world s (length (calls s)) = Failure e
       \<and> \<not> isRateLimit e \<and> \<not> isAuthError e
      \<longrightarrow> fst (appendRow rw k s) = Inl e)
   \<and> (sheetsClient s \<and> world s (length (calls s)) = Failure e \<and> \<not> isRateLimit e
      \<longrightarrow> fst (updateRow n rw k s) = Inl e)"
proof -
  have pts: "d_type dat = ''points'' \<Longrightarrow>
      (fst (appendToSheet dat s) = Inl e) = (fst (handleRaidCompletion dat s) = Inl e)"
    by (cases "handleRaidCompletion dat s")
       (auto simp: appendToSheet_def split: sum.splits)
  have c1: "d_type dat \<in> {''points'', ''duration'', ''loot''} \<and> (\<forall>k. \<exists>r. world s k = Success r)
      \<longrightarrow> fst (appendToSheet dat s) = Inr ()"
  proof
    assume a: "d_type dat \<in> {''points'', ''duration'', ''loot''} \<and> (\<forall>k. \<exists>r. world s k = Success r)"
    have ok: "storeNeverFails s"
      unfolding storeNeverFails_def
    proof (intro allI notI)
      fix k e assume "world s k = Failure e"
      moreover obtain r where "world s k = Success r" using a by blast
      ultimately show False by simp
    qed
    obtain x where "fst (handleRaidCompletion dat s) = Inr x"
      using handleRaidCompletion_ok [OF ok] by blast
    then show "fst (appendToSheet dat s) = Inr ()"
      using a handleDurationUpdate_ok [OF ok, of dat] handleLootDrop_ok [OF ok, of dat]
      by (auto simp: appendToSheet_def split: prod.splits sum.splits)
  qed
  have c2: "d_type dat = ''points'' \<and> fst (handleRaidCompletion dat s) = Inl e
      \<longrightarrow> fst (appendToSheet dat s) = Inl e"
    using pts by simp
  have c3: "d_type dat = ''duration'' \<longrightarrow> appendToSheet dat s = handleDurationUpdate dat s"
    and c4: "d_type dat = ''loot'' \<longrightarrow> appendToSheet dat s = handleLootDrop dat s"
    and c5: "d_type dat \<notin> {''points'', ''duration'', ''loot''}
      \<longrightarrow> appendToSheet dat s = (Inl (unknownDataType (d_type dat)), s)"
    by (auto simp: appendToSheet_def)
  have c6: "d_type dat = ''duration''
       \<and> scanBack (\<lambda>r. clock s - timestamp r \<le> TIME_THRESHOLD \<and> \<not> truthy (completionTime r))
            (recentRaids s) (length (recentRaids s)) = Some i
       \<and> persistedRow (recentRaids s ! i) = Some n
      \<longrightarrow> appendToSheet dat s
          = updateRow n
              (raidToRow (setScale (d_scale dat)
                            ((recentRaids s ! i)\<lparr>completionTime := d_raidTime dat\<rparr>)))
              0
              (putRaid i (setScale (d_scale dat)
                            ((recentRaids s ! i)\<lparr>completionTime := d_raidTime dat\<rparr>))
                 (cleanOrphans s))"
    using c3 duration_update_result [of s i n dat] by simp
  have c7: "d_type dat = ''loot'' \<and> findRaidForLoot dat s = Some i
       \<and> \<not> alreadyHasDrop (d_playerName dat) (recentRaids s ! i)
       \<and> persistedRow (recentRaids s ! i) = Some n
      \<longrightarrow> appendToSheet dat s
          = updateRow n
              (raidToRow (addLoot (lootMessage (d_playerName dat) (d_itemName dat))
                            (recentRaids s ! i)))
              0
              (putRaid i (addLoot (lootMessage (d_playerName dat) (d_itemName dat))
                            (recentRaids s ! i))
                 (cleanOrphans s))"
    using c4 loot_update_result [of dat s i n] by simp
  have c8: "d_type dat = ''points'' \<and> clock s - d_timestamp dat \<le> 300000
       \<and> findRaidByTotalPoints (d_totalPoints dat) s = Some i
       \<and> d_players dat = p # rest \<and> 2000 \<le> points p
       \<and> length (players (recentRaids s ! i)) < 5
       \<and> name p \<notin> set (map name (players (recentRaids s ! i)))
       \<and> persistedRow (recentRaids s ! i) = Some n
       \<and> r' = (if totalPoints (recentRaids s ! i) = None
                then (recentRaids s ! i)\<lparr>totalPoints := d_totalPoints dat\<rparr>
                else recentRaids s ! i)
               \<lparr>players := players (recentRaids s ! i) @ [p]\<rparr>
      \<longrightarrow> (fst (appendToSheet dat s) = Inl e)
          = (fst (updateRow n (raidToRow r') 0 (putRaid i r' (cleanOrphans s))) = Inl e)"
  proof
    assume a: "d_type dat = ''points'' \<and> clock s - d_timestamp dat \<le> 300000
       \<and> findRaidByTotalPoints (d_totalPoints dat) s = Some i
       \<and> d_players dat = p # rest \<and> 2000 \<le> points p
       \<and> length (players (recentRaids s ! i)) < 5
       \<and> name p \<notin> set (map name (players (recentRaids s ! i)))
       \<and> persistedRow (recentRaids s ! i) = Some n
       \<and> r' = (if totalPoints (recentRaids s ! i) = None
                then (recentRaids s ! i)\<lparr>totalPoints := d_totalPoints dat\<rparr>
                else recentRaids s ! i)
               \<lparr>players := players (recentRaids s ! i) @ [p]\<rparr>"
    have "(fst (handleRaidCompletion dat s) = Inl e)
        = (fst (updateRow n (raidToRow r') 0 (putRaid i r' (cleanOrphans s))) = Inl e)"
      using a
      by (intro score_update_result [of s dat i p rest n r' e])
         (simp_all add: MAX_DATA_AGE_def MIN_POINTS_THRESHOLD_def MAX_PLAYERS_def)
    then show "(fst (appendToSheet dat s) = Inl e)
          = (fst (updateRow n (raidToRow r') 0 (putRaid i r' (cleanOrphans s))) = Inl e)"
      using pts a by simp
  qed
  have c9: "d_type dat = ''points'' \<and> clock s - d_timestamp dat \<le> 300000
       \<and> findRaidByTotalPoints (d_totalPoints dat) s = None
       \<and> (case findRaidByTotalPoints None s of
             Some j \<Rightarrow> (case promotePlaceholder dat j (cleanOrphans s) of
                          (r, s2) \<Rightarrow> (Some j, r, s2))
           | None \<Rightarrow> createAndMerge dat (cleanOrphans s)) = (ref, r, s2)
       \<and> isScaleLargeEnough (scale r)
      \<longrightarrow> (totalPoints r \<noteq> None \<and> \<not> addedToSheet r
            \<longrightarrow> (fst (appendToSheet dat s) = Inl e)
                = (fst (appendRow (raidToRow r) 0 s2) = Inl e))
          \<and> (\<not> (totalPoints r \<noteq> None \<and> \<not> addedToSheet r) \<and> persistedRow r = Some n
            \<longrightarrow> (fst (appendToSheet dat s) = Inl e)
                = (fst (updateRow n (raidToRow r) 0 s2) = Inl e))"
  proof
    assume a: "d_type dat = ''points'' \<and> clock s - d_timestamp dat \<le> 300000
       \<and> findRaidByTotalPoints (d_totalPoints dat) s = None
       \<and> (case findRaidByTotalPoints None s of
             Some j \<Rightarrow> (case promotePlaceholder dat j (cleanOrphans s) of
                          (r, s2) \<Rightarrow> (Some j, r, s2))
           | None \<Rightarrow> createAndMerge dat (cleanOrphans s)) = (ref, r, s2)
       \<and> isScaleLargeEnough (scale r)"
    have fresh: "\<not> clock s - d_timestamp dat > MAX_DATA_AGE"
      using a by (simp add: MAX_DATA_AGE_def)
    have h: "handleRaidCompletion dat s = persistRaid ref r s2"
      using a by (intro made_persist [OF fresh]) simp_all
    show "(totalPoints r \<noteq> None \<and> \<not> addedToSheet r
            \<longrightarrow> (fst (appendToSheet dat s) = Inl e)
                = (fst (appendRow (raidToRow r) 0 s2) = Inl e))
          \<and> (\<not> (totalPoints r \<noteq> None \<and> \<not> addedToSheet r) \<and> persistedRow r = Some n
            \<longrightarrow> (fst (appendToSheet dat s) = Inl e)
                = (fst (updateRow n (raidToRow r) 0 s2) = Inl e))"
      using a pts h persistRaid_append_result [of r ref s2 e]
        persistRaid_update_result [of r n ref s2 e]
      by simp
  qed
  have c10: "sheetsClient s \<and> world s (length (calls s)) = Failure e
       \<and> \<not> isRateLimit e \<and> \<not> isAuthError e
      \<longrightarrow> fst (appendRow rw k s) = Inl e"
    using appendRow_surfaces [of s e rw k] by simp
  have c11: "sheetsClient s \<and> world s (length (calls s)) = Failure e \<and> \<not> isRateLimit e
      \<longrightarrow> fst (updateRow n rw k s) = Inl e"
    using updateRow_surfaces [of s e n rw k] by simp
  show ?thesis
    using c1 c2 c3 c4 c5 c6 c7 c8 c9 c10 c11 by (intro conjI)
qed


theorem appendToSheet_rethrows_witness:
  "fst (appendToSheet (score 1700000000000 291233 ''Hyperr'' 94987)
          (init_state 1700000000000 storeUp)) = Inr ()
   \<and> appendToSheet (loot 1700000000000 ''Hyperr'' ''Twisted bow'' \<lparr>d_type := ''chat''\<rparr>)
        (init_state 1700000000000 storeUp)
      = (Inl \<lparr>code = None, message = ''Unknown data type: chat''\<rparr>,
         init_state 1700000000000 storeUp)
   \<and> fst (appendToSheet (duration 1700000000000 ''25:30'' None) storedOnly)
      = Inl \<lparr>code = Some 500, message = ''Internal error''\<rparr>
   \<and> fst (appendToSheet (loot 1700000000000 ''Hyperr'' ''Twisted bow'') storedOnly)
      = Inl \<lparr>code = Some 500, message = ''Internal error''\<rparr>
   \<and> fst (appendToSheet (score 1700000000000 250000 ''Hyperr'' 94987) storedOnly)
      = Inl \<lparr>code = Some 500, message = ''Internal error''\<rparr>
   \<and> fst (appendToSheet (score 1700000000000 291233 ''Hyperr'' 94987) (connected storeDown))
      = Inl \<lparr>code = Some 500, message = ''Internal error''\<rparr>"
proof -
  let ?err = "\<lparr>code = Some 500, message = ''Internal error''\<rparr>"
  let ?up = "init_state 1700000000000 storeUp"
  let ?sc = "score 1700000000000 291233 ''Hyperr'' 94987"
  let ?chat = "loot 1700000000000 ''Hyperr'' ''Twisted bow'' \<lparr>d_type := ''chat''\<rparr>"
  let ?dur = "duration 1700000000000 ''25:30'' None"
  let ?loot = "loot 1700000000000 ''Hyperr'' ''Twisted bow''"
  let ?join = "score 1700000000000 250000 ''Hyperr'' 94987"
  let ?r0 = "storedRaid 1700000000000 True"
  have nr: "\<not> isRateLimit ?err"
    by (simp add: isRateLimit_def)
  have na: "\<not> isAuthError ?err"
    by (simp add: isAuthError_def)
  have rs: "recentRaids storedOnly = [?r0]" "clock storedOnly = 1700000000000"
    "sheetsClient storedOnly" "world storedOnly = storeDown" "calls storedOnly = []"
    by (simp_all add: storedOnly_def connected_def init_state_def)
  have after: "sheetsClient (putRaid 0 x (cleanOrphans storedOnly))"
    "world (putRaid 0 x (cleanOrphans storedOnly)) (length (calls (putRaid 0 x (cleanOrphans storedOnly))))
       = Failure ?err" for x
    by (simp_all add: putRaid_def cleanOrphans_def Let_def rs storeDown_def)
  have pr': "persistedRow (recentRaids storedOnly ! 0) = Some 2"
    by (simp add: rs persistedRow_def storedRaid_def)
  have ty: "d_type ?dur = ''duration''" "d_type ?loot = ''loot''"
    by (simp_all add: duration_def loot_def)
  have a1: "fst (appendToSheet ?sc ?up) = Inr ()"
    using appendToSheet_rethrows [where dat = ?sc and s = ?up]
    by (simp add: score_def init_state_def storeUp_def)
  have a2: "appendToSheet ?chat ?up
      = (Inl \<lparr>code = None, message = ''Unknown data type: chat''\<rparr>, ?up)"
    using appendToSheet_rethrows [where dat = ?chat and s = ?up]
    by (simp add: loot_def unknownDataType_def)
  have a3: "fst (appendToSheet ?dur storedOnly) = Inl ?err"
  proof -
    let ?t = "setScale (d_scale ?dur) ((recentRaids storedOnly ! 0)\<lparr>completionTime := d_raidTime ?dur\<rparr>)"
    have sb: "scanBack (\<lambda>r. clock storedOnly - timestamp r \<le> TIME_THRESHOLD \<and> \<not> truthy (completionTime r))
            (recentRaids storedOnly) (length (recentRaids storedOnly)) = Some 0"
      by (simp add: rs storedRaid_def TIME_THRESHOLD_def)
    have "appendToSheet ?dur storedOnly
        = updateRow 2 (raidToRow ?t) 0 (putRaid 0 ?t (cleanOrphans storedOnly))"
      by (rule appendToSheet_rethrows [where dat = ?dur and s = storedOnly and i = 0 and n = 2,
            THEN conjunct2, THEN conjunct2, THEN conjunct2, THEN conjunct2, THEN conjunct2, THEN conjunct1, THEN mp])
         (intro conjI sb ty pr')
    moreover have "fst (updateRow 2 (raidToRow ?t) 0 (putRaid 0 ?t (cleanOrphans storedOnly))) = Inl ?err"
      by (rule appendToSheet_rethrows [where s = "putRaid 0 ?t (cleanOrphans storedOnly)"
            and e = ?err and n = 2 and rw = "raidToRow ?t" and k = 0,
            THEN conjunct2, THEN conjunct2, THEN conjunct2, THEN conjunct2, THEN conjunct2, THEN conjunct2, THEN conjunct2, THEN conjunct2, THEN conjunct2, THEN conjunct2, THEN mp])
         (intro conjI after nr)
    ultimately show ?thesis by simp
  qed
  have a4: "fst (appendToSheet ?loot storedOnly) = Inl ?err"
  proof -
    let ?t = "addLoot (lootMessage (d_playerName ?loot) (d_itemName ?loot)) (recentRaids storedOnly ! 0)"
    have f: "findRaidForLoot ?loot storedOnly = Some 0"
      by (simp add: findRaidForLoot_def rs storedRaid_def LOOT_TIME_WINDOW_def)
    have d: "\<not> alreadyHasDrop (d_playerName ?loot) (recentRaids storedOnly ! 0)"
      by (simp add: alreadyHasDrop_def rs storedRaid_def)
    have "appendToSheet ?loot storedOnly
        = updateRow 2 (raidToRow ?t) 0 (putRaid 0 ?t (cleanOrphans storedOnly))"
      by (rule appendToSheet_rethrows [where dat = ?loot and s = storedOnly and i = 0 and n = 2,
            THEN conjunct2, THEN conjunct2, THEN conjunct2, THEN conjunct2, THEN conjunct2, THEN conjunct2, THEN conjunct1, THEN mp])
         (intro conjI f d ty pr')
    moreover have "fst (updateRow 2 (raidToRow ?t) 0 (putRaid 0 ?t (cleanOrphans storedOnly))) = Inl ?err"
      by (rule appendToSheet_rethrows [where s = "putRaid 0 ?t (cleanOrphans storedOnly)"
            and e = ?err and n = 2 and rw = "raidToRow ?t" and k = 0,
            THEN conjunct2, THEN conjunct2, THEN conjunct2, THEN conjunct2, THEN conjunct2, THEN conjunct2, THEN conjunct2, THEN conjunct2, THEN conjunct2, THEN conjunct2, THEN mp])
         (intro conjI after nr)
    ultimately show ?thesis by simp
  qed
  have a5: "fst (appendToSheet ?join storedOnly) = Inl ?err"
  proof -
    let ?p = "\<lparr>name = ''Hyperr'', points = 94987\<rparr>"
    let ?t = "(if totalPoints (recentRaids storedOnly ! 0) = None
                then (recentRaids storedOnly ! 0)\<lparr>totalPoints := d_totalPoints ?join\<rparr>
                else recentRaids storedOnly ! 0)
               \<lparr>players := players (recentRaids storedOnly ! 0) @ [?p]\<rparr>"
    have f: "findRaidByTotalPoints (d_totalPoints ?join) storedOnly = Some 0"
      by (simp add: findRaidByTotalPoints_def rs storedRaid_def score_def
            pointsMatch_def toNumber_def TIME_WINDOW_def POINTS_TOLERANCE_def)
    have h: "d_type ?join = ''points''" "clock storedOnly - d_timestamp ?join \<le> 300000"
      "d_players ?join = ?p # []" "2000 \<le> points ?p"
      "length (players (recentRaids storedOnly ! 0)) < 5"
      "name ?p \<notin> set (map name (players (recentRaids storedOnly ! 0)))"
      "persistedRow (recentRaids storedOnly ! 0) = Some 2"
      by (simp_all add: score_def rs storedRaid_def persistedRow_def)
    have "(fst (appendToSheet ?join storedOnly) = Inl ?err)
        = (fst (updateRow 2 (raidToRow ?t) 0 (putRaid 0 ?t (cleanOrphans storedOnly))) = Inl ?err)"
      by (rule appendToSheet_rethrows [where dat = ?join and s = storedOnly and i = 0 and n = 2
            and p = ?p and rest = "[]" and r' = ?t and e = ?err,
            THEN conjunct2, THEN conjunct2, THEN conjunct2, THEN conjunct2, THEN conjunct2, THEN conjunct2, THEN conjunct2, THEN conjunct1, THEN mp])
         (intro conjI f h refl)
    moreover have "fst (updateRow 2 (raidToRow ?t) 0 (putRaid 0 ?t (cleanOrphans storedOnly))) = Inl ?err"
      by (rule appendToSheet_rethrows [where s = "putRaid 0 ?t (cleanOrphans storedOnly)"
            and e = ?err and n = 2 and rw = "raidToRow ?t" and k = 0,
            THEN conjunct2, THEN conjunct2, THEN conjunct2, THEN conjunct2, THEN conjunct2, THEN conjunct2, THEN conjunct2, THEN conjunct2, THEN conjunct2, THEN conjunct2, THEN mp])
         (intro conjI after nr)
    ultimately show ?thesis by simp
  qed
  have a6: "fst (appendToSheet ?sc (connected storeDown)) = Inl ?err"
  proof -
    let ?s = "connected storeDown"
    let ?M = "case findRaidByTotalPoints None ?s of
             Some j \<Rightarrow> (case promotePlaceholder ?sc j (cleanOrphans ?s) of
                          (r, s2) \<Rightarrow> (Some j, r, s2))
           | None \<Rightarrow> createAndMerge ?sc (cleanOrphans ?s)"
    let ?r = "\<lparr>timestamp = 1700000000000, totalPoints = Some 291233, completionTime = Some [],
               scale = [], uniqueDrop = [], players = [\<lparr>name = ''Hyperr'', points = 94987\<rparr>],
               sheetRow = None, addedToSheet = False\<rparr>"
    let ?s2 = "?s\<lparr>recentRaids := [?r]\<rparr>"
    have f: "findRaidByTotalPoints None ?s = None"
      by (simp add: findRaidByTotalPoints_def connected_def init_state_def)
    have cm: "createAndMerge ?sc (cleanOrphans ?s) = (Some 0, ?r, ?s2)"
      by (simp add: createAndMerge_def createRaidEntry_def mergeOrphansWithRaid_def
            cleanOrphans_def putRaid_def connected_def init_state_def score_def Let_def
            MAX_PLAYERS_def MIN_POINTS_THRESHOLD_def MAX_RAID_HISTORY_def RAID_TIMEOUT_def
            ORPHAN_TIMEOUT_def)
    have m: "?M = (Some 0, ?r, ?s2)"
      unfolding f cm by simp
    have h: "d_type ?sc = ''points''" "clock ?s - d_timestamp ?sc \<le> 300000"
      "findRaidByTotalPoints (d_totalPoints ?sc) ?s = None"
      "isScaleLargeEnough (scale ?r)" "totalPoints ?r \<noteq> None" "\<not> addedToSheet ?r"
      by (simp_all add: score_def connected_def init_state_def findRaidByTotalPoints_def
            isScaleLargeEnough_iff)
    have w: "sheetsClient ?s2" "world ?s2 (length (calls ?s2)) = Failure ?err"
      by (simp_all add: connected_def init_state_def storeDown_def)
    have "(fst (appendToSheet ?sc ?s) = Inl ?err)
        = (fst (appendRow (raidToRow ?r) 0 ?s2) = Inl ?err)"
      by (rule appendToSheet_rethrows [where dat = ?sc and s = ?s and ref = "Some 0"
            and r = ?r and ?s2.0 = ?s2 and e = ?err,
            THEN conjunct2, THEN conjunct2, THEN conjunct2, THEN conjunct2, THEN conjunct2, THEN conjunct2, THEN conjunct2, THEN conjunct2, THEN conjunct1, THEN mp, THEN conjunct1, THEN mp])
         (intro conjI m h)+
    moreover have "fst (appendRow (raidToRow ?r) 0 ?s2) = Inl ?err"
      by (rule appendToSheet_rethrows [where s = ?s2 and e = ?err and rw = "raidToRow ?r" and k = 0,
            THEN conjunct2, THEN conjunct2, THEN conjunct2, THEN conjunct2, THEN conjunct2, THEN conjunct2, THEN conjunct2, THEN conjunct2, THEN conjunct2, THEN conjunct1, THEN mp])
         (intro conjI w nr na)
    ultimately show ?thesis by simp
  qed
  show ?thesis
    using a1 a2 a3 a4 a5 a6 by (intro conjI)
qed

end
